theory Spec2Isabelle
  imports Complex_Main "HOL-Library.Sublist" "HOL-Library.Multiset"
begin

section \<open>JavaScript numbers and strings\<close>

text \<open>
  The scripts compute with JavaScript numbers, which are IEEE 754 doubles. A finite
  double is modelled as the rational number it denotes, next to the two infinities and
  NaN; the sign of zero is not modelled. A division, a multiplication and a subtraction
  return the double nearest to the exact result, a tie going to the even significand,
  which is what \<open>to_double\<close> computes.
\<close>

datatype jsnum = Fin rat | PInf | NInf | NaN

text \<open>The nearest integer, a tie going to the even one.\<close>

definition round_even :: "rat \<Rightarrow> int" where
  "round_even y =
     (let f = \<lfloor>y\<rfloor>; d = y - of_int f
      in if d < 1 / 2 then f else if 1 / 2 < d then f + 1 else if even f then f else f + 1)"

text \<open>
  The binary exponent of a positive rational: \<open>2 powi expo x \<le> x < 2 powi (expo x + 1)\<close>.
\<close>

function expo :: "rat \<Rightarrow> int" where
  "x \<le> 0 \<Longrightarrow> expo x = 0"
| "0 < x \<Longrightarrow> 2 \<le> x \<Longrightarrow> expo x = expo (x / 2) + 1"
| "0 < x \<Longrightarrow> x < 1 \<Longrightarrow> expo x = expo (2 * x) - 1"
| "1 \<le> x \<Longrightarrow> x < 2 \<Longrightarrow> expo x = 0"
             apply atomize_elim
             apply (simp, linarith)
            apply auto
  done
termination
proof (relation "measure (\<lambda>x. if x \<le> 0 then 0 else if 1 \<le> x then nat \<lfloor>x\<rfloor>
                                 else nat \<lceil>1 / x\<rceil> + 1)")
  show "wf (measure (\<lambda>x::rat. if x \<le> 0 then 0 else if 1 \<le> x then nat \<lfloor>x\<rfloor>
                                 else nat \<lceil>1 / x\<rceil> + 1))"
    by simp
next
  fix x :: rat
  assume a: "0 < x" "2 \<le> x"
  have "x / 2 \<le> x - 1" using a by simp
  then have "\<lfloor>x / 2\<rfloor> \<le> \<lfloor>x - 1\<rfloor>" by (rule floor_mono)
  then have "\<lfloor>x / 2\<rfloor> < \<lfloor>x\<rfloor>" by simp
  moreover have "1 \<le> \<lfloor>x / 2\<rfloor>" using a by (simp add: le_floor_iff)
  ultimately have "nat \<lfloor>x / 2\<rfloor> < nat \<lfloor>x\<rfloor>" by linarith
  then show "(x / 2, x) \<in> measure (\<lambda>x. if x \<le> 0 then 0 else if 1 \<le> x then nat \<lfloor>x\<rfloor>
                                 else nat \<lceil>1 / x\<rceil> + 1)"
    using a by simp
next
  fix x :: rat
  assume a: "0 < x" "x < 1"
  have x0: "0 < x" using a by simp
  then have y1: "1 < 1 / x" using a by simp
  then have c2: "2 \<le> \<lceil>1 / x\<rceil>" by (simp add: le_ceiling_iff)
  show "(2 * x, x) \<in> measure (\<lambda>x. if x \<le> 0 then 0 else if 1 \<le> x then nat \<lfloor>x\<rfloor>
                                 else nat \<lceil>1 / x\<rceil> + 1)"
  proof (cases "1 \<le> 2 * x")
    case True
    have "2 * x < 2" using a by simp
    then have "\<lfloor>2 * x\<rfloor> < 2" by (simp add: floor_less_iff)
    then have "nat \<lfloor>2 * x\<rfloor> < 2" by linarith
    moreover have "2 \<le> nat \<lceil>1 / x\<rceil>" using c2 by linarith
    ultimately have "nat \<lfloor>2 * x\<rfloor> < nat \<lceil>1 / x\<rceil> + 1" by linarith
    then show ?thesis using True x0 a by simp
  next
    case False
    then have "2 \<le> 1 / x" using x0 by (simp add: le_divide_eq)
    then have "1 / (2 * x) \<le> 1 / x - 1" using x0 by (simp add: field_simps)
    then have "\<lceil>1 / (2 * x)\<rceil> \<le> \<lceil>1 / x - 1\<rceil>" by (rule ceiling_mono)
    then have "\<lceil>1 / (2 * x)\<rceil> < \<lceil>1 / x\<rceil>" by simp
    moreover have "0 < \<lceil>1 / (2 * x)\<rceil>" using x0 by simp
    ultimately have "nat \<lceil>1 / (2 * x)\<rceil> + 1 < nat \<lceil>1 / x\<rceil> + 1" by linarith
    then show ?thesis using False x0 a by simp
  qed
qed

text \<open>
  The spacing of the doubles around \<open>x\<close>: 52 fraction bits below the exponent, and the
  spacing of the subnormal numbers below \<open>2 powi (- 1022)\<close>. A rounded magnitude of
  \<open>2 powi 1024\<close> or more is an infinity.
\<close>

definition ulp :: "rat \<Rightarrow> rat" where
  "ulp x = 2 powi (max (expo \<bar>x\<bar>) (- 1022) - 52)"

definition double_limit :: rat where
  "double_limit = 2 powi 1024"

definition to_double :: "rat \<Rightarrow> jsnum" where
  "to_double x =
     (let y = of_int (round_even (\<bar>x\<bar> / ulp x)) * ulp x
      in if double_limit \<le> y then (if 0 < x then PInf else NInf) else Fin (sgn x * y))"

text \<open>
  The operations the scripts use, with the results ECMAScript gives on the special
  values. The numerals of the scripts (0, 50, 70, 80, 85, 100) are doubles.
\<close>

fun js_div :: "jsnum \<Rightarrow> jsnum \<Rightarrow> jsnum" where
  "js_div (Fin a) (Fin b) =
     (if b = 0 then (if a = 0 then NaN else if 0 < a then PInf else NInf) else to_double (a / b))"
| "js_div (Fin a) PInf = Fin 0"
| "js_div (Fin a) NInf = Fin 0"
| "js_div PInf (Fin b) = (if 0 \<le> b then PInf else NInf)"
| "js_div NInf (Fin b) = (if 0 \<le> b then NInf else PInf)"
| "js_div _ _ = NaN"

fun js_mul :: "jsnum \<Rightarrow> jsnum \<Rightarrow> jsnum" where
  "js_mul (Fin a) (Fin b) = to_double (a * b)"
| "js_mul PInf (Fin b) = (if b = 0 then NaN else if 0 < b then PInf else NInf)"
| "js_mul NInf (Fin b) = (if b = 0 then NaN else if 0 < b then NInf else PInf)"
| "js_mul (Fin a) PInf = (if a = 0 then NaN else if 0 < a then PInf else NInf)"
| "js_mul (Fin a) NInf = (if a = 0 then NaN else if 0 < a then NInf else PInf)"
| "js_mul PInf PInf = PInf"
| "js_mul NInf NInf = PInf"
| "js_mul PInf NInf = NInf"
| "js_mul NInf PInf = NInf"
| "js_mul _ _ = NaN"

fun js_sub :: "jsnum \<Rightarrow> jsnum \<Rightarrow> jsnum" where
  "js_sub (Fin a) (Fin b) = to_double (a - b)"
| "js_sub (Fin a) PInf = NInf"
| "js_sub (Fin a) NInf = PInf"
| "js_sub PInf (Fin b) = PInf"
| "js_sub PInf NInf = PInf"
| "js_sub NInf (Fin b) = NInf"
| "js_sub NInf PInf = NInf"
| "js_sub _ _ = NaN"

text \<open>The comparison \<open>a < b\<close> of JavaScript: false as soon as one side is NaN.\<close>

fun js_less :: "jsnum \<Rightarrow> jsnum \<Rightarrow> bool" where
  "js_less (Fin a) (Fin b) = (a < b)"
| "js_less (Fin a) PInf = True"
| "js_less NInf (Fin b) = True"
| "js_less NInf PInf = True"
| "js_less _ _ = False"

definition js_ge :: "jsnum \<Rightarrow> jsnum \<Rightarrow> bool" where
  "js_ge a b = (a \<noteq> NaN \<and> b \<noteq> NaN \<and> \<not> js_less a b)"

definition js_le :: "jsnum \<Rightarrow> jsnum \<Rightarrow> bool" where
  "js_le a b = (a \<noteq> NaN \<and> b \<noteq> NaN \<and> \<not> js_less b a)"

text \<open>\<open>Math.min\<close> and \<open>Math.max\<close> return NaN when an argument is NaN.\<close>

definition Math_min :: "jsnum \<Rightarrow> jsnum \<Rightarrow> jsnum" where
  "Math_min a b = (if a = NaN \<or> b = NaN then NaN else if js_less b a then b else a)"

definition Math_max :: "jsnum \<Rightarrow> jsnum \<Rightarrow> jsnum" where
  "Math_max a b = (if a = NaN \<or> b = NaN then NaN else if js_less a b then b else a)"

text \<open>
  \<open>Math.round\<close>: the nearest integer, a tie going up; the special values are kept. The
  result is a double: a double of magnitude \<open>2 powi 52\<close> or more is an integer already,
  and below that every integer is a double.
\<close>

definition round_half_up :: "rat \<Rightarrow> int" where
  "round_half_up x = \<lfloor>x + 1 / 2\<rfloor>"

fun Math_round :: "jsnum \<Rightarrow> jsnum" where
  "Math_round (Fin a) = Fin (of_int (round_half_up a))"
| "Math_round x = x"

text \<open>
  A counter or an array length is kept as the natural number its double holds, and
  \<open>js_nat\<close> is the double of that value. Below \<open>2 powi 53\<close> every natural number is
  a double, and sums and products of such numbers that stay below it are computed
  exactly; an array has fewer than \<open>2 ^ 32\<close> elements, and the issue counters count
  lines of captured tool output, so the counters of a run stay in that range.
\<close>

definition js_nat :: "nat \<Rightarrow> jsnum" where
  "js_nat n = Fin (of_nat n)"

text \<open>What \<open>Math.round\<close> leaves in a counter; the quotients it is applied to are finite.\<close>

fun to_count :: "jsnum \<Rightarrow> nat" where
  "to_count (Fin a) = nat \<lfloor>a\<rfloor>"
| "to_count x = 0"

text \<open>
  \<open>JSON.stringify\<close> writes a finite number as it is and NaN and the infinities as
  \<open>null\<close>; \<open>None\<close> stands for the \<open>null\<close> read back. \<open>x || 0\<close> is \<open>0\<close> when
  \<open>x\<close> is \<open>null\<close> or zero.
\<close>

fun json_number :: "jsnum \<Rightarrow> rat option" where
  "json_number (Fin a) = Some a"
| "json_number _ = None"

fun or_zero :: "rat option \<Rightarrow> jsnum" where
  "or_zero None = Fin 0"
| "or_zero (Some a) = (if a = 0 then Fin 0 else Fin a)"

text \<open>\<open>s.includes(sub)\<close>: \<open>sub\<close> occurs in \<open>s\<close> as a contiguous run of characters.\<close>

fun str_includes :: "string \<Rightarrow> string \<Rightarrow> bool" where
  "str_includes [] sub = (sub = [])"
| "str_includes (c # cs) sub = (prefix sub (c # cs) \<or> str_includes cs sub)"

text \<open>
  \<open>s.split('\n')\<close>: the pieces between line feeds; a string without a line feed, the
  empty string too, is one piece.
\<close>

fun split_lines :: "string \<Rightarrow> string list" where
  "split_lines [] = [[]]"
| "split_lines (c # cs) =
     (if c = CHR 0x0A then [] # split_lines cs
      else (case split_lines cs of l # ls \<Rightarrow> (c # l) # ls | [] \<Rightarrow> [[c]]))"

section \<open>The lint orchestrator: metrics\<close>

text \<open>
  The result recorded for one package. The heavy tier records a duration, the batches
  record none.
\<close>

datatype lint_status = Success | Failed

record package_result =
  errors :: nat
  warnings :: nat
  duration :: "int option"
  status :: lint_status

record performance =
  startTime :: nat
  endTime :: "nat option"
  durationMs :: "int option"

text \<open>
  The \<open>metrics\<close> object of class \<open>QualityMetrics\<close>. Its members \<open>errors\<close> and
  \<open>warnings\<close> are \<open>totalErrors\<close> and \<open>totalWarnings\<close> here, \<open>performance\<close> is
  \<open>perf\<close> and its \<open>duration\<close> is \<open>durationMs\<close>; the time stamp is kept as the clock
  value it is rendered from.
\<close>

record quality_metrics =
  timestamp :: nat
  totalPackages :: nat
  lintedPackages :: nat
  totalErrors :: nat
  totalWarnings :: nat
  packageResults :: "string \<rightharpoonup> package_result"
  perf :: performance
  qualityScore :: jsnum
  previousScore :: jsnum

text \<open>
  The two files the orchestrator keeps. The report file holds the metrics object that
  \<open>finalize\<close> wrote, or something \<open>JSON.parse\<close> or \<open>readFileSync\<close> fails on. The cache
  file has its modification time and either a package list or unparsable content.
  Writing either file is taken to succeed.
\<close>

datatype report_file = CorruptReport | Report quality_metrics

section \<open>Packages, the file system and the cache\<close>

text \<open>
  A discovered package, as \<open>getLintablePackages\<close> builds it. The name is the manifest's
  \<open>name\<close> as it is, without any check: a string, or \<open>None\<close> for a manifest without a
  \<open>name\<close> member (the scanner stores \<open>undefined\<close>, which \<open>JSON.stringify\<close> drops from
  the cache and which reads back as \<open>undefined\<close>). Names that are neither are not
  modelled. Sizes and times are natural numbers.
\<close>

record package =
  name :: "string option"
  path :: string
  lastModified :: nat
  hasTypescript :: bool
  hasTests :: bool
  isPrivate :: bool
  sizeBytes :: nat

datatype cache_content = CorruptCache | CachedPackages "package list"

record store =
  reportFile :: "report_file option"
  cacheFile :: "(nat \<times> cache_content) option"

text \<open>
  The directory tree under the packages directory: a regular file with its size, or a
  directory with its modification time and entries. \<open>readdirSync\<close> and \<open>statSync\<close> are
  taken to succeed on what the tree holds.
\<close>

datatype fsnode = File string nat | Dir string nat "fsnode list"

fun node_name :: "fsnode \<Rightarrow> string" where
  "node_name (File n s) = n"
| "node_name (Dir n t es) = n"

text \<open>
  What \<open>JSON.parse\<close> of a \<open>package.json\<close> gives, as far as the scanner looks at it:
  the name if there is one, whether \<open>scripts\<close> is there with its \<open>lint\<close>, \<open>test\<close> and \<open>test:unit\<close>
  members truthy or not, and \<open>private\<close>.
\<close>

record scripts =
  lint :: bool
  test :: bool
  test_unit :: bool

record package_json =
  pj_name :: "string option"
  pj_scripts :: "scripts option"
  pj_private :: bool

definition path_join :: "string \<Rightarrow> string \<Rightarrow> string" where
  "path_join d n = d @ ''/'' @ n"

text \<open>
  \<open>calculateDirectorySize\<close>: the sizes of the regular files directly in the directory
  whose names do not start with a dot.
\<close>

fun calculateDirectorySize :: "fsnode list \<Rightarrow> nat" where
  "calculateDirectorySize [] = 0"
| "calculateDirectorySize (File n s # es) =
     (if prefix ''.'' n then calculateDirectorySize es else s + calculateDirectorySize es)"
| "calculateDirectorySize (Dir n t sub # es) = calculateDirectorySize es"

definition existsIn :: "fsnode list \<Rightarrow> string \<Rightarrow> bool" where
  "existsIn es n = (n \<in> set (map node_name es))"

text \<open>
  \<open>scanDirectory\<close>. The first argument reads and parses the manifest at a path;
  \<open>None\<close> is a read or parse that throws, which skips the directory. A directory with
  a manifest is never descended into; one without is scanned in turn. Packages are
  pushed in the order the entries are visited.
\<close>

fun scanDirectory :: "(string \<Rightarrow> package_json option) \<Rightarrow> string \<Rightarrow> fsnode list \<Rightarrow> package list"
  and scanEntry :: "(string \<Rightarrow> package_json option) \<Rightarrow> string \<Rightarrow> fsnode \<Rightarrow> package list" where
  "scanDirectory rd dir [] = []"
| "scanDirectory rd dir (e # es) = scanEntry rd dir e @ scanDirectory rd dir es"
| "scanEntry rd dir (File n s) = []"
| "scanEntry rd dir (Dir n mtime sub) =
     (let fullPath = path_join dir n; packageJsonPath = path_join fullPath ''package.json'' in
      if existsIn sub ''package.json'' then
        (case rd packageJsonPath of
           None \<Rightarrow> []
         | Some packageJson \<Rightarrow>
             (case pj_scripts packageJson of
                None \<Rightarrow> []
              | Some sc \<Rightarrow>
                  if lint sc then
                    [\<lparr>name = pj_name packageJson, path = fullPath, lastModified = mtime,
                      hasTypescript = existsIn sub ''tsconfig.json'',
                      hasTests = (test sc \<or> test_unit sc),
                      isPrivate = pj_private packageJson,
                      sizeBytes = calculateDirectorySize sub\<rparr>]
                  else []))
      else scanDirectory rd fullPath sub)"

text \<open>
  The file system as discovery sees it: the entries of the packages directory (\<open>None\<close>
  when it does not exist) and the manifest reader.
\<close>

record filesystem =
  packagesDir :: "fsnode list option"
  readPackageJson :: "string \<Rightarrow> package_json option"

text \<open>Paths are written relative to the root directory.\<close>

definition PACKAGES_DIR :: string where
  "PACKAGES_DIR = ''packages''"

definition CACHE_TTL :: int where
  "CACHE_TTL = 3600000"

text \<open>
  \<open>getLintablePackages\<close> at clock value \<open>now\<close>. A cache file younger than an hour
  whose content parses is returned as it is and nothing is written. Otherwise the tree is
  scanned and the result written to the cache file, stamped with the time of the call.
\<close>

definition freshScan :: "filesystem \<Rightarrow> package list" where
  "freshScan fs =
     (case packagesDir fs of
        None \<Rightarrow> []
      | Some es \<Rightarrow> scanDirectory (readPackageJson fs) PACKAGES_DIR es)"

definition scanAndCache :: "filesystem \<Rightarrow> nat \<Rightarrow> store \<Rightarrow> package list \<times> store" where
  "scanAndCache fs now st =
     (let packages = freshScan fs
      in (packages, st\<lparr>cacheFile := Some (now, CachedPackages packages)\<rparr>))"

definition getLintablePackages :: "filesystem \<Rightarrow> nat \<Rightarrow> store \<Rightarrow> package list \<times> store" where
  "getLintablePackages fs now st =
     (case cacheFile st of
        None \<Rightarrow> scanAndCache fs now st
      | Some (mtime, content) \<Rightarrow>
          (let cacheAge = int now - int mtime in
           if cacheAge < CACHE_TTL then
             (case content of
                CachedPackages ps \<Rightarrow> (ps, st)
              | CorruptCache \<Rightarrow> scanAndCache fs now st)
           else scanAndCache fs now st))"

section \<open>Categorisation\<close>

text \<open>An exception of the script's own code; the only one that arises is a \<open>TypeError\<close>.\<close>

datatype js_error = TypeError

datatype tier = Heavy | Medium | Light

definition sizeWeight :: "package \<Rightarrow> nat" where
  "sizeWeight pkg = (if sizeBytes pkg > 1000000 then 2 else if sizeBytes pkg > 500000 then 1 else 0)"

definition complexityWeight :: "package \<Rightarrow> nat" where
  "complexityWeight pkg = (if hasTypescript pkg then 1 else 0) + (if hasTests pkg then 1 else 0)"

text \<open>
  The name weight. The first thing evaluated is \<open>name.includes('nodes-base')\<close>, which
  throws a \<open>TypeError\<close> when the name is \<open>undefined\<close>.
\<close>

fun nameWeight :: "string option \<Rightarrow> js_error + nat" where
  "nameWeight None = Inl TypeError"
| "nameWeight (Some n) =
     Inr (if str_includes n ''nodes-base'' \<or> n = ''n8n'' \<or> str_includes n ''editor-ui'' then 2
          else if str_includes n ''core'' \<or> str_includes n ''cli''
             \<or> str_includes n ''design-system'' then 1
          else 0)"

definition totalWeight :: "package \<Rightarrow> js_error + nat" where
  "totalWeight pkg =
     (case nameWeight (name pkg) of
        Inl e \<Rightarrow> Inl e
      | Inr w \<Rightarrow> Inr (sizeWeight pkg + complexityWeight pkg + w))"

text \<open>
  \<open>packages.sort((a, b) => b.size - a.size)\<close>: a stable sort, larger sizes first.
\<close>

definition sortedPackages :: "package list \<Rightarrow> package list" where
  "sortedPackages packages = sort_key (\<lambda>p. - int (sizeBytes p)) packages"

record tiers =
  heavy :: "package list"
  medium :: "package list"
  light :: "package list"

text \<open>
  The loop of \<open>categorizePackages\<close>: each package is pushed on one of three lists. Nothing
  in the function catches the exception of the name weight.
\<close>

fun categorizeLoop :: "tiers \<Rightarrow> package list \<Rightarrow> js_error + tiers" where
  "categorizeLoop t [] = Inr t"
| "categorizeLoop t (pkg # rest) =
     (case totalWeight pkg of
        Inl e \<Rightarrow> Inl e
      | Inr w \<Rightarrow>
          if w \<ge> 4 then categorizeLoop (t\<lparr>heavy := heavy t @ [pkg]\<rparr>) rest
          else if w \<ge> 2 then categorizeLoop (t\<lparr>medium := medium t @ [pkg]\<rparr>) rest
          else categorizeLoop (t\<lparr>light := light t @ [pkg]\<rparr>) rest)"

definition categorizePackages :: "package list \<Rightarrow> js_error + tiers" where
  "categorizePackages packages =
     categorizeLoop \<lparr>heavy = [], medium = [], light = []\<rparr> (sortedPackages packages)"

text \<open>
  The tier the specification gives to a weight: heavy from 4 on, medium from 2 up to but
  not including 4, light below 2; and the tier of a package that has a weight.
\<close>

definition tier_of_weight :: "nat \<Rightarrow> tier" where
  "tier_of_weight w =
     (if w \<ge> 4 then Heavy else if 2 \<le> w \<and> w < 4 then Medium else Light)"

definition tierOf :: "package \<Rightarrow> tier option" where
  "tierOf pkg = (case totalWeight pkg of Inl e \<Rightarrow> None | Inr w \<Rightarrow> Some (tier_of_weight w))"

definition tier_list :: "tiers \<Rightarrow> tier \<Rightarrow> package list" where
  "tier_list t k = (case k of Heavy \<Rightarrow> heavy t | Medium \<Rightarrow> medium t | Light \<Rightarrow> light t)"

section \<open>Parsing the tool output\<close>

text \<open>The loop of \<open>parseESLintOutput\<close> over the lines, with its two counters.\<close>

fun countLines :: "nat \<times> nat \<Rightarrow> string list \<Rightarrow> nat \<times> nat" where
  "countLines (e, w) [] = (e, w)"
| "countLines (e, w) (line # rest) =
     countLines ((if str_includes line ''error'' then e + 1 else e),
                 (if str_includes line ''warning'' then w + 1 else w)) rest"

definition parseESLintOutput :: "string \<Rightarrow> nat \<times> nat" where
  "parseESLintOutput output = countLines (0, 0) (split_lines output)"

section \<open>The metrics tracker\<close>

definition loadPreviousScore :: "store \<Rightarrow> jsnum" where
  "loadPreviousScore st =
     (case reportFile st of
        None \<Rightarrow> Fin 0
      | Some CorruptReport \<Rightarrow> Fin 0
      | Some (Report r) \<Rightarrow> or_zero (json_number (qualityScore r)))"

text \<open>The constructor, at clock value \<open>now\<close>.\<close>

definition newQualityMetrics :: "nat \<Rightarrow> store \<Rightarrow> quality_metrics" where
  "newQualityMetrics now st =
     \<lparr>timestamp = now, totalPackages = 0, lintedPackages = 0, totalErrors = 0,
      totalWarnings = 0, packageResults = Map.empty,
      perf = \<lparr>startTime = now, endTime = None, durationMs = None\<rparr>,
      qualityScore = Fin 0, previousScore = loadPreviousScore st\<rparr>"

text \<open>
  \<open>addPackageResult\<close> assigns the property of \<open>packageResults\<close> that the name
  denotes, so a later result under the same name replaces the earlier one, while the
  counters add up every result. (The special treatment JavaScript gives to the property
  name \<open>__proto__\<close> is not modelled.)
\<close>

definition addPackageResult :: "quality_metrics \<Rightarrow> string \<Rightarrow> package_result \<Rightarrow> quality_metrics" where
  "addPackageResult m packageName result =
     m\<lparr>packageResults := (packageResults m)(packageName \<mapsto> result),
       totalErrors := totalErrors m + errors result,
       totalWarnings := totalWarnings m + warnings result,
       lintedPackages := lintedPackages m + 1\<rparr>"

text \<open>
  \<open>calculateQualityScore\<close>, in two steps: the value of the constant \<open>score\<close>, and
  \<open>Math.round(score * 100) / 100\<close>. Each of the five arithmetic operations rounds to a
  double.
\<close>

definition clampedScore :: "nat \<Rightarrow> nat \<Rightarrow> jsnum" where
  "clampedScore totalIssues maxIssues =
     Math_max (Fin 0) (Math_min (Fin 100)
       (js_sub (Fin 100) (js_mul (js_div (js_nat totalIssues) (js_nat maxIssues)) (Fin 100))))"

definition roundedScore :: "jsnum \<Rightarrow> jsnum" where
  "roundedScore score = js_div (Math_round (js_mul score (Fin 100))) (Fin 100)"

definition calculateQualityScore :: "quality_metrics \<Rightarrow> quality_metrics" where
  "calculateQualityScore m =
     (let totalIssues = totalErrors m + totalWarnings m;
          maxIssues = lintedPackages m * 10;
          score = clampedScore totalIssues maxIssues
      in m\<lparr>qualityScore := roundedScore score\<rparr>)"

text \<open>\<open>finalize\<close> at clock value \<open>now\<close>: the score is computed and the report file overwritten.\<close>

definition finalize :: "nat \<Rightarrow> quality_metrics \<Rightarrow> store \<Rightarrow> quality_metrics \<times> store" where
  "finalize now m st =
     (let m1 = m\<lparr>perf := (perf m)\<lparr>endTime := Some now,
                                     durationMs := Some (int now - int (startTime (perf m)))\<rparr>\<rparr>;
          m2 = calculateQualityScore m1
      in (m2, st\<lparr>reportFile := Some (Report m2)\<rparr>))"

section \<open>Running the linter\<close>

text \<open>
  A call of an external tool either returns (its output, with exit status zero) or
  throws, on a non-zero exit or a timeout, with the message of the exception.
\<close>

datatype 'a outcome = Returns 'a | Throws string

text \<open>
  The two command lines \<open>runQualityLint\<close> builds: one package filter with the two
  minute timeout, or the filters of a batch with a concurrency and the five minute
  timeout. A filter is identified with the package path it is made from.
\<close>

datatype command = LintOne string | LintBatch nat "string list"

text \<open>
  The environment of one run: the outcome of each command, the clock at construction and
  at \<open>finalize\<close>, and for a heavy package the time its invocation took. Console output
  is not modelled.
\<close>

record lint_env =
  execSync :: "command \<Rightarrow> string outcome"
  startedAt :: nat
  finishedAt :: nat
  elapsed :: "package \<Rightarrow> int"

definition heavyResult :: "lint_env \<Rightarrow> package \<Rightarrow> package_result" where
  "heavyResult env pkg =
     (case execSync env (LintOne (path pkg)) of
        Returns output \<Rightarrow>
          (case parseESLintOutput output of
             (e, w) \<Rightarrow> \<lparr>errors = e, warnings = w, duration = Some (elapsed env pkg),
                         status = Success\<rparr>)
      | Throws msg \<Rightarrow>
          \<lparr>errors = 1, warnings = 0, duration = Some (elapsed env pkg), status = Failed\<rparr>)"

text \<open>
  The property name a package's result is stored under: its name, \<open>undefined\<close> being
  converted to the string of that spelling.
\<close>

definition packageKey :: "package \<Rightarrow> string" where
  "packageKey pkg = (case name pkg of Some n \<Rightarrow> n | None \<Rightarrow> ''undefined'')"

fun lintHeavy :: "lint_env \<Rightarrow> quality_metrics \<Rightarrow> package list \<Rightarrow> quality_metrics" where
  "lintHeavy env m [] = m"
| "lintHeavy env m (pkg # rest) =
     lintHeavy env (addPackageResult m (packageKey pkg) (heavyResult env pkg)) rest"

text \<open>\<open>forEach\<close> over a batch, recording the same result for every member.\<close>

fun recordEach :: "package_result \<Rightarrow> quality_metrics \<Rightarrow> package list \<Rightarrow> quality_metrics" where
  "recordEach res m [] = m"
| "recordEach res m (pkg # rest) = recordEach res (addPackageResult m (packageKey pkg) res) rest"

text \<open>\<open>Math.round(total / n)\<close>, the division being the one of doubles.\<close>

definition roundedAverage :: "nat \<Rightarrow> nat \<Rightarrow> nat" where
  "roundedAverage issues n = to_count (Math_round (js_div (js_nat issues) (js_nat n)))"

definition avgPerPackage :: "nat \<times> nat \<Rightarrow> nat \<Rightarrow> package_result" where
  "avgPerPackage batchResult n =
     \<lparr>errors = roundedAverage (fst batchResult) n,
      warnings = roundedAverage (snd batchResult) n,
      duration = None, status = Success\<rparr>"

definition failedBatchResult :: package_result where
  "failedBatchResult = \<lparr>errors = 1, warnings = 0, duration = None, status = Failed\<rparr>"

text \<open>
  A medium or light batch with its concurrency; an empty tier runs nothing. The
  \<open>try\<close> records the rounded average for every member, the \<open>catch\<close> a failure for
  every member.
\<close>

definition lintBatch :: "lint_env \<Rightarrow> nat \<Rightarrow> quality_metrics \<Rightarrow> package list \<Rightarrow> quality_metrics" where
  "lintBatch env concurrency m batch =
     (if length batch > 0 then
        (case execSync env (LintBatch concurrency (map path batch)) of
           Returns output \<Rightarrow>
             recordEach (avgPerPackage (parseESLintOutput output) (length batch)) m batch
         | Throws msg \<Rightarrow> recordEach failedBatchResult m batch)
      else m)"

text \<open>Whether a call threw, and the result a batch records for each of its members.\<close>

fun throws :: "'a outcome \<Rightarrow> bool" where
  "throws (Throws msg) = True"
| "throws (Returns x) = False"

definition batchResult :: "lint_env \<Rightarrow> nat \<Rightarrow> package list \<Rightarrow> package_result" where
  "batchResult env concurrency batch =
     (case execSync env (LintBatch concurrency (map path batch)) of
        Returns output \<Rightarrow> avgPerPackage (parseESLintOutput output) (length batch)
      | Throws msg \<Rightarrow> failedBatchResult)"

text \<open>
  \<open>runQualityLint\<close>: the early return on an empty package list, then the
  categorisation, the heavy loop, the medium batch and the light batch, then
  \<open>finalize\<close>. The call of \<open>categorizePackages\<close> stands before the \<open>try\<close>, so its
  exception leaves the function and no report is written. Every \<open>execSync\<close> has its
  own \<open>try\<close>, so with the report written successfully nothing reaches the outer
  \<open>catch\<close>, which would call \<open>finalize\<close> as well; it is left out. The \<open>mode\<close>
  argument is only printed.
\<close>

definition runQualityLint ::
  "lint_env \<Rightarrow> store \<Rightarrow> package list \<Rightarrow> js_error + (quality_metrics \<times> store)" where
  "runQualityLint env st packages =
     (let metrics = (newQualityMetrics (startedAt env) st)\<lparr>totalPackages := length packages\<rparr> in
      if length packages = 0 then Inr (finalize (finishedAt env) metrics st)
      else
        (case categorizePackages packages of
           Inl e \<Rightarrow> Inl e
         | Inr t \<Rightarrow>
             (let m1 = lintHeavy env metrics (heavy t);
                  m2 = lintBatch env 4 m1 (medium t);
                  m3 = lintBatch env 8 m2 (light t)
              in Inr (finalize (finishedAt env) m3 st))))"

text \<open>
  \<open>main\<close>: discovery at clock value \<open>now\<close>, the run, and the exit code, 1 when the
  score is below 70. An exception of the run rejects the promise of \<open>main\<close>, whose
  handler exits with code 1; there is no report then, and the report file is as it was.
\<close>

definition main ::
  "filesystem \<Rightarrow> nat \<Rightarrow> lint_env \<Rightarrow> store \<Rightarrow> (quality_metrics option \<times> nat) \<times> store" where
  "main fs now env st =
     (case getLintablePackages fs now st of
        (allPackages, st1) \<Rightarrow>
          (case runQualityLint env st1 allPackages of
             Inl e \<Rightarrow> ((None, 1), st1)
           | Inr (metrics, st2) \<Rightarrow>
               ((Some metrics, if js_less (qualityScore metrics) (Fin 70) then 1 else 0), st2)))"

text \<open>
  Notions the properties of a run are stated with: whether a call returned, the report
  and the store of a run that returned, the order in which the packages of the three
  tiers are processed, that a package is the last one processed under its name, and
  the result recorded for a package of each tier.
\<close>

definition returned :: "js_error + 'a \<Rightarrow> bool" where
  "returned x = (case x of Inl e \<Rightarrow> False | Inr y \<Rightarrow> True)"

abbreviation report_of :: "js_error + (quality_metrics \<times> store) \<Rightarrow> quality_metrics" where
  "report_of x \<equiv> fst (projr x)"

abbreviation store_of :: "js_error + (quality_metrics \<times> store) \<Rightarrow> store" where
  "store_of x \<equiv> snd (projr x)"

definition processingOrder :: "tiers \<Rightarrow> package list" where
  "processingOrder t = heavy t @ medium t @ light t"

definition lastNamed :: "tiers \<Rightarrow> package \<Rightarrow> bool" where
  "lastNamed t pkg =
     (find (\<lambda>q. packageKey q = packageKey pkg) (rev (processingOrder t)) = Some pkg)"

definition recordedResult :: "lint_env \<Rightarrow> tiers \<Rightarrow> package \<Rightarrow> package_result" where
  "recordedResult env t pkg =
     (if pkg \<in> set (heavy t) then heavyResult env pkg
      else if pkg \<in> set (medium t) then batchResult env 4 (medium t)
      else batchResult env 8 (light t))"

section \<open>The quality gate\<close>

text \<open>
  A check and the results object of class \<open>QualityGate\<close>. The members \<open>name\<close>,
  \<open>passed\<close> and \<open>score\<close> of a check are \<open>check_name\<close>, \<open>check_passed\<close> and
  \<open>check_score\<close> here; the score of a check is a JSON number or \<open>null\<close>, as the
  report member it is copied from.
\<close>

record gate_check =
  check_name :: string
  check_passed :: bool
  message :: string
  check_score :: "rat option"

record gate_results =
  passed :: bool
  checks :: "gate_check list"
  score :: jsnum
  recommendations :: "string list"

definition minQualityScore :: rat where "minQualityScore = 80"
definition maxErrors :: rat where "maxErrors = 0"
definition maxWarnings :: rat where "maxWarnings = 10"

text \<open>
  The parsed report the gate reads: each member is a JSON number or \<open>null\<close> (\<open>None\<close>).
  In a comparison \<open>null\<close> counts as 0; in a template it prints as \<open>null\<close>.
\<close>

record lint_report =
  report_qualityScore :: "rat option"
  report_errors :: "rat option"
  report_warnings :: "rat option"

fun to_number :: "rat option \<Rightarrow> jsnum" where
  "to_number None = Fin 0"
| "to_number (Some a) = Fin a"

fun render :: "(jsnum \<Rightarrow> string) \<Rightarrow> rat option \<Rightarrow> string" where
  "render f None = ''null''"
| "render f (Some a) = f (Fin a)"

text \<open>
  The environment of a gate run: the command line, whether the report file exists, the
  outcome of each external command, what reading and parsing the report gives, the
  output of the two \<open>find\<close> pipelines (the second already through \<open>parseInt\<close>), the
  content of each source file (\<open>None\<close> when it cannot be read), the five security
  patterns as tests on a content, and the printing of a number in a template.
\<close>

record gate_env =
  argv :: "string list"
  reportExists :: bool
  runLintQuality :: "unit outcome"
  readReport :: "lint_report outcome"
  typecheck :: "unit outcome"
  findSources :: "string outcome"
  readSource :: "string \<Rightarrow> string option"
  securityPatterns :: "(string \<Rightarrow> bool) list"
  formatCheck :: "unit outcome"
  countTodos :: "jsnum outcome"
  audit :: "unit outcome"
  build :: "unit outcome"
  numToString :: "jsnum \<Rightarrow> string"

definition newQualityGate :: gate_results where
  "newQualityGate = \<lparr>passed = False, checks = [], score = Fin 0, recommendations = []\<rparr>"

definition addCheck :: "gate_results \<Rightarrow> string \<Rightarrow> bool \<Rightarrow> string \<Rightarrow> rat option \<Rightarrow> gate_results" where
  "addCheck r n p msg sc =
     (let r1 = r\<lparr>checks := checks r @
                  [\<lparr>check_name = n, check_passed = p, message = msg, check_score = sc\<rparr>]\<rparr>
      in if \<not> p then r1\<lparr>recommendations := recommendations r1 @ [''Fix: '' @ n @ '' - '' @ msg]\<rparr>
         else r1)"

text \<open>
  The checkers. Each is the body of its \<open>try\<close> with the \<open>catch\<close> as the \<open>Throws\<close>
  branch. The boolean or score a checker returns is not used by \<open>runAllChecks\<close> and is
  left out.
\<close>

definition lintQualityFailed :: "gate_results \<Rightarrow> string \<Rightarrow> gate_results" where
  "lintQualityFailed r msg =
     addCheck r ''Lint Quality'' False (''Failed to check lint quality: '' @ msg) (Some 0)"

definition checkLintQuality :: "gate_env \<Rightarrow> gate_results \<Rightarrow> gate_results" where
  "checkLintQuality env r =
     (case (if \<not> reportExists env then runLintQuality env else Returns ()) of
        Throws msg \<Rightarrow> lintQualityFailed r msg
      | Returns u \<Rightarrow>
          (case readReport env of
             Throws msg \<Rightarrow> lintQualityFailed r msg
           | Returns report \<Rightarrow>
               (let r1 = addCheck r ''Lint Quality Score''
                           (js_ge (to_number (report_qualityScore report)) (Fin minQualityScore))
                           (render (numToString env) (report_qualityScore report) @ ''% (min: ''
                              @ numToString env (Fin minQualityScore) @ ''%)'')
                           (report_qualityScore report);
                    r2 = addCheck r1 ''Error Count''
                           (js_le (to_number (report_errors report)) (Fin maxErrors))
                           (render (numToString env) (report_errors report) @ '' errors (max: ''
                              @ numToString env (Fin maxErrors) @ '')'')
                           (Some 0)
                in addCheck r2 ''Warning Count''
                     (js_le (to_number (report_warnings report)) (Fin maxWarnings))
                     (render (numToString env) (report_warnings report) @ '' warnings (max: ''
                        @ numToString env (Fin maxWarnings) @ '')'')
                     (Some 0))))"

definition checkTypeScript :: "gate_env \<Rightarrow> gate_results \<Rightarrow> gate_results" where
  "checkTypeScript env r =
     (case typecheck env of
        Returns u \<Rightarrow> addCheck r ''TypeScript'' True ''All TypeScript files compile successfully'' (Some 0)
      | Throws msg \<Rightarrow> addCheck r ''TypeScript'' False ''TypeScript compilation errors detected'' (Some 0))"

definition checkBuild :: "gate_env \<Rightarrow> gate_results \<Rightarrow> gate_results" where
  "checkBuild env r =
     (case build env of
        Returns u \<Rightarrow> addCheck r ''Build'' True ''Build process completes successfully'' (Some 0)
      | Throws msg \<Rightarrow> addCheck r ''Build'' False ''Build process failed or timed out'' (Some 0))"

text \<open>The two loops of the security scan: over the files, and over the patterns.\<close>

fun countSecurityIssues :: "gate_env \<Rightarrow> nat \<Rightarrow> string list \<Rightarrow> nat" where
  "countSecurityIssues env n [] = n"
| "countSecurityIssues env n (file # rest) =
     (case readSource env file of
        None \<Rightarrow> countSecurityIssues env n rest
      | Some content \<Rightarrow>
          countSecurityIssues env (n + length (filter (\<lambda>pattern. pattern content) (securityPatterns env))) rest)"

definition checkSecurity :: "gate_env \<Rightarrow> gate_results \<Rightarrow> gate_results" where
  "checkSecurity env r =
     (case findSources env of
        Throws msg \<Rightarrow> addCheck r ''Security Scan'' False (''Security check failed: '' @ msg) (Some 0)
      | Returns out \<Rightarrow>
          (let files = filter (\<lambda>f. f \<noteq> []) (split_lines out);
               securityIssues = countSecurityIssues env 0 files
           in addCheck r ''Security Scan'' (securityIssues = 0)
                (if securityIssues = 0 then ''No security issues detected''
                 else numToString env (js_nat securityIssues) @ '' potential security issues found'')
                (Some 0)))"

definition checkFormatting :: "gate_env \<Rightarrow> gate_results \<Rightarrow> gate_results" where
  "checkFormatting env r =
     (case formatCheck env of
        Returns u \<Rightarrow> addCheck r ''Formatting'' True ''Code formatting is consistent'' (Some 0)
      | Throws msg \<Rightarrow> addCheck r ''Formatting'' False ''Code formatting issues detected'' (Some 0))"

definition checkTodoComments :: "gate_env \<Rightarrow> gate_results \<Rightarrow> gate_results" where
  "checkTodoComments env r =
     (case countTodos env of
        Returns todoCount \<Rightarrow>
          addCheck r ''TODO Comments'' (js_less todoCount (Fin 50))
            (numToString env todoCount @ '' TODO/FIXME comments found'') (Some 0)
      | Throws msg \<Rightarrow> addCheck r ''TODO Comments'' True ''Unable to check TODO comments'' (Some 0))"

definition checkDependencies :: "gate_env \<Rightarrow> gate_results \<Rightarrow> gate_results" where
  "checkDependencies env r =
     (case audit env of
        Returns u \<Rightarrow> addCheck r ''Dependencies'' True ''No critical dependency vulnerabilities'' (Some 0)
      | Throws msg \<Rightarrow>
          (let isVulnerabilityIssue = str_includes msg ''audit''
           in addCheck r ''Dependencies'' False
                (if isVulnerabilityIssue then ''Dependency vulnerabilities detected''
                 else ''Dependency check failed'') (Some 0)))"

text \<open>
  \<open>calculateScore\<close>; the expression \<open>Math.round((passedChecks / totalChecks) * 100)\<close>
  first, a division and a multiplication of doubles.
\<close>

definition roundedPercentage :: "nat \<Rightarrow> nat \<Rightarrow> jsnum" where
  "roundedPercentage passedChecks totalChecks =
     Math_round (js_mul (js_div (js_nat passedChecks) (js_nat totalChecks)) (Fin 100))"

definition calculateScore :: "gate_results \<Rightarrow> gate_results" where
  "calculateScore r =
     (let passedChecks = length (filter check_passed (checks r));
          totalChecks = length (checks r);
          sc = roundedPercentage passedChecks totalChecks
      in r\<lparr>score := sc, passed := js_ge sc (Fin 85)\<rparr>)"

definition includeBuild :: "gate_env \<Rightarrow> bool" where
  "includeBuild env = (''--include-build'' \<in> set (argv env))"

definition runChecks :: "gate_env \<Rightarrow> gate_results" where
  "runChecks env =
     (let r1 = checkLintQuality env newQualityGate;
          r2 = checkTypeScript env r1;
          r3 = checkSecurity env r2;
          r4 = checkFormatting env r3;
          r5 = checkTodoComments env r4;
          r6 = checkDependencies env r5
      in if includeBuild env then checkBuild env r6 else r6)"

definition runAllChecks :: "gate_env \<Rightarrow> gate_results" where
  "runAllChecks env = calculateScore (runChecks env)"

definition gate_exit_code :: "gate_env \<Rightarrow> nat" where
  "gate_exit_code env = (if passed (runAllChecks env) then 0 else 1)"

text \<open>
  Notions the properties of the gate are stated with: a check with the default score,
  the numbers of passed and of all checks of a result, and the names of the checks the
  lint checker records.
\<close>

definition gate_check_of :: "string \<Rightarrow> bool \<Rightarrow> string \<Rightarrow> gate_check" where
  "gate_check_of n p msg = \<lparr>check_name = n, check_passed = p, message = msg, check_score = Some 0\<rparr>"

definition passedCount :: "gate_results \<Rightarrow> nat" where
  "passedCount r = length (filter check_passed (checks r))"

definition totalCount :: "gate_results \<Rightarrow> nat" where
  "totalCount r = length (checks r)"

text \<open>
  What the \<open>try\<close> block of \<open>checkLintQuality\<close> gets hold of: the parsed report, or the
  exception of the lint run or of reading the report.
\<close>

definition lintOutcome :: "gate_env \<Rightarrow> lint_report outcome" where
  "lintOutcome env =
     (case (if \<not> reportExists env then runLintQuality env else Returns ()) of
        Throws msg \<Rightarrow> Throws msg
      | Returns u \<Rightarrow> readReport env)"

definition lintNames :: "gate_env \<Rightarrow> string list" where
  "lintNames env =
     (case lintOutcome env of
        Throws msg \<Rightarrow> [''Lint Quality'']
      | Returns report \<Rightarrow> [''Lint Quality Score'', ''Error Count'', ''Warning Count''])"

section \<open>The scores as the specification words them\<close>

text \<open>
  \<open>clamp(x, lo, hi)\<close>, rounding to two decimal places, and the formula of the
  specification for the quality score; a score that is a number between 0 and 100.
\<close>

definition clamp :: "rat \<Rightarrow> rat \<Rightarrow> rat \<Rightarrow> rat" where
  "clamp x lo hi = (if x < lo then lo else if hi < x then hi else x)"



fun score_in_range :: "jsnum \<Rightarrow> bool" where
  "score_in_range (Fin q) = (0 \<le> q \<and> q \<le> 100)"
| "score_in_range x = False"

text \<open>The gate score: \<open>round(100 * passedChecks / totalChecks)\<close>.\<close>

definition spec_gateScore :: "nat \<Rightarrow> nat \<Rightarrow> int" where
  "spec_gateScore passedChecks totalChecks =
     round_half_up (100 * of_nat passedChecks / of_nat totalChecks)"

text \<open>
  The value a score is rounded from, in hundredths: the clamped rating times 100; and
  whether a rational lies half way between two integers.
\<close>

definition spec_hundredths :: "nat \<Rightarrow> nat \<Rightarrow> nat \<Rightarrow> rat" where
  "spec_hundredths e w n = clamp (100 - of_nat (e + w) / (10 * of_nat n) * 100) 0 100 * 100"


section \<open>Example data\<close>


definition empty_store :: store where
  "empty_store = \<lparr>reportFile = None, cacheFile = None\<rparr>"

definition pkg :: "string \<Rightarrow> nat \<Rightarrow> bool \<Rightarrow> bool \<Rightarrow> package" where
  "pkg n s ts t =
     \<lparr>name = Some n, path = ''packages/'' @ n, lastModified = 0, hasTypescript = ts,
      hasTests = t, isPrivate = False, sizeBytes = s\<rparr>"

definition example_packages :: "package list" where
  "example_packages =
     [pkg ''utils'' 400000 True False, pkg ''n8n'' 2000000 False False,
      pkg ''@n8n/core'' 600000 True False, pkg ''workflow'' 1000001 True True]"

definition failing_env :: lint_env where
  "failing_env = \<lparr>execSync = (\<lambda>c. Throws ''timeout''), startedAt = 0, finishedAt = 10,
     elapsed = (\<lambda>p. 7)\<rparr>"

definition six_errors :: string where
  "six_errors = ''a error'' @ [CHR 0x0A] @ ''b error'' @ [CHR 0x0A] @ ''c error'' @ [CHR 0x0A]
     @ ''d error'' @ [CHR 0x0A] @ ''e error'' @ [CHR 0x0A] @ ''f error''"

definition six_errors_env :: lint_env where
  "six_errors_env = \<lparr>execSync = (\<lambda>c. Returns six_errors), startedAt = 0, finishedAt = 10,
     elapsed = (\<lambda>p. 7)\<rparr>"

definition medium_trio :: "package list" where
  "medium_trio = [pkg ''a-core'' 0 True False, pkg ''b-core'' 0 True False,
     pkg ''c-core'' 0 True False]"

definition empty_fs :: filesystem where
  "empty_fs = \<lparr>packagesDir = None, readPackageJson = (\<lambda>p. None)\<rparr>"

definition example_tree :: "fsnode list" where
  "example_tree =
     [File ''README.md'' 100,
      Dir ''cli'' 11 [File ''package.json'' 300, File ''tsconfig.json'' 50, File ''.env'' 9,
                      Dir ''src'' 1 [File ''index.ts'' 1000]],
      Dir ''@n8n'' 12 [Dir ''utils'' 13 [File ''package.json'' 200, File ''index.js'' 700],
                       Dir ''broken'' 14 [File ''package.json'' 1]],
      Dir ''docs'' 15 [File ''package.json'' 20]]"

definition example_manifests :: "string \<Rightarrow> package_json option" where
  "example_manifests p =
     (if p = ''packages/cli/package.json'' then
        Some \<lparr>pj_name = Some ''n8n'', pj_scripts = Some \<lparr>lint = True, test = True, test_unit = False\<rparr>,
              pj_private = False\<rparr>
      else if p = ''packages/@n8n/utils/package.json'' then
        Some \<lparr>pj_name = Some ''@n8n/utils'', pj_scripts = Some \<lparr>lint = True, test = False, test_unit = False\<rparr>,
              pj_private = True\<rparr>
      else if p = ''packages/docs/package.json'' then
        Some \<lparr>pj_name = Some ''docs'', pj_scripts = None, pj_private = False\<rparr>
      else None)"

definition example_fs :: filesystem where
  "example_fs = \<lparr>packagesDir = Some example_tree, readPackageJson = example_manifests\<rparr>"

definition example_scan :: "package list" where
  "example_scan =
     [\<lparr>name = Some ''n8n'', path = ''packages/cli'', lastModified = 11, hasTypescript = True,
       hasTests = True, isPrivate = False, sizeBytes = 350\<rparr>,
      \<lparr>name = Some ''@n8n/utils'', path = ''packages/@n8n/utils'', lastModified = 13,
       hasTypescript = False, hasTests = False, isPrivate = True, sizeBytes = 900\<rparr>]"

definition cached_store :: "nat \<Rightarrow> cache_content \<Rightarrow> store" where
  "cached_store mtime content = \<lparr>reportFile = None, cacheFile = Some (mtime, content)\<rparr>"

definition passing_check :: gate_check where
  "passing_check = \<lparr>check_name = ''ok'', check_passed = True, message = ''fine'', check_score = Some 0\<rparr>"

definition failing_check :: gate_check where
  "failing_check = \<lparr>check_name = ''ko'', check_passed = False, message = ''bad'', check_score = Some 0\<rparr>"

definition results_with :: "nat \<Rightarrow> nat \<Rightarrow> gate_results" where
  "results_with p f =
     newQualityGate\<lparr>checks := replicate p passing_check @ replicate f failing_check\<rparr>"

definition clean_gate_env :: gate_env where
  "clean_gate_env =
     \<lparr>argv = [''node'', ''scripts/quality-gate.mjs''], reportExists = True,
      runLintQuality = Returns (),
      readReport = Returns \<lparr>report_qualityScore = Some 95, report_errors = Some 0,
                            report_warnings = Some 3\<rparr>,
      typecheck = Returns (), findSources = Returns ''packages/a.ts'',
      readSource = (\<lambda>f. Some ''const x = 1''),
      securityPatterns = [\<lambda>c. str_includes c ''eval('', \<lambda>c. str_includes c ''innerHTML ='',
                          \<lambda>c. str_includes c ''document.write'', \<lambda>c. str_includes c ''password='',
                          \<lambda>c. str_includes c ''api_key=''],
      formatCheck = Returns (), countTodos = Returns (Fin 12), audit = Returns (),
      build = Returns (), numToString = (\<lambda>n. ''N'')\<rparr>"

definition throwing_gate_env :: "string \<Rightarrow> gate_env" where
  "throwing_gate_env msg =
     clean_gate_env\<lparr>reportExists := False, runLintQuality := Throws msg, typecheck := Throws msg,
       findSources := Throws msg, formatCheck := Throws msg, countTodos := Throws msg,
       audit := Throws msg\<rparr>"

definition todo_throwing_env :: gate_env where
  "todo_throwing_env = clean_gate_env\<lparr>countTodos := Throws ''spawnSync /bin/sh ENOENT''\<rparr>"

text \<open>
  A workspace whose only package has a lint script and a manifest without a name, and
  the package the scanner builds from it.
\<close>

definition nameless_tree :: "fsnode list" where
  "nameless_tree = [Dir ''tools'' 21 [File ''package.json'' 80, File ''run.js'' 400]]"

definition nameless_manifests :: "string \<Rightarrow> package_json option" where
  "nameless_manifests p =
     (if p = ''packages/tools/package.json'' then
        Some \<lparr>pj_name = None, pj_scripts = Some \<lparr>lint = True, test = False, test_unit = False\<rparr>,
              pj_private = True\<rparr>
      else None)"

definition nameless_fs :: filesystem where
  "nameless_fs = \<lparr>packagesDir = Some nameless_tree, readPackageJson = nameless_manifests\<rparr>"

definition nameless_package :: package where
  "nameless_package =
     \<lparr>name = None, path = ''packages/tools'', lastModified = 21, hasTypescript = False,
      hasTests = False, isPrivate = True, sizeBytes = 480\<rparr>"

text \<open>
  Two packages that both carry the name \<open>n8n\<close>, one heavy and one medium, with an
  environment in which the invocation of a single package times out and a batch prints
  nothing; and two packages named \<open>x-core\<close>, one medium and one light, with an
  environment in which the medium batch prints six error lines and the light batch
  nothing.
\<close>

definition cli_package :: package where
  "cli_package =
     \<lparr>name = Some ''n8n'', path = ''packages/cli'', lastModified = 0, hasTypescript = False,
      hasTests = False, isPrivate = False, sizeBytes = 2000000\<rparr>"

definition legacy_package :: package where
  "legacy_package =
     \<lparr>name = Some ''n8n'', path = ''packages/legacy'', lastModified = 0, hasTypescript = False,
      hasTests = False, isPrivate = False, sizeBytes = 1000\<rparr>"

definition heavy_failing_env :: lint_env where
  "heavy_failing_env =
     \<lparr>execSync = (\<lambda>c. case c of LintOne p \<Rightarrow> Throws ''timeout'' | LintBatch n ps \<Rightarrow> Returns ''''),
      startedAt = 0, finishedAt = 10, elapsed = (\<lambda>p. 7)\<rparr>"

definition typed_package :: package where
  "typed_package =
     \<lparr>name = Some ''x-core'', path = ''packages/x'', lastModified = 0, hasTypescript = True,
      hasTests = False, isPrivate = False, sizeBytes = 2000\<rparr>"

definition untyped_package :: package where
  "untyped_package =
     \<lparr>name = Some ''x-core'', path = ''packages/x-old'', lastModified = 0, hasTypescript = False,
      hasTests = False, isPrivate = False, sizeBytes = 1000\<rparr>"

definition medium_errors_env :: lint_env where
  "medium_errors_env =
     \<lparr>execSync = (\<lambda>c. case c of LintOne p \<Rightarrow> Returns ''''
                          | LintBatch n ps \<Rightarrow> if n = 4 then Returns six_errors else Returns ''''),
      startedAt = 0, finishedAt = 10, elapsed = (\<lambda>p. 7)\<rparr>"

text \<open>A gate environment in which no source file can be read.\<close>

definition unreadable_gate_env :: gate_env where
  "unreadable_gate_env = clean_gate_env\<lparr>readSource := (\<lambda>f. None)\<rparr>"

section \<open>Properties of the rounding to doubles\<close>

text \<open>
  The exponent brackets its argument, rounding keeps the order with respect to a double,
  a double is rounded to itself, and the rounding error is at most half the spacing.
\<close>

lemma expo_bounds:
  "0 < x \<Longrightarrow> 2 powi (expo x) \<le> x \<and> x < 2 powi (expo x + 1)"
proof (induction x rule: expo.induct)
  case (1 x)
  then show ?case by simp
next
  case (2 x)
  then show ?case by (simp add: power_int_add)
next
  case (3 x)
  then show ?case by (simp add: power_int_add power_int_diff)
next
  case (4 x)
  then show ?case by simp
qed

lemma powi2_less_imp: "(2::rat) powi a < 2 powi b \<Longrightarrow> a < b"
  by (rule ccontr) (simp add: not_less power_int_increasing leD)

lemma expo_unique:
  assumes "0 < x" "2 powi e \<le> x" "x < 2 powi (e + 1)"
  shows "expo x = e"
proof -
  have b: "2 powi (expo x) \<le> x" "x < 2 powi (expo x + 1)"
    using expo_bounds [OF assms(1)] by simp_all
  have "(2::rat) powi e < 2 powi (expo x + 1)" using assms(2) b(2) by simp
  then have "e < expo x + 1" by (rule powi2_less_imp)
  moreover have "(2::rat) powi (expo x) < 2 powi (e + 1)" using assms(3) b(1) by simp
  then have "expo x < e + 1" by (rule powi2_less_imp)
  ultimately show ?thesis by simp
qed

lemma expo_mono:
  assumes "0 < x" "x \<le> y"
  shows "expo x \<le> expo y"
proof -
  have "2 powi (expo x) \<le> x" using expo_bounds [OF assms(1)] by simp
  moreover have "y < 2 powi (expo y + 1)" using expo_bounds [of y] assms by simp
  ultimately have "(2::rat) powi (expo x) < 2 powi (expo y + 1)" using assms(2) by simp
  then have "expo x < expo y + 1" by (rule powi2_less_imp)
  then show ?thesis by simp
qed

lemma round_even_cases: "round_even y = \<lfloor>y\<rfloor> \<or> round_even y = \<lfloor>y\<rfloor> + 1"
  by (simp add: round_even_def Let_def)

lemma round_even_int: "round_even (of_int k) = k"
  by (simp add: round_even_def)

lemma round_even_ge:
  assumes "of_int j \<le> y"
  shows "j \<le> round_even y"
proof -
  have "j \<le> \<lfloor>y\<rfloor>" using assms by (simp add: le_floor_iff)
  then show ?thesis using round_even_cases [of y] by linarith
qed

lemma round_even_le:
  assumes "y \<le> of_int j"
  shows "round_even y \<le> j"
proof (cases "y = of_int j")
  case True
  then show ?thesis by (simp add: round_even_int)
next
  case False
  then have "y < of_int j" using assms by simp
  then have "\<lfloor>y\<rfloor> < j" by (simp add: floor_less_iff)
  then show ?thesis using round_even_cases [of y] by auto
qed

lemma round_even_err: "\<bar>of_int (round_even y) - y\<bar> \<le> 1 / 2"
proof -
  have "of_int \<lfloor>y\<rfloor> \<le> y" "y < of_int \<lfloor>y\<rfloor> + 1" by linarith+
  then show ?thesis
    by (auto simp: round_even_def Let_def abs_le_iff)
qed

lemma ulp_pos: "0 < ulp x"
  by (simp add: ulp_def)

lemma ulp_nonneg: "0 \<le> ulp x"
  by (simp add: ulp_def)

lemma quot_ulp_nonneg: "0 \<le> \<bar>x\<bar> / ulp x"
  by (simp add: ulp_nonneg)

lemma round_even_0: "round_even 0 = 0"
  by (simp add: round_even_def)

lemma to_double_pos:
  assumes "0 < x"
  shows "to_double x =
     (if double_limit \<le> of_int (round_even (x / ulp x)) * ulp x then PInf
      else Fin (of_int (round_even (x / ulp x)) * ulp x))"
  using assms by (simp add: to_double_def Let_def)

lemma double_limit_pos: "0 < double_limit"
  by (simp only: double_limit_def zero_less_power_int zero_less_numeral)

lemma to_double_zero: "to_double 0 = Fin 0"
  using double_limit_pos by (simp add: to_double_def Let_def round_even_0)

lemma round_even_nonneg: "0 \<le> y \<Longrightarrow> 0 \<le> round_even y"
  using round_even_ge [of 0 y] by simp

lemma to_double_nonneg:
  assumes "0 \<le> x"
  shows "to_double x = PInf \<or> (\<exists>y. to_double x = Fin y \<and> 0 \<le> y)"
proof (cases "x = 0")
  case True
  then show ?thesis by (simp add: to_double_zero)
next
  case False
  then have x: "0 < x" using assms by simp
  have "0 \<le> round_even (x / ulp x)"
    using x quot_ulp_nonneg [of x] by (intro round_even_nonneg) simp
  then have "0 \<le> of_int (round_even (x / ulp x)) * ulp x" by (simp add: ulp_nonneg)
  then show ?thesis unfolding to_double_pos [OF x] by simp
qed

lemma to_double_nonpos:
  assumes "x \<le> 0"
  shows "to_double x = NInf \<or> (\<exists>y. to_double x = Fin y \<and> y \<le> 0)"
proof -
  have "0 \<le> round_even (\<bar>x\<bar> / ulp x)"
    by (intro round_even_nonneg quot_ulp_nonneg)
  then have "0 \<le> of_int (round_even (\<bar>x\<bar> / ulp x)) * ulp x"
    by (simp add: ulp_nonneg)
  then have "sgn x * (of_int (round_even (\<bar>x\<bar> / ulp x)) * ulp x) \<le> 0"
    using assms by (simp add: mult_nonpos_nonneg sgn_if)
  then show ?thesis using assms by (simp add: to_double_def Let_def)
qed

lemma ulp_eq: "0 < x \<Longrightarrow> ulp x = 2 powi (max (expo x) (- 1022) - 52)"
  by (simp add: ulp_def)

lemma to_double_upper:
  assumes x: "0 < x" and xg: "x \<le> g" and g: "g = of_int j * ulp g" and fin: "g < double_limit"
  shows "\<exists>y. to_double x = Fin y \<and> 0 \<le> y \<and> y \<le> g"
proof -
  have g0: "0 < g" using x xg by simp
  define K where "K = round_even (x / ulp x)"
  have K0: "0 \<le> K"
    unfolding K_def using x quot_ulp_nonneg [of x] by (intro round_even_nonneg) simp
  have le: "expo x \<le> expo g" using expo_mono [OF x xg] .
  have "of_int K * ulp x \<le> g"
  proof (cases "max (expo x) (- 1022) = max (expo g) (- 1022)")
    case True
    then have u: "ulp x = ulp g" using x g0 by (simp add: ulp_eq)
    have "x / ulp x \<le> of_int j"
      using xg g unfolding u by (simp add: pos_divide_le_eq ulp_pos)
    then have "K \<le> j" unfolding K_def by (rule round_even_le)
    then have "of_int K * ulp g \<le> of_int j * ulp g"
      by (simp add: mult_right_mono ulp_nonneg)
    then show ?thesis using g u by simp
  next
    case False
    then have lt: "max (expo x) (- 1022) < expo g" and eg: "max (expo g) (- 1022) = expo g"
      using le by auto
    have "x < 2 powi (expo x + 1)" using expo_bounds [OF x] by simp
    also have "\<dots> \<le> 2 powi (max (expo x) (- 1022) + 1)"
      by (rule power_int_increasing) simp_all
    finally have xb: "x < 2 powi (max (expo x) (- 1022) + 1)" .
    have split: "(2::rat) powi (max (expo x) (- 1022) + 1) = of_int (2 ^ 53) * ulp x"
      using x by (simp add: ulp_eq power_int_diff power_int_add)
    have "x / ulp x \<le> of_int (2 ^ 53)"
      using xb unfolding split by (simp add: pos_divide_le_eq ulp_pos)
    then have "K \<le> 2 ^ 53" unfolding K_def by (rule round_even_le)
    then have "of_int K * ulp x \<le> of_int (2 ^ 53) * ulp x"
      by (intro mult_right_mono) (simp_all add: ulp_nonneg)
    also have "\<dots> = 2 powi (max (expo x) (- 1022) + 1)" using split by simp
    also have "\<dots> \<le> 2 powi (expo g)"
      using lt by (intro power_int_increasing) linarith+
    also have "\<dots> \<le> g" using expo_bounds [OF g0] by simp
    finally show ?thesis .
  qed
  moreover have "0 \<le> of_int K * ulp x" using K0 by (simp add: ulp_nonneg)
  ultimately show ?thesis
    using fin unfolding to_double_pos [OF x] K_def [symmetric] by auto
qed

lemma to_double_lower:
  assumes g0: "0 < g" and xg: "g \<le> x" and g: "g = of_int j * ulp g"
  shows "to_double x = PInf \<or> (\<exists>y. to_double x = Fin y \<and> g \<le> y)"
proof -
  have x: "0 < x" using g0 xg by simp
  define K where "K = round_even (x / ulp x)"
  have le: "expo g \<le> expo x" using expo_mono [OF g0 xg] .
  have "g \<le> of_int K * ulp x"
  proof (cases "max (expo x) (- 1022) = max (expo g) (- 1022)")
    case True
    then have u: "ulp x = ulp g" using x g0 by (simp add: ulp_eq)
    have "of_int j \<le> x / ulp x"
      using xg g unfolding u by (simp add: pos_le_divide_eq ulp_pos)
    then have "j \<le> K" unfolding K_def by (rule round_even_ge)
    then have "of_int j * ulp g \<le> of_int K * ulp g"
      by (simp add: mult_right_mono ulp_nonneg)
    then show ?thesis using g u by simp
  next
    case False
    then have lt: "max (expo g) (- 1022) < expo x" and ex: "max (expo x) (- 1022) = expo x"
      using le by auto
    have split: "(2::rat) powi (expo x) = of_int (2 ^ 52) * ulp x"
      using x ex by (simp add: ulp_eq power_int_diff)
    have "2 powi (expo x) \<le> x" using expo_bounds [OF x] by simp
    then have "of_int (2 ^ 52) \<le> x / ulp x"
      unfolding split by (simp add: pos_le_divide_eq ulp_pos)
    then have "2 ^ 52 \<le> K" unfolding K_def by (rule round_even_ge)
    then have k: "of_int (2 ^ 52) * ulp x \<le> of_int K * ulp x"
      by (intro mult_right_mono) (simp_all add: ulp_nonneg)
    have "g < 2 powi (expo g + 1)" using expo_bounds [OF g0] by simp
    also have "\<dots> \<le> 2 powi (expo x)"
      using lt by (intro power_int_increasing) linarith+
    also have "\<dots> \<le> of_int K * ulp x" using k split by simp
    finally show ?thesis by simp
  qed
  then show ?thesis
    unfolding to_double_pos [OF x] K_def [symmetric] by auto
qed

lemma to_double_exact:
  assumes g0: "0 < g" and g: "g = of_int j * ulp g" and fin: "g < double_limit"
  shows "to_double g = Fin g"
proof -
  obtain y where y: "to_double g = Fin y" "y \<le> g"
    using to_double_upper [OF g0 order_refl g fin] by auto
  have "to_double g = PInf \<or> (\<exists>y. to_double g = Fin y \<and> g \<le> y)"
    using to_double_lower [OF g0 order_refl g] .
  then show ?thesis using y by auto
qed

lemma expo_code [code]:
  "expo x =
     (if x \<le> 0 then 0
      else if 2 \<le> x then expo (x / 2) + 1
      else if x < 1 then expo (2 * x) - 1
      else 0)"
  by simp

lemma to_double_near:
  assumes x: "0 < x"
  shows "\<bar>of_int (round_even (x / ulp x)) * ulp x - x\<bar> \<le> ulp x / 2"
proof -
  define a :: rat where "a = of_int (round_even (x / ulp x))"
  have u: "0 < ulp x" by (rule ulp_pos)
  have "\<bar>a - x / ulp x\<bar> \<le> 1 / 2"
    unfolding a_def by (rule round_even_err)
  then have "\<bar>a - x / ulp x\<bar> * ulp x \<le> 1 / 2 * ulp x"
    by (intro mult_right_mono ulp_nonneg)
  moreover have "a * ulp x - x = (a - x / ulp x) * ulp x"
    using u by (simp add: field_simps)
  then have "\<bar>a * ulp x - x\<bar> = \<bar>a - x / ulp x\<bar> * ulp x"
    using u by (simp add: abs_mult)
  ultimately show ?thesis unfolding a_def by simp
qed

lemma below_limit: "g \<le> 2 powi f \<Longrightarrow> f < 1024 \<Longrightarrow> g < double_limit"
proof -
  assume g: "g \<le> 2 powi f" and f: "f < 1024"
  have "(2::rat) powi f < 2 powi 1024"
    using f by (intro power_int_strict_increasing) simp_all
  then show ?thesis using g unfolding double_limit_def by (rule le_less_trans [rotated])
qed

lemma expo_one: "expo 1 = 0"
  by simp

lemma expo_powi: "expo (2 powi e) = e"
  by (rule expo_unique) (simp_all add: power_int_add)

lemma half_ulp:
  "0 < x \<Longrightarrow> ulp x / 2 = 2 powi (max (expo x) (- 1022)) * 2 powi (- 53)"
proof -
  assume x: "0 < x"
  have "(2::rat) powi (max (expo x) (- 1022) - 52) = 2 powi (max (expo x) (- 1022)) * 2 powi (- 52)"
    using power_int_add [of "2::rat" "max (expo x) (- 1022)" "- 52"] by simp
  moreover have "(2::rat) powi (- 52) / 2 = 2 powi (- 53)"
    by (simp add: power_int_minus)
  ultimately show ?thesis using x by (simp add: ulp_eq)
qed

lemma to_double_abs_err:
  assumes x0: "0 \<le> x" and xB: "x \<le> B" and B1: "1 \<le> B" and Bf: "B \<le> 2 powi f"
    and f: "f \<le> 1022"
  shows "\<exists>y. to_double x = Fin y \<and> \<bar>y - x\<bar> \<le> B * 2 powi (- 53)"
proof (cases "x = 0")
  case True
  then show ?thesis using B1 by (simp add: to_double_zero)
next
  case False
  then have x: "0 < x" using x0 by simp
  have B0: "0 < B" using B1 by simp
  have "expo 1 \<le> expo B" by (rule expo_mono) (use B1 in simp_all)
  then have eB: "0 \<le> expo B" by (simp add: expo_one)
  have "expo x \<le> expo B" using expo_mono [OF x xB] .
  then have E: "max (expo x) (- 1022) \<le> expo B" using eB by simp
  define y where "y = of_int (round_even (x / ulp x)) * ulp x"
  have "(2::rat) powi (max (expo x) (- 1022)) \<le> 2 powi (expo B)"
    using E by (intro power_int_increasing) simp_all
  also have "\<dots> \<le> B" using expo_bounds [OF B0] by simp
  finally have "2 powi (max (expo x) (- 1022)) * 2 powi (- 53) \<le> B * 2 powi (- 53)"
    by (intro mult_right_mono) simp_all
  then have u: "ulp x / 2 \<le> B * 2 powi (- 53)" by (simp only: half_ulp [OF x])
  have near: "\<bar>y - x\<bar> \<le> B * 2 powi (- 53)"
    unfolding y_def using to_double_near [OF x] u by (rule order_trans)
  have "(2::rat) powi (- 53) \<le> 1" by (simp add: power_int_minus field_simps)
  then have "B * 2 powi (- 53) \<le> B * 1"
    using B0 by (intro mult_left_mono) simp_all
  moreover have "y - x \<le> \<bar>y - x\<bar>" by simp
  ultimately have "y \<le> B + B" using near xB by linarith
  also have "\<dots> \<le> 2 powi f + 2 powi f" using Bf Bf by (rule add_mono)
  also have "\<dots> = 2 powi (f + 1)" by (simp add: power_int_add)
  finally have "y < double_limit" using f by (intro below_limit [of _ "f + 1"]) simp_all
  then have "\<not> double_limit \<le> y" by (simp only: not_le)
  then show ?thesis
    using near unfolding to_double_pos [OF x] y_def [symmetric] by simp
qed

lemma to_double_rel_err:
  assumes lo: "2 powi e \<le> x" and e: "- 1022 \<le> e" and hi: "x \<le> 2 powi f" and f: "f \<le> 1022"
  shows "\<exists>y. to_double x = Fin y \<and> \<bar>y - x\<bar> \<le> x * 2 powi (- 53)"
proof -
  have p: "(0::rat) < 2 powi e" by (rule zero_less_power_int) simp
  have x: "0 < x" using lo p by (rule less_le_trans [rotated])
  have "expo (2 powi e) \<le> expo x" using expo_mono [OF p lo] .
  then have E: "max (expo x) (- 1022) = expo x" using e by (simp add: expo_powi)
  define y where "y = of_int (round_even (x / ulp x)) * ulp x"
  have "(2::rat) powi (expo x) \<le> x" using expo_bounds [OF x] by simp
  then have "2 powi (max (expo x) (- 1022)) * 2 powi (- 53) \<le> x * 2 powi (- 53)"
    unfolding E by (intro mult_right_mono) simp_all
  then have u: "ulp x / 2 \<le> x * 2 powi (- 53)" by (simp only: half_ulp [OF x])
  have near: "\<bar>y - x\<bar> \<le> x * 2 powi (- 53)"
    unfolding y_def using to_double_near [OF x] u by (rule order_trans)
  have "(2::rat) powi (- 53) \<le> 1" by (simp add: power_int_minus field_simps)
  then have "x * 2 powi (- 53) \<le> x * 1"
    using x by (intro mult_left_mono) simp_all
  moreover have "y - x \<le> \<bar>y - x\<bar>" by simp
  ultimately have "y \<le> x + x" using near by linarith
  also have "\<dots> \<le> 2 powi f + 2 powi f" using hi hi by (rule add_mono)
  also have "\<dots> = 2 powi (f + 1)" by (simp add: power_int_add)
  finally have "y < double_limit" using f by (intro below_limit [of _ "f + 1"]) simp_all
  then have "\<not> double_limit \<le> y" by (simp only: not_le)
  then show ?thesis
    using near unfolding to_double_pos [OF x] y_def [symmetric] by simp
qed

lemma floor_stable:
  fixes z :: rat
  assumes D: "0 < D" and near: "\<bar>z - of_int N / of_int D\<bar> < 1 / of_int D" and nd: "\<not> D dvd N"
  shows "\<lfloor>z\<rfloor> = \<lfloor>of_int N / of_int D :: rat\<rfloor>"
proof -
  define k where "k = N div D"
  define r where "r = N mod D"
  have N: "N = k * D + r" by (simp add: k_def r_def)
  have "0 \<le> r" "r < D"
    using pos_mod_sign [OF D, of N] pos_mod_bound [OF D, of N] by (simp_all add: r_def)
  moreover have "r \<noteq> 0" using nd by (simp add: r_def dvd_eq_mod_eq_0)
  ultimately have r: "1 \<le> r" "r \<le> D - 1" by linarith+
  have Dr: "(0::rat) < of_int D" using D by simp
  have q: "of_int N / of_int D = (of_int k :: rat) + of_int r / of_int D"
    unfolding N using Dr by (simp add: field_simps)
  have "(1::rat) \<le> of_int r" "(of_int r :: rat) \<le> of_int D - 1"
    using r by (simp_all flip: of_int_diff add: of_int_le_iff)
  then have f: "(1::rat) / of_int D \<le> of_int r / of_int D"
    "(of_int r :: rat) / of_int D \<le> 1 - 1 / of_int D"
    using Dr by (simp_all add: field_simps)
  have "of_int k < z" "z < of_int k + 1"
    using near f unfolding q by (simp_all add: abs_less_iff)
  then have "\<lfloor>z\<rfloor> = k" by (simp add: floor_eq_iff)
  moreover have "\<lfloor>of_int N / of_int D :: rat\<rfloor> = k"
    by (simp add: floor_divide_of_int_eq k_def)
  ultimately show ?thesis by simp
qed

lemma floor_rat_numeral: "\<lfloor>numeral a / numeral b :: rat\<rfloor> = numeral a div numeral b"
  by (metis floor_divide_of_int_eq of_int_numeral)

lemmas to_double_eval =
  to_double_def ulp_def round_even_def Let_def floor_rat_numeral double_limit_def

lemma grid_1: "(1::rat) = of_int (2 ^ 52) * ulp 1"
  by (simp add: ulp_def)

lemma grid_100: "(100::rat) = of_int (25 * 2 ^ 48) * ulp 100"
  by (simp add: ulp_def)

lemma grid_10000: "(10000::rat) = of_int (625 * 2 ^ 43) * ulp 10000"
  by (simp add: ulp_def)

lemma to_double_within:
  assumes x0: "0 \<le> x" and xg: "x \<le> g" and g: "g = of_int j * ulp g" and g1: "1 \<le> g"
    and gf: "g \<le> 2 powi f" and f: "f \<le> 1022"
  shows "\<exists>y. to_double x = Fin y \<and> 0 \<le> y \<and> y \<le> g \<and> \<bar>y - x\<bar> \<le> g * 2 powi (- 53)"
proof -
  obtain y where y: "to_double x = Fin y" "\<bar>y - x\<bar> \<le> g * 2 powi (- 53)"
    using to_double_abs_err [OF x0 xg g1 gf f] by auto
  have fin: "g < double_limit" using gf f by (intro below_limit [of _ f]) simp_all
  have "0 \<le> y \<and> y \<le> g"
  proof (cases "x = 0")
    case True
    then show ?thesis using y g1 by (simp add: to_double_zero)
  next
    case False
    then have "0 < x" using x0 by simp
    from to_double_upper [OF this xg g fin] y show ?thesis by auto
  qed
  then show ?thesis using y by auto
qed

section \<open>Properties of the output parser\<close>

lemma str_includes_sublist: "str_includes s sub = sublist sub s"
  by (induction s) (auto simp: sublist_Cons_right)

lemma countLines_filter:
  "countLines (e, w) ls =
     (e + length (filter (\<lambda>l. str_includes l ''error'') ls),
      w + length (filter (\<lambda>l. str_includes l ''warning'') ls))"
  by (induction ls arbitrary: e w) auto

text \<open>
  C10. The parser counts lines, not occurrences: the error count is the number of lines
  of the output that contain \<open>error\<close> as a substring, the warning count the number of
  lines that contain \<open>warning\<close>, the test being on the characters as they are. So a
  line with both words adds one to each count, a line with \<open>error\<close> three times
  adds one to the error count, and a line with only \<open>Error\<close> adds nothing.
\<close>

theorem parseESLintOutput_counts_lines:
  "parseESLintOutput output =
     (length (filter (\<lambda>l. sublist ''error'' l) (split_lines output)),
      length (filter (\<lambda>l. sublist ''warning'' l) (split_lines output)))
   \<and> parseESLintOutput ''2 errors, 3 warnings'' = (1, 1)
   \<and> parseESLintOutput ''error error error'' = (1, 0)
   \<and> parseESLintOutput ''Error'' = (0, 0)
   \<and> parseESLintOutput (''a: error'' @ [CHR 0x0A] @ ''2 errors, 3 warnings'' @ [CHR 0x0A] @ ''Error'') = (2, 1)"
proof -
  have "parseESLintOutput output =
     (length (filter (\<lambda>l. sublist ''error'' l) (split_lines output)),
      length (filter (\<lambda>l. sublist ''warning'' l) (split_lines output)))"
    unfolding parseESLintOutput_def countLines_filter str_includes_sublist by simp
  moreover have "parseESLintOutput ''2 errors, 3 warnings'' = (1, 1)"
    by (simp add: parseESLintOutput_def)
  moreover have "parseESLintOutput ''error error error'' = (1, 0)"
    by (simp add: parseESLintOutput_def)
  moreover have "parseESLintOutput ''Error'' = (0, 0)"
    by (simp add: parseESLintOutput_def)
  moreover have "parseESLintOutput (''a: error'' @ [CHR 0x0A] @ ''2 errors, 3 warnings'' @ [CHR 0x0A] @ ''Error'') = (2, 1)"
    by (simp add: parseESLintOutput_def)
  ultimately show ?thesis by blast
qed

section \<open>Properties of the quality score\<close>

lemma calculateQualityScore_fields:
  "lintedPackages (calculateQualityScore m) = lintedPackages m"
  "totalErrors (calculateQualityScore m) = totalErrors m"
  "totalWarnings (calculateQualityScore m) = totalWarnings m"
  "packageResults (calculateQualityScore m) = packageResults m"
  "previousScore (calculateQualityScore m) = previousScore m"
  "totalPackages (calculateQualityScore m) = totalPackages m"
  by (simp_all add: calculateQualityScore_def Let_def)

lemma calculateQualityScore_score:
  "qualityScore (calculateQualityScore m)
     = roundedScore (clampedScore (totalErrors m + totalWarnings m) (lintedPackages m * 10))"
  by (simp add: calculateQualityScore_def Let_def)

lemma finalize_score:
  "qualityScore (fst (finalize now m st)) = qualityScore (calculateQualityScore m)"
  by (simp add: finalize_def Let_def calculateQualityScore_def)

lemma finalize_fields:
  "lintedPackages (fst (finalize now m st)) = lintedPackages m"
  "totalErrors (fst (finalize now m st)) = totalErrors m"
  "totalWarnings (fst (finalize now m st)) = totalWarnings m"
  "packageResults (fst (finalize now m st)) = packageResults m"
  "previousScore (fst (finalize now m st)) = previousScore m"
  "totalPackages (fst (finalize now m st)) = totalPackages m"
  by (simp_all add: finalize_def Let_def calculateQualityScore_fields)

lemma finalize_store:
  "reportFile (snd (finalize now m st)) = Some (Report (fst (finalize now m st)))"
  "cacheFile (snd (finalize now m st)) = cacheFile st"
  by (simp_all add: finalize_def Let_def)



lemma floor_half: "\<lfloor>1 / 2 :: rat\<rfloor> = 0"
  by (simp add: floor_eq_iff)

lemma round_half_up_0: "round_half_up 0 = 0"
  by (simp add: round_half_up_def floor_half)

lemma roundedScore_0: "roundedScore (Fin 0) = Fin 0"
  by (simp add: roundedScore_def to_double_zero round_half_up_0)



text \<open>At ten issues per package or more the rating is clamped to zero, whatever the rounding.\<close>

lemma clampedScore_saturated:
  assumes M: "0 < M" and t: "M \<le> t"
  shows "clampedScore t M = Fin 0"
proof -
  define x :: rat where "x = of_nat t / of_nat M"
  have x: "1 \<le> x" using M t by (simp add: x_def le_divide_eq)
  have tail: "Math_max (Fin 0) (Math_min (Fin 100) (js_sub (Fin 100) v)) = Fin 0"
    if "v = PInf \<or> (\<exists>p. v = Fin p \<and> 100 \<le> p)" for v
  proof -
    from that show ?thesis
    proof
      assume "v = PInf"
      then show ?thesis by (simp add: Math_min_def Math_max_def)
    next
      assume "\<exists>p. v = Fin p \<and> 100 \<le> p"
      then obtain p where p: "v = Fin p" "100 \<le> p" by auto
      have "100 - p \<le> 0" using p by simp
      from to_double_nonpos [OF this] show ?thesis
        using p by (auto simp: Math_min_def Math_max_def)
    qed
  qed
  have "to_double x = PInf \<or> (\<exists>q. to_double x = Fin q \<and> 1 \<le> q)"
    using to_double_lower [OF _ x grid_1] by simp
  then have "js_mul (to_double x) (Fin 100) = PInf
      \<or> (\<exists>p. js_mul (to_double x) (Fin 100) = Fin p \<and> 100 \<le> p)"
  proof
    assume "to_double x = PInf"
    then show ?thesis by simp
  next
    assume "\<exists>q. to_double x = Fin q \<and> 1 \<le> q"
    then obtain q where q: "to_double x = Fin q" "1 \<le> q" by auto
    have "100 \<le> q * 100" using q by simp
    from to_double_lower [OF _ this grid_100] show ?thesis using q by simp
  qed
  from tail [OF this] show ?thesis
    using M by (simp add: clampedScore_def js_nat_def x_def)
qed

text \<open>
  Below ten issues per package the three operations of the rating stay between 0 and
  100, and each adds an error of at most \<open>100 * 2 powi (- 53)\<close>.
\<close>

lemma clampedScore_below:
  assumes M: "0 < M" and t: "t < M"
  shows "\<exists>s. clampedScore t M = Fin s \<and> 0 \<le> s \<and> s \<le> 100
           \<and> \<bar>s - (100 - of_nat t / of_nat M * 100)\<bar> \<le> 300 * 2 powi (- 53)"
proof -
  define x :: rat where "x = of_nat t / of_nat M"
  define eps :: rat where "eps = 2 powi (- 53)"
  have x: "0 \<le> x" "x \<le> 1" using M t by (simp_all add: x_def divide_le_eq)
  obtain q where q: "to_double x = Fin q" "0 \<le> q" "q \<le> 1" "\<bar>q - x\<bar> \<le> 1 * eps"
    using to_double_within [OF x grid_1, of 0] unfolding eps_def by auto
  have q100: "0 \<le> q * 100" "q * 100 \<le> 100" using q by simp_all
  obtain p where p: "to_double (q * 100) = Fin p" "0 \<le> p" "p \<le> 100"
      "\<bar>p - q * 100\<bar> \<le> 100 * eps"
    using to_double_within [OF q100 grid_100, of 7] unfolding eps_def by auto
  have s100: "0 \<le> 100 - p" "100 - p \<le> 100" using p by simp_all
  obtain s where s: "to_double (100 - p) = Fin s" "0 \<le> s" "s \<le> 100"
      "\<bar>s - (100 - p)\<bar> \<le> 100 * eps"
    using to_double_within [OF s100 grid_100, of 7] unfolding eps_def by auto
  have "clampedScore t M = Fin s"
    using M q(1) p(1) s(1) s(2) s(3)
    by (simp add: clampedScore_def js_nat_def Math_min_def Math_max_def x_def [symmetric])
  moreover have "\<bar>s - (100 - x * 100)\<bar> \<le> 300 * eps"
    using q(4) p(4) s(4) by linarith
  ultimately show ?thesis using s(2) s(3) unfolding x_def eps_def by blast
qed

text \<open>
  The second step on a rating between 0 and 100: the product is rounded to an integer of
  hundredths, which the final division by 100 turns into the nearest double.
\<close>

lemma roundedScore_within:
  assumes s: "0 \<le> s" "s \<le> 100"
  shows "\<exists>u. roundedScore (Fin s) = to_double (of_int (round_half_up u) / 100)
           \<and> 0 \<le> u \<and> u \<le> 10000 \<and> \<bar>u - s * 100\<bar> \<le> 10000 * 2 powi (- 53)"
proof -
  have s100: "0 \<le> s * 100" "s * 100 \<le> 10000" using s by simp_all
  obtain u where u: "to_double (s * 100) = Fin u" "0 \<le> u" "u \<le> 10000"
      "\<bar>u - s * 100\<bar> \<le> 10000 * 2 powi (- 53)"
    using to_double_within [OF s100 grid_10000, of 14] by auto
  have "roundedScore (Fin s) = to_double (of_int (round_half_up u) / 100)"
    using u(1) by (simp add: roundedScore_def)
  then show ?thesis using u by blast
qed

lemma round_half_up_range:
  assumes "0 \<le> u" "u \<le> 10000"
  shows "0 \<le> round_half_up u \<and> round_half_up u \<le> 10000"
proof -
  have "0 \<le> u + 1 / 2" using assms by simp
  then have lo: "0 \<le> round_half_up u" unfolding round_half_up_def by simp
  have "u + 1 / 2 < of_int 10001" using assms by simp
  then have "round_half_up u < 10001"
    unfolding round_half_up_def by (simp only: floor_less_iff)
  then show ?thesis using lo by simp
qed

lemma round_half_up_near: "\<bar>of_int (round_half_up u) - u\<bar> \<le> 1 / 2"
proof -
  have "of_int \<lfloor>u + 1 / 2\<rfloor> \<le> u + 1 / 2" "u + 1 / 2 < of_int \<lfloor>u + 1 / 2\<rfloor> + 1"
    by linarith+
  then show ?thesis unfolding round_half_up_def by linarith
qed

lemma hundredths_in_range:
  assumes "0 \<le> r" "r \<le> 10000"
  shows "score_in_range (to_double (of_int r / 100))"
proof -
  have "(0::rat) \<le> of_int r / 100" "(of_int r :: rat) / 100 \<le> 100" using assms by simp_all
  from to_double_within [OF this grid_100, of 7] show ?thesis by auto
qed

text \<open>
  The score of a run that linted at least one package: an integer of hundredths, rounded
  from a value that differs from the clamped rating times 100 by the error of four
  roundings.
\<close>

lemma score_hundredths:
  assumes n: "1 \<le> n"
  shows "\<exists>u. roundedScore (clampedScore (e + w) (n * 10)) = to_double (of_int (round_half_up u) / 100)
           \<and> 0 \<le> u \<and> u \<le> 10000
           \<and> \<bar>u - spec_hundredths e w n\<bar> \<le> 40000 * 2 powi (- 53)"
proof (cases "e + w < n * 10")
  case True
  define eps :: rat where "eps = 2 powi (- 53)"
  define X :: rat where "X = 100 - of_nat (e + w) / of_nat (n * 10) * 100"
  have M: "0 < n * 10" using n by simp
  obtain s where s: "clampedScore (e + w) (n * 10) = Fin s" "0 \<le> s" "s \<le> 100"
      "\<bar>s - X\<bar> \<le> 300 * eps"
    using clampedScore_below [OF M True] unfolding X_def eps_def by auto
  obtain u where u: "roundedScore (Fin s) = to_double (of_int (round_half_up u) / 100)"
      "0 \<le> u" "u \<le> 10000" "\<bar>u - s * 100\<bar> \<le> 10000 * eps"
    using roundedScore_within [OF s(2) s(3)] unfolding eps_def by auto
  define y :: rat where "y = of_nat (e + w) / of_nat (n * 10)"
  have "y < 1" "0 \<le> y" using True M unfolding y_def by simp_all
  then have "0 < 100 - y * 100" "100 - y * 100 \<le> 100" by linarith+
  then have "clamp (100 - y * 100) 0 100 = 100 - y * 100" by (simp add: clamp_def)
  moreover have "of_nat (e + w) / (10 * of_nat n) = y" by (simp add: y_def mult.commute)
  ultimately have "spec_hundredths e w n = X * 100"
    unfolding spec_hundredths_def X_def y_def [symmetric] by simp
  moreover have "\<bar>u - X * 100\<bar> \<le> 40000 * eps" using s(4) u(4) by linarith
  ultimately show ?thesis using s(1) u(1) u(2) u(3) unfolding eps_def by auto
next
  case False
  have M: "0 < n * 10" using n by simp
  have z: "clampedScore (e + w) (n * 10) = Fin 0"
    using False by (intro clampedScore_saturated [OF M]) simp
  define y :: rat where "y = of_nat (e + w) / of_nat (n * 10)"
  have "1 \<le> y" using False M unfolding y_def by (simp add: le_divide_eq)
  then have "100 - y * 100 \<le> 0" by linarith
  then have "clamp (100 - y * 100) 0 100 = 0" by (simp add: clamp_def)
  moreover have "of_nat (e + w) / (10 * of_nat n) = y" by (simp add: y_def mult.commute)
  ultimately have "spec_hundredths e w n = 0"
    unfolding spec_hundredths_def y_def [symmetric] by simp
  then show ?thesis
    unfolding z roundedScore_0
    by (intro exI [of _ 0]) (simp add: round_half_up_0 to_double_zero)
qed






lemma score_tolerance:
  assumes n: "1 \<le> n"
  shows "\<exists>r. roundedScore (clampedScore (e + w) (n * 10)) = to_double (of_int r / 100)
           \<and> 0 \<le> r \<and> r \<le> 10000
           \<and> \<bar>of_int r - spec_hundredths e w n\<bar> \<le> 1 / 2 + 40000 * 2 powi (- 53)"
proof -
  obtain u where u: "roundedScore (clampedScore (e + w) (n * 10))
        = to_double (of_int (round_half_up u) / 100)" "0 \<le> u" "u \<le> 10000"
      "\<bar>u - spec_hundredths e w n\<bar> \<le> 40000 * 2 powi (- 53)"
    using score_hundredths [OF n, of e w] by auto
  have "\<bar>of_int (round_half_up u) - u\<bar> \<le> 1 / 2" by (rule round_half_up_near)
  then have "\<bar>of_int (round_half_up u) - spec_hundredths e w n\<bar> \<le> 1 / 2 + 40000 * 2 powi (- 53)"
    using u(4) by linarith
  then show ?thesis using u(1) round_half_up_range [OF u(2) u(3)] by blast
qed

lemma score_range:
  assumes n: "1 \<le> n"
  shows "score_in_range (roundedScore (clampedScore (e + w) (n * 10)))"
proof -
  obtain r where "roundedScore (clampedScore (e + w) (n * 10)) = to_double (of_int r / 100)"
      "0 \<le> r" "r \<le> 10000"
    using score_tolerance [OF n, of e w] by auto
  then show ?thesis using hundredths_in_range [of r] by simp
qed



















section \<open>Properties of the categoriser\<close>

lemma totalWeight_nameless: "name p = None \<Longrightarrow> totalWeight p = Inl TypeError"
  by (simp add: totalWeight_def)

lemma totalWeight_named: "name p \<noteq> None \<Longrightarrow> \<exists>w. totalWeight p = Inr w"
  by (cases "name p") (simp_all add: totalWeight_def)

lemma categorizeLoop_named:
  assumes "\<forall>p\<in>set ps. name p \<noteq> None"
  shows "categorizeLoop t ps =
     Inr \<lparr>heavy = heavy t @ filter (\<lambda>p. tierOf p = Some Heavy) ps,
          medium = medium t @ filter (\<lambda>p. tierOf p = Some Medium) ps,
          light = light t @ filter (\<lambda>p. tierOf p = Some Light) ps\<rparr>"
  using assms
proof (induction ps arbitrary: t)
  case Nil
  then show ?case by simp
next
  case (Cons a ps)
  then obtain w where w: "totalWeight a = Inr w" using totalWeight_named [of a] by auto
  from Cons show ?case by (simp add: w tierOf_def tier_of_weight_def)
qed

lemma categorizeLoop_nameless:
  assumes "\<exists>p\<in>set ps. name p = None"
  shows "categorizeLoop t ps = Inl TypeError"
  using assms
proof (induction ps arbitrary: t)
  case Nil
  then show ?case by simp
next
  case (Cons a ps)
  show ?case
  proof (cases "name a")
    case None
    then show ?thesis by (simp add: totalWeight_nameless)
  next
    case (Some n)
    then obtain w where w: "totalWeight a = Inr w" using totalWeight_named [of a] by auto
    have "\<exists>p\<in>set ps. name p = None" using Cons.prems Some by auto
    then show ?thesis using Cons.IH by (simp add: w)
  qed
qed

lemma mset_sortedPackages: "mset (sortedPackages ps) = mset ps"
  by (simp add: sortedPackages_def)

lemma set_sortedPackages: "set (sortedPackages ps) = set ps"
  by (simp add: sortedPackages_def)

lemma categorizePackages_nameless:
  assumes "p \<in> set ps" "name p = None"
  shows "categorizePackages ps = Inl TypeError"
  unfolding categorizePackages_def
  using assms by (intro categorizeLoop_nameless) (auto simp: set_sortedPackages)

text \<open>
  On packages that all have a name the function returns, and each of the three lists is
  the packages, sorted, whose weight has that tier.
\<close>

lemma categorizePackages_named:
  assumes "\<forall>p\<in>set ps. name p \<noteq> None"
  shows "categorizePackages ps =
     Inr \<lparr>heavy = filter (\<lambda>p. tierOf p = Some Heavy) (sortedPackages ps),
          medium = filter (\<lambda>p. tierOf p = Some Medium) (sortedPackages ps),
          light = filter (\<lambda>p. tierOf p = Some Light) (sortedPackages ps)\<rparr>"
  unfolding categorizePackages_def
  using assms by (subst categorizeLoop_named) (simp_all add: set_sortedPackages)

lemma categorizePackages_cases:
  "categorizePackages ps =
     (if \<forall>p\<in>set ps. name p \<noteq> None then
        Inr \<lparr>heavy = filter (\<lambda>p. tierOf p = Some Heavy) (sortedPackages ps),
             medium = filter (\<lambda>p. tierOf p = Some Medium) (sortedPackages ps),
             light = filter (\<lambda>p. tierOf p = Some Light) (sortedPackages ps)\<rparr>
      else Inl TypeError)"
  using categorizePackages_named [of ps] categorizePackages_nameless [of _ ps] by auto

lemma categorized_tiers:
  assumes "categorizePackages ps = Inr c"
  shows "heavy c = filter (\<lambda>p. tierOf p = Some Heavy) (sortedPackages ps)"
    and "medium c = filter (\<lambda>p. tierOf p = Some Medium) (sortedPackages ps)"
    and "light c = filter (\<lambda>p. tierOf p = Some Light) (sortedPackages ps)"
    and "\<forall>p\<in>set ps. name p \<noteq> None"
  using assms unfolding categorizePackages_cases by (auto split: if_splits)

lemma tierOf_named: "name p \<noteq> None \<Longrightarrow> \<exists>k. tierOf p = Some k"
  using totalWeight_named [of p] by (auto simp: tierOf_def)

lemma mset_three_tiers:
  assumes "\<forall>p\<in>set xs. \<exists>k. f p = Some k"
  shows "mset (filter (\<lambda>p. f p = Some Heavy) xs) + mset (filter (\<lambda>p. f p = Some Medium) xs)
     + mset (filter (\<lambda>p. f p = Some Light) xs) = mset xs"
  using assms
proof (induction xs)
  case Nil
  then show ?case by simp
next
  case (Cons x xs)
  then obtain k where "f x = Some k" by auto
  with Cons show ?case by (cases k) (simp_all add: ac_simps)
qed

lemma mset_categorizePackages:
  assumes "categorizePackages ps = Inr c"
  shows "mset (heavy c) + mset (medium c) + mset (light c) = mset ps"
proof -
  have "\<forall>p\<in>set (sortedPackages ps). \<exists>k. tierOf p = Some k"
    using categorized_tiers(4) [OF assms] tierOf_named by (auto simp: set_sortedPackages)
  from mset_three_tiers [OF this] show ?thesis
    unfolding categorized_tiers(1-3) [OF assms] by (simp only: mset_sortedPackages)
qed

lemma tier_list_categorized:
  assumes "categorizePackages ps = Inr c"
  shows "tier_list c k = filter (\<lambda>p. tierOf p = Some k) (sortedPackages ps)"
  by (cases k) (simp_all add: tier_list_def categorized_tiers(1-3) [OF assms])

lemma tierOf_weight:
  "name p = Some n \<Longrightarrow>
   tierOf p = Some (tier_of_weight
     ((if sizeBytes p > 1000000 then 2 else if sizeBytes p > 500000 then 1 else 0)
       + (if hasTypescript p then 1 else 0) + (if hasTests p then 1 else 0)
       + (if sublist ''nodes-base'' n \<or> n = ''n8n'' \<or> sublist ''editor-ui'' n then 2
          else if sublist ''core'' n \<or> sublist ''cli'' n \<or> sublist ''design-system'' n then 1
          else 0)))"
  by (simp add: tierOf_def totalWeight_def sizeWeight_def complexityWeight_def
      str_includes_sublist)

lemma tier_of_weight_boundaries:
  "tier_of_weight 4 = Heavy" "tier_of_weight 3 = Medium" "tier_of_weight 2 = Medium"
  "tier_of_weight 1 = Light" "tier_of_weight 0 = Light"
  by (simp_all add: tier_of_weight_def)

lemma pkg_sel:
  "name (pkg n s ts t) = Some n"
  "sizeBytes (pkg n s ts t) = s"
  "hasTypescript (pkg n s ts t) = ts"
  "hasTests (pkg n s ts t) = t"
  "path (pkg n s ts t) = ''packages/'' @ n"
  "packageKey (pkg n s ts t) = n"
  by (simp_all add: pkg_def packageKey_def)

lemma example_sorted:
  "sortedPackages example_packages =
     [pkg ''n8n'' 2000000 False False, pkg ''workflow'' 1000001 True True,
      pkg ''@n8n/core'' 600000 True False, pkg ''utils'' 400000 True False]"
  by (simp add: sortedPackages_def example_packages_def pkg_sel)

lemma example_weights: "map totalWeight example_packages = [Inr 1, Inr 4, Inr 3, Inr 4]"
  by (simp add: example_packages_def pkg_sel totalWeight_def sizeWeight_def
      complexityWeight_def)

lemma example_categorized:
  "categorizePackages example_packages =
     Inr \<lparr>heavy = [pkg ''n8n'' 2000000 False False, pkg ''workflow'' 1000001 True True],
          medium = [pkg ''@n8n/core'' 600000 True False],
          light = [pkg ''utils'' 400000 True False]\<rparr>"
  unfolding categorizePackages_def example_sorted
  by (simp add: pkg_sel totalWeight_def sizeWeight_def complexityWeight_def)

text \<open>
  On packages that all have names the claim of C4 holds: each package is on the list of
  exactly the tier of its weight, the three lists together hold every package as often
  as the input does, and the thresholds map 4 to heavy, 3 and 2 to medium, 1 and 0 to
  light.
\<close>

lemma categorizePackages_tiers:
  assumes "\<forall>p\<in>set ps. name p \<noteq> None"
  shows "\<exists>c. categorizePackages ps = Inr c
           \<and> (\<forall>k. tier_list c k = filter (\<lambda>p. tierOf p = Some k) (sortedPackages ps))
           \<and> (\<forall>k. set (tier_list c k) = {p \<in> set ps. tierOf p = Some k})
           \<and> mset (heavy c) + mset (medium c) + mset (light c) = mset ps"
proof -
  obtain c where c: "categorizePackages ps = Inr c"
    using categorizePackages_named [OF assms] by blast
  have "\<forall>k. set (tier_list c k) = {p \<in> set ps. tierOf p = Some k}"
    by (auto simp: tier_list_categorized [OF c] set_sortedPackages)
  then show ?thesis
    using c tier_list_categorized [OF c] mset_categorizePackages [OF c] by blast
qed

lemma runQualityLint_nameless:
  assumes "p \<in> set ps" "name p = None"
  shows "runQualityLint env st ps = Inl TypeError"
proof -
  have "ps \<noteq> []" using assms by auto
  then show ?thesis
    by (simp add: runQualityLint_def Let_def categorizePackages_nameless [OF assms])
qed

lemma nameless_scan: "freshScan nameless_fs = [nameless_package]"
  by (simp add: freshScan_def nameless_fs_def nameless_tree_def nameless_manifests_def
      path_join_def PACKAGES_DIR_def existsIn_def nameless_package_def Let_def)

lemma nameless_discovery:
  "getLintablePackages nameless_fs 5 empty_store =
     ([nameless_package],
      \<lparr>reportFile = None, cacheFile = Some (5, CachedPackages [nameless_package])\<rparr>)"
  by (simp add: getLintablePackages_def scanAndCache_def empty_store_def nameless_scan Let_def)

text \<open>
  C4, the categoriser is not total. The scanner stores the \<open>name\<close> member of a manifest
  unchecked, so a package whose manifest has a lint script and no name reaches
  \<open>categorizePackages\<close> with the name \<open>undefined\<close>, and \<open>name.includes\<close> throws a
  \<open>TypeError\<close>: no package receives a tier, not even those before it in the order. The
  call stands outside the \<open>try\<close> of \<open>runQualityLint\<close>, so the run throws as well,
  and \<open>main\<close> ends with exit code 1 and without a report. (On packages that all have
  a name the function returns and the tiers are as the claim says, lemma
  \<open>categorizePackages_tiers\<close>.)
\<close>

theorem nameless_package_throws:
  assumes "p \<in> set ps" and "name p = None"
  shows "categorizePackages ps = Inl TypeError
       \<and> runQualityLint env st ps = Inl TypeError
       \<and> (getLintablePackages fs now st = (ps, st1) \<longrightarrow> main fs now env st = ((None, 1), st1))"
  using categorizePackages_nameless [OF assms] runQualityLint_nameless [OF assms]
  by (simp add: main_def)

theorem nameless_package_throws_witness:
  "freshScan nameless_fs = [nameless_package]
   \<and> name nameless_package = None
   \<and> getLintablePackages nameless_fs 5 empty_store =
       ([nameless_package],
        \<lparr>reportFile = None, cacheFile = Some (5, CachedPackages [nameless_package])\<rparr>)
   \<and> categorizePackages [nameless_package] = Inl TypeError
   \<and> runQualityLint six_errors_env empty_store [nameless_package] = Inl TypeError
   \<and> main nameless_fs 5 six_errors_env empty_store =
       ((None, 1), \<lparr>reportFile = None, cacheFile = Some (5, CachedPackages [nameless_package])\<rparr>)
   \<and> categorizePackages (example_packages @ [nameless_package]) = Inl TypeError"
proof -
  have n: "name nameless_package = None" by (simp add: nameless_package_def)
  have a: "categorizePackages [nameless_package] = Inl TypeError
       \<and> runQualityLint six_errors_env empty_store [nameless_package] = Inl TypeError
       \<and> main nameless_fs 5 six_errors_env empty_store =
           ((None, 1), \<lparr>reportFile = None, cacheFile = Some (5, CachedPackages [nameless_package])\<rparr>)"
    using nameless_package_throws [of nameless_package "[nameless_package]" six_errors_env
        empty_store nameless_fs 5] n nameless_discovery
    by simp
  have b: "categorizePackages (example_packages @ [nameless_package]) = Inl TypeError"
    using nameless_package_throws [of nameless_package "example_packages @ [nameless_package]"] n
    by simp
  show ?thesis using nameless_scan n nameless_discovery a b by (intro conjI) simp_all
qed

section \<open>Properties of a lint run\<close>

lemma addPackageResult_sel:
  "packageResults (addPackageResult m n r) = (packageResults m)(n \<mapsto> r)"
  "lintedPackages (addPackageResult m n r) = lintedPackages m + 1"
  "totalErrors (addPackageResult m n r) = totalErrors m + errors r"
  "totalWarnings (addPackageResult m n r) = totalWarnings m + warnings r"
  "previousScore (addPackageResult m n r) = previousScore m"
  "totalPackages (addPackageResult m n r) = totalPackages m"
  by (simp_all add: addPackageResult_def)

lemma recordEach_packageResults:
  "packageResults (recordEach res m ps) n
     = (if n \<in> packageKey ` set ps then Some res else packageResults m n)"
  by (induction ps arbitrary: m) (auto simp: addPackageResult_sel)

lemma recordEach_fields:
  "lintedPackages (recordEach res m ps) = lintedPackages m + length ps"
  "previousScore (recordEach res m ps) = previousScore m"
  "totalPackages (recordEach res m ps) = totalPackages m"
  "totalErrors (recordEach res m ps) = totalErrors m + length ps * errors res"
  "totalWarnings (recordEach res m ps) = totalWarnings m + length ps * warnings res"
  by (induction ps arbitrary: m) (auto simp: addPackageResult_sel)

lemma find_app:
  "find P (xs @ ys) = (case find P xs of Some x \<Rightarrow> Some x | None \<Rightarrow> find P ys)"
  by (induction xs) auto

text \<open>
  After the heavy loop the entry under a name is the result of the last heavy package of
  that name.
\<close>

lemma lintHeavy_packageResults:
  "packageResults (lintHeavy env m ps) k
     = (case find (\<lambda>q. packageKey q = k) (rev ps) of
          Some q \<Rightarrow> Some (heavyResult env q)
        | None \<Rightarrow> packageResults m k)"
proof (induction ps arbitrary: m)
  case Nil
  then show ?case by simp
next
  case (Cons a ps)
  show ?case
    by (simp add: Cons.IH find_app addPackageResult_sel split: option.splits)
qed

lemma lintHeavy_fields:
  "lintedPackages (lintHeavy env m ps) = lintedPackages m + length ps"
  "previousScore (lintHeavy env m ps) = previousScore m"
  "totalPackages (lintHeavy env m ps) = totalPackages m"
  "totalErrors (lintHeavy env m ps)
     = totalErrors m + sum_list (map (\<lambda>q. errors (heavyResult env q)) ps)"
  "totalWarnings (lintHeavy env m ps)
     = totalWarnings m + sum_list (map (\<lambda>q. warnings (heavyResult env q)) ps)"
  by (induction ps arbitrary: m) (auto simp: addPackageResult_sel)

lemma lintHeavy_dom:
  "dom (packageResults (lintHeavy env m ps)) = dom (packageResults m) \<union> packageKey ` set ps"
  by (induction ps arbitrary: m) (auto simp: addPackageResult_sel)

lemma lintBatch_recordEach:
  "lintBatch env c m ps = recordEach (batchResult env c ps) m ps"
  by (cases ps) (auto simp: lintBatch_def batchResult_def split: outcome.splits)

lemma lintBatch_packageResults:
  "packageResults (lintBatch env c m ps) n
     = (if n \<in> packageKey ` set ps then Some (batchResult env c ps) else packageResults m n)"
  by (simp add: lintBatch_recordEach recordEach_packageResults)

lemma lintBatch_fields:
  "lintedPackages (lintBatch env c m ps) = lintedPackages m + length ps"
  "previousScore (lintBatch env c m ps) = previousScore m"
  "totalPackages (lintBatch env c m ps) = totalPackages m"
  "totalErrors (lintBatch env c m ps) = totalErrors m + length ps * errors (batchResult env c ps)"
  "totalWarnings (lintBatch env c m ps)
     = totalWarnings m + length ps * warnings (batchResult env c ps)"
  by (simp_all add: lintBatch_recordEach recordEach_fields)

lemma lintBatch_dom:
  "dom (packageResults (lintBatch env c m ps)) = dom (packageResults m) \<union> packageKey ` set ps"
  by (auto simp: lintBatch_packageResults dom_def)

lemma categorizePackages_Nil:
  "categorizePackages [] = Inr \<lparr>heavy = [], medium = [], light = []\<rparr>"
  by (simp add: categorizePackages_def sortedPackages_def)

text \<open>A run over categorised packages returns the finalized metrics of the three phases.\<close>

lemma runQualityLint_categorized:
  assumes "categorizePackages ps = Inr c"
  shows "runQualityLint env st ps =
     Inr (finalize (finishedAt env)
            (lintBatch env 8
               (lintBatch env 4
                 (lintHeavy env ((newQualityMetrics (startedAt env) st)\<lparr>totalPackages := length ps\<rparr>)
                   (heavy c))
                 (medium c))
               (light c)) st)"
proof (cases "ps = []")
  case True
  then have "c = \<lparr>heavy = [], medium = [], light = []\<rparr>"
    using assms by (simp add: categorizePackages_Nil)
  then show ?thesis using True by (simp add: runQualityLint_def Let_def lintBatch_def)
next
  case False
  then show ?thesis using assms by (simp add: runQualityLint_def Let_def)
qed

lemma run_returned:
  assumes "categorizePackages ps = Inr c"
  shows "returned (runQualityLint env st ps)"
  by (simp add: runQualityLint_categorized [OF assms] returned_def)

lemma length_tiers:
  assumes "categorizePackages ps = Inr c"
  shows "length (heavy c) + length (medium c) + length (light c) = length ps"
proof -
  have "size (mset (heavy c) + mset (medium c) + mset (light c)) = size (mset ps)"
    by (simp only: mset_categorizePackages [OF assms])
  then show ?thesis by simp
qed

lemma set_tiers:
  assumes "categorizePackages ps = Inr c"
  shows "set (heavy c) \<union> set (medium c) \<union> set (light c) = set ps"
proof -
  have "set_mset (mset (heavy c) + mset (medium c) + mset (light c)) = set_mset (mset ps)"
    by (simp only: mset_categorizePackages [OF assms])
  then show ?thesis by simp
qed

lemma tiers_disjoint:
  assumes "categorizePackages ps = Inr c"
  shows "p \<in> set (heavy c) \<Longrightarrow> p \<notin> set (medium c) \<and> p \<notin> set (light c)"
    and "p \<in> set (medium c) \<Longrightarrow> p \<notin> set (heavy c) \<and> p \<notin> set (light c)"
    and "p \<in> set (light c) \<Longrightarrow> p \<notin> set (heavy c) \<and> p \<notin> set (medium c)"
  unfolding categorized_tiers(1-3) [OF assms] by auto

lemma run_fields:
  assumes "categorizePackages ps = Inr c"
  shows "lintedPackages (report_of (runQualityLint env st ps)) = length ps"
    and "totalPackages (report_of (runQualityLint env st ps)) = length ps"
    and "previousScore (report_of (runQualityLint env st ps)) = loadPreviousScore st"
    and "totalErrors (report_of (runQualityLint env st ps))
           = sum_list (map (\<lambda>q. errors (heavyResult env q)) (heavy c))
             + length (medium c) * errors (batchResult env 4 (medium c))
             + length (light c) * errors (batchResult env 8 (light c))"
    and "totalWarnings (report_of (runQualityLint env st ps))
           = sum_list (map (\<lambda>q. warnings (heavyResult env q)) (heavy c))
             + length (medium c) * warnings (batchResult env 4 (medium c))
             + length (light c) * warnings (batchResult env 8 (light c))"
  using length_tiers [OF assms]
  by (simp_all add: runQualityLint_categorized [OF assms] finalize_fields newQualityMetrics_def
      lintBatch_fields lintHeavy_fields)

lemma run_dom:
  assumes "categorizePackages ps = Inr c"
  shows "dom (packageResults (report_of (runQualityLint env st ps))) = packageKey ` set ps"
  using set_tiers [OF assms]
  by (auto simp: runQualityLint_categorized [OF assms] finalize_fields lintBatch_dom
      lintHeavy_dom newQualityMetrics_def)

lemma run_store:
  assumes "categorizePackages ps = Inr c"
  shows "reportFile (store_of (runQualityLint env st ps))
           = Some (Report (report_of (runQualityLint env st ps)))"
    and "cacheFile (store_of (runQualityLint env st ps)) = cacheFile st"
  by (simp_all add: runQualityLint_categorized [OF assms] finalize_store)

lemma run_packageResults:
  assumes "categorizePackages ps = Inr c"
  shows "packageResults (report_of (runQualityLint env st ps)) k =
     (if k \<in> packageKey ` set (light c) then Some (batchResult env 8 (light c))
      else if k \<in> packageKey ` set (medium c) then Some (batchResult env 4 (medium c))
      else (case find (\<lambda>q. packageKey q = k) (rev (heavy c)) of
              Some q \<Rightarrow> Some (heavyResult env q)
            | None \<Rightarrow> None))"
  by (simp add: runQualityLint_categorized [OF assms] finalize_fields lintBatch_packageResults
      lintHeavy_packageResults newQualityMetrics_def split: option.splits)

text \<open>
  Every entry of the report is the result of the last package processed under that name.
\<close>

lemma find_key_None: "(find (\<lambda>q. packageKey q = k) xs = None) = (k \<notin> packageKey ` set xs)"
  by (auto simp: find_None_iff)

lemma find_key_Some:
  "find (\<lambda>q. packageKey q = k) xs = Some q \<Longrightarrow> q \<in> set xs \<and> packageKey q = k"
  by (auto simp: find_Some_iff)

lemma run_entry:
  assumes c: "categorizePackages ps = Inr c"
  shows "packageResults (report_of (runQualityLint env st ps)) k
     = map_option (recordedResult env c)
         (find (\<lambda>q. packageKey q = k) (rev (processingOrder c)))"
proof (cases "find (\<lambda>q. packageKey q = k) (rev (light c))")
  case (Some q)
  then have q: "q \<in> set (light c)" "packageKey q = k" using find_key_Some [OF Some] by auto
  then have "k \<in> packageKey ` set (light c)" by auto
  moreover have "recordedResult env c q = batchResult env 8 (light c)"
    using tiers_disjoint(3) [OF c q(1)] by (simp add: recordedResult_def)
  ultimately show ?thesis
    by (simp add: run_packageResults [OF c] processingOrder_def find_app Some)
next
  case None
  then have nl: "k \<notin> packageKey ` set (light c)" using find_key_None [of k "rev (light c)"] by simp
  show ?thesis
  proof (cases "find (\<lambda>q. packageKey q = k) (rev (medium c))")
    case (Some q)
    then have q: "q \<in> set (medium c)" "packageKey q = k" using find_key_Some [OF Some] by auto
    then have "k \<in> packageKey ` set (medium c)" by auto
    moreover have "recordedResult env c q = batchResult env 4 (medium c)"
      using tiers_disjoint(2) [OF c q(1)] q(1) by (simp add: recordedResult_def)
    ultimately show ?thesis
      using nl by (simp add: run_packageResults [OF c] processingOrder_def find_app None Some)
  next
    case None2: None
    then have nm: "k \<notin> packageKey ` set (medium c)"
      using find_key_None [of k "rev (medium c)"] by simp
    show ?thesis
    proof (cases "find (\<lambda>q. packageKey q = k) (rev (heavy c))")
      case None3: None
      then show ?thesis
        using nl nm
        by (simp add: run_packageResults [OF c] processingOrder_def find_app None None2)
    next
      case (Some q)
      then have q: "q \<in> set (heavy c)" using find_key_Some [OF Some] by auto
      then have "recordedResult env c q = heavyResult env q" by (simp add: recordedResult_def)
      then show ?thesis
        using nl nm
        by (simp add: run_packageResults [OF c] processingOrder_def find_app None None2 Some)
    qed
  qed
qed

lemma run_lastNamed:
  assumes c: "categorizePackages ps = Inr c" and l: "lastNamed c p"
  shows "packageResults (report_of (runQualityLint env st ps)) (packageKey p)
           = Some (recordedResult env c p)"
  using l unfolding run_entry [OF c] lastNamed_def by simp

lemma lastNamed_light:
  assumes "p \<in> set (light c)"
  shows "\<exists>q \<in> set (light c). packageKey q = packageKey p \<and> lastNamed c q"
proof -
  have "find (\<lambda>q. packageKey q = packageKey p) (rev (light c)) \<noteq> None"
    using assms by (auto simp: find_None_iff)
  then obtain q where q: "find (\<lambda>q. packageKey q = packageKey p) (rev (light c)) = Some q"
    by auto
  then have "q \<in> set (light c)" "packageKey q = packageKey p"
    using find_key_Some [OF q] by auto
  moreover from this have "lastNamed c q"
    using q by (simp add: lastNamed_def processingOrder_def find_app)
  ultimately show ?thesis by blast
qed

lemma run_light_result:
  assumes c: "categorizePackages ps = Inr c" and p: "p \<in> set (light c)"
  shows "packageResults (report_of (runQualityLint env st ps)) (packageKey p)
           = Some (batchResult env 8 (light c))"
  using p by (simp add: run_packageResults [OF c])

lemma run_medium_result:
  assumes c: "categorizePackages ps = Inr c" and p: "p \<in> set (medium c)"
    and n: "packageKey p \<notin> packageKey ` set (light c)"
  shows "packageResults (report_of (runQualityLint env st ps)) (packageKey p)
           = Some (batchResult env 4 (medium c))"
  using p n by (simp add: run_packageResults [OF c])

lemma run_heavy_result:
  assumes c: "categorizePackages ps = Inr c" and p: "p \<in> set (heavy c)"
    and l: "lastNamed c p"
  shows "packageResults (report_of (runQualityLint env st ps)) (packageKey p)
           = Some (heavyResult env p)"
  using run_lastNamed [OF c l] p by (simp add: recordedResult_def)

lemma throws_heavyResult:
  assumes "throws (execSync env (LintOne (path p)))"
  shows "heavyResult env p
     = \<lparr>errors = 1, warnings = 0, duration = Some (elapsed env p), status = Failed\<rparr>"
proof -
  obtain msg where "execSync env (LintOne (path p)) = Throws msg"
    using assms by (cases "execSync env (LintOne (path p))") auto
  then show ?thesis by (simp add: heavyResult_def)
qed

lemma throws_batchResult:
  assumes "throws (execSync env (LintBatch k (map path batch)))"
  shows "batchResult env k batch = \<lparr>errors = 1, warnings = 0, duration = None, status = Failed\<rparr>"
proof -
  obtain msg where "execSync env (LintBatch k (map path batch)) = Throws msg"
    using assms by (cases "execSync env (LintBatch k (map path batch))") auto
  then show ?thesis by (simp add: batchResult_def failedBatchResult_def)
qed

lemma returns_batchResult:
  assumes "execSync env (LintBatch k (map path batch)) = Returns out"
  shows "batchResult env k batch
     = \<lparr>errors = roundedAverage (fst (parseESLintOutput out)) (length batch),
        warnings = roundedAverage (snd (parseESLintOutput out)) (length batch),
        duration = None, status = Success\<rparr>"
  using assms by (simp add: batchResult_def avgPerPackage_def)

lemma roundedAverage_zero: "roundedAverage 0 n = 0"
  by (cases "n = 0") (simp_all add: roundedAverage_def js_nat_def to_double_zero round_half_up_0)

lemma example_sel:
  "name cli_package = Some ''n8n''" "sizeBytes cli_package = 2000000"
  "hasTypescript cli_package = False" "hasTests cli_package = False"
  "path cli_package = ''packages/cli''" "packageKey cli_package = ''n8n''"
  "name legacy_package = Some ''n8n''" "sizeBytes legacy_package = 1000"
  "hasTypescript legacy_package = False" "hasTests legacy_package = False"
  "path legacy_package = ''packages/legacy''" "packageKey legacy_package = ''n8n''"
  "name typed_package = Some ''x-core''" "sizeBytes typed_package = 2000"
  "hasTypescript typed_package = True" "hasTests typed_package = False"
  "path typed_package = ''packages/x''" "packageKey typed_package = ''x-core''"
  "name untyped_package = Some ''x-core''" "sizeBytes untyped_package = 1000"
  "hasTypescript untyped_package = False" "hasTests untyped_package = False"
  "path untyped_package = ''packages/x-old''" "packageKey untyped_package = ''x-core''"
  by (simp_all add: cli_package_def legacy_package_def typed_package_def untyped_package_def
      packageKey_def)

lemma same_name_categorized:
  "categorizePackages [cli_package, legacy_package] =
     Inr \<lparr>heavy = [cli_package], medium = [legacy_package], light = []\<rparr>"
proof -
  have "sortedPackages [cli_package, legacy_package] = [cli_package, legacy_package]"
    by (simp add: sortedPackages_def example_sel)
  then show ?thesis
    unfolding categorizePackages_def
    by (simp add: example_sel totalWeight_def sizeWeight_def complexityWeight_def)
qed

lemma empty_output_parsed: "parseESLintOutput '''' = (0, 0)"
  by (simp add: parseESLintOutput_def)

text \<open>
  C5, the claim as worded fails. Two packages carry the name \<open>n8n\<close>: one is heavy
  and its invocation times out, the other is medium and its batch succeeds without
  findings. The report is keyed by name, so the failed result of the heavy package is
  overwritten: the only entry of the report has status success and no error, although
  the counters did add the one error.
\<close>

theorem heavy_failure_overwritten:
  "categorizePackages [cli_package, legacy_package] =
     Inr \<lparr>heavy = [cli_package], medium = [legacy_package], light = []\<rparr>
   \<and> throws (execSync heavy_failing_env (LintOne (path cli_package)))
   \<and> packageResults (report_of (runQualityLint heavy_failing_env empty_store
        [cli_package, legacy_package])) (packageKey cli_package)
       = Some \<lparr>errors = 0, warnings = 0, duration = None, status = Success\<rparr>
   \<and> dom (packageResults (report_of (runQualityLint heavy_failing_env empty_store
        [cli_package, legacy_package]))) = {''n8n''}
   \<and> lintedPackages (report_of (runQualityLint heavy_failing_env empty_store
        [cli_package, legacy_package])) = 2
   \<and> totalErrors (report_of (runQualityLint heavy_failing_env empty_store
        [cli_package, legacy_package])) = 1"
proof -
  note c = same_name_categorized
  have t: "throws (execSync heavy_failing_env (LintOne (path cli_package)))"
    by (simp add: heavy_failing_env_def)
  have b: "batchResult heavy_failing_env 4 [legacy_package]
      = \<lparr>errors = 0, warnings = 0, duration = None, status = Success\<rparr>"
    by (simp add: batchResult_def heavy_failing_env_def avgPerPackage_def empty_output_parsed
        roundedAverage_zero)
  have e: "packageResults (report_of (runQualityLint heavy_failing_env empty_store
        [cli_package, legacy_package])) (packageKey cli_package)
       = Some \<lparr>errors = 0, warnings = 0, duration = None, status = Success\<rparr>"
    by (simp add: run_packageResults [OF c] example_sel b)
  have d: "dom (packageResults (report_of (runQualityLint heavy_failing_env empty_store
        [cli_package, legacy_package]))) = {''n8n''}"
    by (simp add: run_dom [OF c] example_sel)
  have l: "lintedPackages (report_of (runQualityLint heavy_failing_env empty_store
        [cli_package, legacy_package])) = 2"
    by (simp add: run_fields(1) [OF c])
  have "heavyResult heavy_failing_env cli_package
      = \<lparr>errors = 1, warnings = 0, duration = Some 7, status = Failed\<rparr>"
    by (simp add: heavyResult_def heavy_failing_env_def)
  then have s: "totalErrors (report_of (runQualityLint heavy_failing_env empty_store
        [cli_package, legacy_package])) = 1"
    by (simp add: run_fields(4) [OF c] b)
  show ?thesis using c t e d l s by (intro conjI)
qed

text \<open>
  C5, amended. In a run whose packages all have a name (so that the categoriser returns
  the three tiers): a heavy package whose invocation throws is in the report with one
  error, no warning and status failed, provided it is the last package processed under
  its name; when the medium batch throws, every medium package whose name no light
  package carries is in the report with one error, no warning and status failed; when
  the light batch throws, every light package is. Whatever fails, the run goes on and
  returns: every entry of the report is the result of the last package processed under
  that name, in the order heavy, medium, light, so a failure changes no other package's
  result; every package of the input is linted and its name has an entry; the counters
  add up the results of all packages; and the report is finalized and written to the
  report file.
\<close>

theorem invocation_failure_recorded:
  assumes "categorizePackages ps = Inr c"
  shows "returned (runQualityLint env st ps)
       \<and> (\<forall>p \<in> set (heavy c).
            throws (execSync env (LintOne (path p))) \<and> lastNamed c p
            \<longrightarrow> packageResults (report_of (runQualityLint env st ps)) (packageKey p)
                  = Some \<lparr>errors = 1, warnings = 0, duration = Some (elapsed env p),
                           status = Failed\<rparr>)
       \<and> (throws (execSync env (LintBatch 4 (map path (medium c))))
            \<longrightarrow> (\<forall>p \<in> set (medium c). packageKey p \<notin> packageKey ` set (light c)
                   \<longrightarrow> packageResults (report_of (runQualityLint env st ps)) (packageKey p)
                         = Some \<lparr>errors = 1, warnings = 0, duration = None, status = Failed\<rparr>))
       \<and> (throws (execSync env (LintBatch 8 (map path (light c))))
            \<longrightarrow> (\<forall>p \<in> set (light c).
                   packageResults (report_of (runQualityLint env st ps)) (packageKey p)
                     = Some \<lparr>errors = 1, warnings = 0, duration = None, status = Failed\<rparr>))
       \<and> (\<forall>k. packageResults (report_of (runQualityLint env st ps)) k
                = map_option (recordedResult env c)
                    (find (\<lambda>q. packageKey q = k) (rev (processingOrder c))))
       \<and> lintedPackages (report_of (runQualityLint env st ps)) = length ps
       \<and> dom (packageResults (report_of (runQualityLint env st ps))) = packageKey ` set ps
       \<and> totalErrors (report_of (runQualityLint env st ps))
           = sum_list (map (\<lambda>q. errors (heavyResult env q)) (heavy c))
             + length (medium c) * errors (batchResult env 4 (medium c))
             + length (light c) * errors (batchResult env 8 (light c))
       \<and> totalWarnings (report_of (runQualityLint env st ps))
           = sum_list (map (\<lambda>q. warnings (heavyResult env q)) (heavy c))
             + length (medium c) * warnings (batchResult env 4 (medium c))
             + length (light c) * warnings (batchResult env 8 (light c))
       \<and> reportFile (store_of (runQualityLint env st ps))
           = Some (Report (report_of (runQualityLint env st ps)))"
proof -
  have h: "\<forall>p \<in> set (heavy c).
            throws (execSync env (LintOne (path p))) \<and> lastNamed c p
            \<longrightarrow> packageResults (report_of (runQualityLint env st ps)) (packageKey p)
                  = Some \<lparr>errors = 1, warnings = 0, duration = Some (elapsed env p),
                           status = Failed\<rparr>"
    using run_heavy_result [OF assms] throws_heavyResult by auto
  have m: "throws (execSync env (LintBatch 4 (map path (medium c))))
            \<longrightarrow> (\<forall>p \<in> set (medium c). packageKey p \<notin> packageKey ` set (light c)
                   \<longrightarrow> packageResults (report_of (runQualityLint env st ps)) (packageKey p)
                         = Some \<lparr>errors = 1, warnings = 0, duration = None, status = Failed\<rparr>)"
    using run_medium_result [OF assms] throws_batchResult [of env 4 "medium c"] by auto
  have l: "throws (execSync env (LintBatch 8 (map path (light c))))
            \<longrightarrow> (\<forall>p \<in> set (light c).
                   packageResults (report_of (runQualityLint env st ps)) (packageKey p)
                     = Some \<lparr>errors = 1, warnings = 0, duration = None, status = Failed\<rparr>)"
    using run_light_result [OF assms] throws_batchResult [of env 8 "light c"] by auto
  have e: "\<forall>k. packageResults (report_of (runQualityLint env st ps)) k
                = map_option (recordedResult env c)
                    (find (\<lambda>q. packageKey q = k) (rev (processingOrder c)))"
    using run_entry [OF assms] by blast
  show ?thesis
    using run_returned [OF assms] h m l e run_fields(1) [OF assms] run_dom [OF assms]
      run_fields(4) [OF assms] run_fields(5) [OF assms] run_store(1) [OF assms]
    by (intro conjI)
qed

text \<open>
  With every invocation timing out, the two heavy packages of the example and its medium
  and light package are all recorded as failed, and all four are linted.
\<close>

theorem invocation_failure_recorded_witness:
  "categorizePackages example_packages =
     Inr \<lparr>heavy = [pkg ''n8n'' 2000000 False False, pkg ''workflow'' 1000001 True True],
          medium = [pkg ''@n8n/core'' 600000 True False],
          light = [pkg ''utils'' 400000 True False]\<rparr>
   \<and> returned (runQualityLint failing_env empty_store example_packages)
   \<and> packageResults (report_of (runQualityLint failing_env empty_store example_packages)) ''n8n''
     = Some \<lparr>errors = 1, warnings = 0, duration = Some 7, status = Failed\<rparr>
   \<and> packageResults (report_of (runQualityLint failing_env empty_store example_packages)) ''workflow''
     = Some \<lparr>errors = 1, warnings = 0, duration = Some 7, status = Failed\<rparr>
   \<and> packageResults (report_of (runQualityLint failing_env empty_store example_packages)) ''@n8n/core''
     = Some \<lparr>errors = 1, warnings = 0, duration = None, status = Failed\<rparr>
   \<and> packageResults (report_of (runQualityLint failing_env empty_store example_packages)) ''utils''
     = Some \<lparr>errors = 1, warnings = 0, duration = None, status = Failed\<rparr>
   \<and> lintedPackages (report_of (runQualityLint failing_env empty_store example_packages)) = 4
   \<and> totalErrors (report_of (runQualityLint failing_env empty_store example_packages)) = 4"
proof -
  have n: "length example_packages = 4" by (simp add: example_packages_def)
  have l: "lastNamed \<lparr>heavy = [pkg ''n8n'' 2000000 False False, pkg ''workflow'' 1000001 True True],
          medium = [pkg ''@n8n/core'' 600000 True False],
          light = [pkg ''utils'' 400000 True False]\<rparr> (pkg ''n8n'' 2000000 False False)"
    "lastNamed \<lparr>heavy = [pkg ''n8n'' 2000000 False False, pkg ''workflow'' 1000001 True True],
          medium = [pkg ''@n8n/core'' 600000 True False],
          light = [pkg ''utils'' 400000 True False]\<rparr> (pkg ''workflow'' 1000001 True True)"
    by (simp_all add: lastNamed_def processingOrder_def pkg_sel)
  have h: "heavyResult failing_env p
      = \<lparr>errors = 1, warnings = 0, duration = Some 7, status = Failed\<rparr>" for p
    by (simp add: heavyResult_def failing_env_def)
  have b: "batchResult failing_env k batch
      = \<lparr>errors = 1, warnings = 0, duration = None, status = Failed\<rparr>" for k batch
    by (simp add: batchResult_def failing_env_def failedBatchResult_def)
  have t: "throws (execSync failing_env cmd)" for cmd by (simp add: failing_env_def)
  have e: "elapsed failing_env p = 7" for p by (simp add: failing_env_def)
  note r = invocation_failure_recorded [OF example_categorized, of failing_env empty_store]
  note r1 = r [THEN conjunct1]
  note r2 = r [THEN conjunct2, THEN conjunct1]
  note r3 = r [THEN conjunct2, THEN conjunct2, THEN conjunct1]
  note r4 = r [THEN conjunct2, THEN conjunct2, THEN conjunct2, THEN conjunct1]
  note r6 = r [THEN conjunct2, THEN conjunct2, THEN conjunct2, THEN conjunct2, THEN conjunct2,
      THEN conjunct1]
  note r8 = r [THEN conjunct2, THEN conjunct2, THEN conjunct2, THEN conjunct2, THEN conjunct2,
      THEN conjunct2, THEN conjunct2, THEN conjunct1]
  show ?thesis
    using r1 r2 r3 r4 r6 r8 l
    by (simp add: example_categorized pkg_sel n h b t e)
qed

text \<open>
  The quotient of two counts below \<open>2 ^ 52\<close> is rounded by \<open>Math.round\<close> as the exact
  quotient is: a quotient that ends in one half is a double, and any other quotient is
  farther from the rounding boundary than the error of the division.
\<close>

lemma half_integer_exact:
  fixes x :: rat
  assumes x: "x = of_int k / 2" and x0: "0 < x" and hi: "x < 2 powi 52"
  shows "to_double x = Fin x"
proof -
  define e where "e = expo x"
  have b: "2 powi e \<le> x" "x < 2 powi (e + 1)" using expo_bounds [OF x0] by (simp_all add: e_def)
  have "(2::rat) powi e < 2 powi 52" using b(1) hi by simp
  then have e51: "e \<le> 51" using powi2_less_imp [of e 52] by simp
  have "0 < k" using x0 x by simp
  then have "1 \<le> k" by simp
  then have "(of_int 1 :: rat) \<le> of_int k" by (simp only: of_int_le_iff)
  then have "(1::rat) \<le> of_int k" by simp
  then have "2 powi (- 1) \<le> x" unfolding x by (simp add: power_int_minus)
  then have "(2::rat) powi (- 1) < 2 powi (e + 1)" using b(2) by simp
  then have e1: "- 1 \<le> e" using powi2_less_imp [of "- 1" "e + 1"] by simp
  have u: "ulp x = 2 powi (e - 52)" using x0 e1 by (simp add: ulp_eq e_def)
  have "(2::rat) powi (- 1) = 2 powi (51 - e) * 2 powi (e - 52)"
    using power_int_add [of "2::rat" "51 - e" "e - 52"] by simp
  moreover have "(2::rat) powi (51 - e) = of_int (2 ^ nat (51 - e))"
    using e51 by (simp add: power_int_def)
  ultimately have p: "(2::rat) powi (- 1) = of_int (2 ^ nat (51 - e)) * ulp x"
    by (simp only: u)
  have "x = of_int k * 2 powi (- 1)" unfolding x by (simp add: power_int_minus)
  then have "x = of_int k * (of_int (2 ^ nat (51 - e)) * ulp x)" by (simp only: p)
  then have "x = of_int (k * 2 ^ nat (51 - e)) * ulp x" by (simp only: of_int_mult mult.assoc)
  moreover have "x < double_limit" using hi by (intro below_limit [of _ 52]) simp_all
  ultimately show ?thesis using x0 by (intro to_double_exact)
qed

lemma roundedAverage_exact:
  assumes n: "1 \<le> n" "n < 2 ^ 52" and E: "E < 2 ^ 52"
  shows "roundedAverage E n = nat (round_half_up (of_nat E / of_nat n))"
proof (cases "E = 0")
  case True
  then show ?thesis by (simp add: roundedAverage_zero round_half_up_0)
next
  case False
  define x :: rat where "x = of_nat E / of_nat n"
  define D where "D = 2 * int n"
  define N where "N = 2 * int E + int n"
  have n0: "(0::rat) < of_nat n" using n by simp
  have E1: "(1::rat) \<le> of_nat E" using False by (simp add: Suc_le_eq)
  have nr: "(of_nat n :: rat) \<le> 2 ^ 52"
    using n(2) by (metis less_imp_le of_nat_le_iff of_nat_numeral of_nat_power)
  have Er: "(of_nat E :: rat) < 2 ^ 52"
    using E by (metis of_nat_less_iff of_nat_numeral of_nat_power)
  have x0: "0 < x" using n0 E1 by (simp add: x_def)
  have "1 / 2 ^ 52 \<le> 1 / (of_nat n :: rat)" using n0 nr by (intro divide_left_mono) simp_all
  also have "\<dots> \<le> x" unfolding x_def using n0 E1 by (simp add: divide_right_mono)
  finally have lo: "2 powi (- 52) \<le> x" by (simp add: power_int_minus field_simps)
  have "x \<le> of_nat E" unfolding x_def using n E1 by (simp add: field_simps mult_left_mono)
  then have hi: "x < 2 powi 52" using Er by simp
  obtain y where y: "to_double x = Fin y" "\<bar>y - x\<bar> \<le> x * 2 powi (- 53)"
    using to_double_rel_err [OF lo _ less_imp_le [OF hi]] by auto
  have half: "x + 1 / 2 = of_int N / of_int D"
    unfolding x_def N_def D_def using n0 by (simp add: field_simps)
  have "round_half_up y = round_half_up x"
  proof (cases "D dvd N")
    case True
    then obtain k where "N = D * k" by (auto simp: dvd_def)
    then have "x + 1 / 2 = of_int k" unfolding half D_def using n0 by simp
    then have "x = of_int (2 * k - 1) / 2" by (simp add: field_simps)
    from half_integer_exact [OF this x0 hi] y(1) show ?thesis by simp
  next
    case nd: False
    have D0: "0 < D" using n by (simp add: D_def)
    have "x * 2 powi (- 53) = of_nat E / (of_nat n * 2 ^ 53)"
      by (simp add: x_def power_int_minus field_simps)
    also have "\<dots> < 2 ^ 52 / (of_nat n * 2 ^ 53)"
      using Er n0 by (intro divide_strict_right_mono) simp_all
    also have "\<dots> = 1 / of_int D" unfolding D_def by simp
    finally have "\<bar>(y + 1 / 2) - of_int N / of_int D\<bar> < 1 / of_int D"
      using y(2) unfolding half [symmetric] by simp
    from floor_stable [OF D0 this nd] show ?thesis
      unfolding round_half_up_def half by simp
  qed
  then show ?thesis using n y(1) by (simp add: roundedAverage_def js_nat_def x_def)
qed

lemma round_half_up_nat:
  assumes "1 \<le> n"
  shows "nat (round_half_up (of_nat E / of_nat n)) = (2 * E + n) div (2 * n)"
proof -
  have n0: "(of_nat n :: rat) \<noteq> 0" using assms by simp
  have "(of_nat E / of_nat n + 1 / 2 :: rat) = of_nat (2 * E + n) / of_nat (2 * n)"
    using n0 by (simp add: field_simps)
  then have "round_half_up (of_nat E / of_nat n) = \<lfloor>(of_nat (2 * E + n) / of_nat (2 * n) :: rat)\<rfloor>"
    by (simp only: round_half_up_def)
  also have "\<dots> = int ((2 * E + n) div (2 * n))"
    by (rule floor_divide_of_nat_eq)
  finally show ?thesis by simp
qed

lemma six_errors_parsed: "parseESLintOutput six_errors = (6, 0)"
  by (simp add: six_errors_def parseESLintOutput_def)

lemma same_core_categorized:
  "categorizePackages [typed_package, untyped_package] =
     Inr \<lparr>heavy = [], medium = [typed_package], light = [untyped_package]\<rparr>"
proof -
  have "sortedPackages [typed_package, untyped_package] = [typed_package, untyped_package]"
    by (simp add: sortedPackages_def example_sel)
  then show ?thesis
    unfolding categorizePackages_def
    by (simp add: example_sel totalWeight_def sizeWeight_def complexityWeight_def)
qed

lemma roundedAverage_div:
  assumes "1 \<le> n" "n < 2 ^ 52" "E < 2 ^ 52"
  shows "roundedAverage E n = (2 * E + n) div (2 * n)"
  using roundedAverage_exact [OF assms] round_half_up_nat [OF assms(1)] by simp

lemma roundedAverage_6_1: "roundedAverage 6 (Suc 0) = 6"
  using roundedAverage_div [of "Suc 0" 6] by simp

text \<open>
  C6, the claim as worded fails. Two packages carry the name \<open>x-core\<close>, one medium and
  one light. The medium batch succeeds with six error lines, so its one member is to be
  recorded with \<open>round(6 / 1) = 6\<close> errors; the light batch succeeds without findings
  and its result, recorded under the same name, replaces it. The report has no entry
  with six errors.
\<close>

theorem medium_average_overwritten:
  "categorizePackages [typed_package, untyped_package] =
     Inr \<lparr>heavy = [], medium = [typed_package], light = [untyped_package]\<rparr>
   \<and> execSync medium_errors_env (LintBatch 4 (map path [typed_package])) = Returns six_errors
   \<and> parseESLintOutput six_errors = (6, 0)
   \<and> roundedAverage 6 (length [typed_package]) = 6
   \<and> packageResults (report_of (runQualityLint medium_errors_env empty_store
        [typed_package, untyped_package])) (packageKey typed_package)
       = Some \<lparr>errors = 0, warnings = 0, duration = None, status = Success\<rparr>
   \<and> dom (packageResults (report_of (runQualityLint medium_errors_env empty_store
        [typed_package, untyped_package]))) = {''x-core''}"
proof -
  note c = same_core_categorized
  have x: "execSync medium_errors_env (LintBatch 4 (map path [typed_package])) = Returns six_errors"
    by (simp add: medium_errors_env_def)
  have b: "batchResult medium_errors_env 8 [untyped_package]
      = \<lparr>errors = 0, warnings = 0, duration = None, status = Success\<rparr>"
    by (simp add: batchResult_def medium_errors_env_def avgPerPackage_def empty_output_parsed
        roundedAverage_zero)
  have e: "packageResults (report_of (runQualityLint medium_errors_env empty_store
        [typed_package, untyped_package])) (packageKey typed_package)
       = Some \<lparr>errors = 0, warnings = 0, duration = None, status = Success\<rparr>"
    by (simp add: run_packageResults [OF c] example_sel b)
  have d: "dom (packageResults (report_of (runQualityLint medium_errors_env empty_store
        [typed_package, untyped_package]))) = {''x-core''}"
    by (simp add: run_dom [OF c] example_sel)
  have r: "roundedAverage 6 (length [typed_package]) = 6" by (simp add: roundedAverage_6_1)
  show ?thesis using c x six_errors_parsed r e d by (intro conjI)
qed

text \<open>
  C6, amended. In a run whose packages all have a name: when the medium batch returns,
  with an output in which the parser counts \<open>E\<close> errors and \<open>W\<close> warnings, every one
  of the \<open>n\<close> medium packages whose name no light package carries is in the report
  with status success, \<open>Math.round(E / n)\<close> errors and \<open>Math.round(W / n)\<close> warnings;
  when the light batch returns, every light package is in the report with the rounded
  averages of that batch. The division is the one of doubles; for counts and batch sizes
  below \<open>2 ^ 52\<close> the result is the exact quotient rounded to the nearest integer, a tie
  going up, which is \<open>(2 * E + n) div (2 * n)\<close>.
\<close>

theorem batch_even_split:
  assumes "categorizePackages ps = Inr c"
  shows "(\<forall>out. execSync env (LintBatch 4 (map path (medium c))) = Returns out
            \<longrightarrow> (\<forall>p \<in> set (medium c). packageKey p \<notin> packageKey ` set (light c)
                   \<longrightarrow> packageResults (report_of (runQualityLint env st ps)) (packageKey p)
                     = Some \<lparr>errors = roundedAverage (fst (parseESLintOutput out)) (length (medium c)),
                              warnings = roundedAverage (snd (parseESLintOutput out)) (length (medium c)),
                              duration = None, status = Success\<rparr>))
       \<and> (\<forall>out. execSync env (LintBatch 8 (map path (light c))) = Returns out
            \<longrightarrow> (\<forall>p \<in> set (light c).
                   packageResults (report_of (runQualityLint env st ps)) (packageKey p)
                     = Some \<lparr>errors = roundedAverage (fst (parseESLintOutput out)) (length (light c)),
                              warnings = roundedAverage (snd (parseESLintOutput out)) (length (light c)),
                              duration = None, status = Success\<rparr>))
       \<and> (\<forall>E n. 1 \<le> n \<and> n < 2 ^ 52 \<and> E < 2 ^ 52
            \<longrightarrow> roundedAverage E n = nat (round_half_up (of_nat E / of_nat n))
                \<and> roundedAverage E n = (2 * E + n) div (2 * n))"
proof -
  have m: "\<forall>out. execSync env (LintBatch 4 (map path (medium c))) = Returns out
            \<longrightarrow> (\<forall>p \<in> set (medium c). packageKey p \<notin> packageKey ` set (light c)
                   \<longrightarrow> packageResults (report_of (runQualityLint env st ps)) (packageKey p)
                     = Some \<lparr>errors = roundedAverage (fst (parseESLintOutput out)) (length (medium c)),
                              warnings = roundedAverage (snd (parseESLintOutput out)) (length (medium c)),
                              duration = None, status = Success\<rparr>)"
    using run_medium_result [OF assms] returns_batchResult [of env 4 "medium c"] by auto
  have l: "\<forall>out. execSync env (LintBatch 8 (map path (light c))) = Returns out
            \<longrightarrow> (\<forall>p \<in> set (light c).
                   packageResults (report_of (runQualityLint env st ps)) (packageKey p)
                     = Some \<lparr>errors = roundedAverage (fst (parseESLintOutput out)) (length (light c)),
                              warnings = roundedAverage (snd (parseESLintOutput out)) (length (light c)),
                              duration = None, status = Success\<rparr>)"
    using run_light_result [OF assms] returns_batchResult [of env 8 "light c"] by auto
  have r: "\<forall>E n. 1 \<le> n \<and> n < 2 ^ 52 \<and> E < 2 ^ 52
            \<longrightarrow> roundedAverage E n = nat (round_half_up (of_nat E / of_nat n))
                \<and> roundedAverage E n = (2 * E + n) div (2 * n)"
    using roundedAverage_exact roundedAverage_div by auto
  show ?thesis using m l r by (intro conjI)
qed

lemma trio_categorized:
  "categorizePackages medium_trio = Inr \<lparr>heavy = [], medium = medium_trio, light = []\<rparr>"
proof -
  have "sortedPackages medium_trio = medium_trio"
    by (simp add: sortedPackages_def medium_trio_def pkg_sel)
  then show ?thesis
    unfolding categorizePackages_def
    by (simp add: medium_trio_def pkg_sel totalWeight_def sizeWeight_def complexityWeight_def)
qed

text \<open>
  A batch of three medium packages whose output has six error lines: each of the three
  is recorded with two errors.
\<close>

theorem batch_even_split_witness:
  "categorizePackages medium_trio = Inr \<lparr>heavy = [], medium = medium_trio, light = []\<rparr>
   \<and> packageResults (report_of (runQualityLint six_errors_env empty_store medium_trio)) ''a-core''
     = Some \<lparr>errors = 2, warnings = 0, duration = None, status = Success\<rparr>
   \<and> packageResults (report_of (runQualityLint six_errors_env empty_store medium_trio)) ''b-core''
     = Some \<lparr>errors = 2, warnings = 0, duration = None, status = Success\<rparr>
   \<and> packageResults (report_of (runQualityLint six_errors_env empty_store medium_trio)) ''c-core''
     = Some \<lparr>errors = 2, warnings = 0, duration = None, status = Success\<rparr>
   \<and> roundedAverage 6 3 = 2
   \<and> roundedAverage 7 2 = 4"
proof -
  note r = batch_even_split [OF trio_categorized, of six_errors_env empty_store]
  note r1 = r [THEN conjunct1]
  note r3 = r [THEN conjunct2, THEN conjunct2]
  have a: "roundedAverage 6 3 = 2" "roundedAverage 7 2 = 4" "roundedAverage 0 3 = 0"
    using r3 [rule_format, of 3 6, THEN conjunct2] r3 [rule_format, of 2 7, THEN conjunct2]
      r3 [rule_format, of 3 0, THEN conjunct2]
    by simp_all
  have l: "length medium_trio = 3" "set medium_trio = {pkg ''a-core'' 0 True False, pkg ''b-core'' 0 True False,
     pkg ''c-core'' 0 True False}"
    by (simp_all add: medium_trio_def)
  show ?thesis
    using r1 a
    by (simp add: trio_categorized l pkg_sel six_errors_env_def six_errors_parsed)
qed

section \<open>Properties of the empty run and of the trend\<close>

lemma loadPreviousScore_none: "reportFile st = None \<Longrightarrow> loadPreviousScore st = Fin 0"
  by (simp add: loadPreviousScore_def)

lemma loadPreviousScore_corrupt:
  "reportFile st = Some CorruptReport \<Longrightarrow> loadPreviousScore st = Fin 0"
  by (simp add: loadPreviousScore_def)

lemma run_score:
  assumes c: "categorizePackages ps = Inr c"
  shows "qualityScore (report_of (runQualityLint env st ps))
     = roundedScore (clampedScore
         (totalErrors (report_of (runQualityLint env st ps))
            + totalWarnings (report_of (runQualityLint env st ps)))
         (length ps * 10))"
proof -
  define m where "m = lintBatch env 8
               (lintBatch env 4
                 (lintHeavy env ((newQualityMetrics (startedAt env) st)\<lparr>totalPackages := length ps\<rparr>)
                   (heavy c))
                 (medium c))
               (light c)"
  have r: "runQualityLint env st ps = Inr (finalize (finishedAt env) m st)"
    unfolding m_def by (rule runQualityLint_categorized [OF c])
  have "lintedPackages m = length ps"
    using run_fields(1) [OF c, of env st] by (simp add: r finalize_fields)
  then show ?thesis
    by (simp add: r finalize_score finalize_fields calculateQualityScore_score)
qed

text \<open>On every package list that is not empty and is categorised, the score is in range.\<close>

lemma run_score_in_range:
  assumes c: "categorizePackages ps = Inr c" and ne: "ps \<noteq> []"
  shows "score_in_range (qualityScore (report_of (runQualityLint env st ps)))"
proof -
  have "1 \<le> length ps" using ne by (cases ps) auto
  then show ?thesis unfolding run_score [OF c] by (rule score_range)
qed

lemma second_run_previousScore:
  assumes c1: "categorizePackages ps1 = Inr c1" and c2: "categorizePackages ps2 = Inr c2"
  shows "previousScore (report_of (runQualityLint env2 (store_of (runQualityLint env1 st ps1)) ps2))
     = or_zero (json_number (qualityScore (report_of (runQualityLint env1 st ps1))))"
  by (simp add: run_fields(3) [OF c2] loadPreviousScore_def run_store [OF c1])

text \<open>
  After a first run that linted at least one package, the second run's previous score is
  the first run's score.
\<close>

lemma second_run_previousScore_linted:
  assumes c1: "categorizePackages ps1 = Inr c1" and c2: "categorizePackages ps2 = Inr c2"
    and ne: "ps1 \<noteq> []"
  shows "previousScore (report_of (runQualityLint env2 (store_of (runQualityLint env1 st ps1)) ps2))
           = qualityScore (report_of (runQualityLint env1 st ps1))"
proof -
  obtain y where "qualityScore (report_of (runQualityLint env1 st ps1)) = Fin y"
    using run_score_in_range [OF c1 ne, of env1 st]
    by (cases "qualityScore (report_of (runQualityLint env1 st ps1))") auto
  then show ?thesis by (simp add: second_run_previousScore [OF c1 c2])
qed

lemma clampedScore_none: "clampedScore 0 0 = NaN"
  by (simp add: clampedScore_def js_nat_def Math_min_def Math_max_def)

lemma roundedScore_NaN: "roundedScore NaN = NaN"
  by (simp add: roundedScore_def)

lemma empty_run:
  "runQualityLint env st [] =
     Inr (finalize (finishedAt env) ((newQualityMetrics (startedAt env) st)\<lparr>totalPackages := 0\<rparr>) st)"
  by (simp add: runQualityLint_def Let_def)

lemma empty_run_score: "qualityScore (report_of (runQualityLint env st [])) = NaN"
  by (simp add: empty_run finalize_score calculateQualityScore_score newQualityMetrics_def
      clampedScore_none roundedScore_NaN)

lemma empty_run_fields:
  "returned (runQualityLint env st [])"
  "lintedPackages (report_of (runQualityLint env st [])) = 0"
  "previousScore (report_of (runQualityLint env st [])) = loadPreviousScore st"
  "reportFile (store_of (runQualityLint env st []))
     = Some (Report (report_of (runQualityLint env st [])))"
  "cacheFile (store_of (runQualityLint env st [])) = cacheFile st"
  by (simp_all add: empty_run returned_def finalize_fields finalize_store newQualityMetrics_def)

lemma main_returned:
  assumes "returned (runQualityLint env (snd (getLintablePackages fs now st))
             (fst (getLintablePackages fs now st)))"
  shows "main fs now env st =
     ((Some (report_of (runQualityLint env (snd (getLintablePackages fs now st))
                (fst (getLintablePackages fs now st)))),
       if js_less (qualityScore (report_of (runQualityLint env (snd (getLintablePackages fs now st))
                                       (fst (getLintablePackages fs now st))))) (Fin 70)
       then 1 else 0),
      store_of (runQualityLint env (snd (getLintablePackages fs now st))
        (fst (getLintablePackages fs now st))))"
  using assms by (auto simp: main_def returned_def split: prod.splits sum.splits)

lemma discover_empty_fs:
  "fst (getLintablePackages empty_fs now empty_store) = []"
  "reportFile (snd (getLintablePackages empty_fs now empty_store)) = None"
  "cacheFile (snd (getLintablePackages empty_fs now empty_store)) = Some (now, CachedPackages [])"
  by (simp_all add: getLintablePackages_def scanAndCache_def freshScan_def empty_fs_def
      empty_store_def Let_def)

lemma rediscover_empty_fs:
  assumes "cacheFile st = Some (t, CachedPackages [])"
  shows "fst (getLintablePackages empty_fs now st) = []"
    and "reportFile (snd (getLintablePackages empty_fs now st)) = reportFile st"
  using assms
  by (simp_all add: getLintablePackages_def scanAndCache_def freshScan_def empty_fs_def Let_def)

lemma main_empty:
  assumes "fst (getLintablePackages fs now st) = []"
  shows "main fs now env st =
     ((Some (report_of (runQualityLint env (snd (getLintablePackages fs now st)) [])),
       if js_less (qualityScore (report_of (runQualityLint env (snd (getLintablePackages fs now st)) [])))
            (Fin 70)
       then 1 else 0),
      store_of (runQualityLint env (snd (getLintablePackages fs now st)) []))"
  using main_returned [of env fs now st] assms by (simp add: empty_run_fields(1))

text \<open>
  C2. The score is not always a number between 0 and 100. On an empty package list
  \<open>runQualityLint\<close> finalizes at once with no package linted; the score is then
  \<open>0 / 0\<close> carried through \<open>Math.min\<close>, \<open>Math.max\<close> and \<open>Math.round\<close>, which is NaN.
  So it is for \<open>main\<close> on a workspace without a packages directory, which then exits
  with code 0.
\<close>

theorem empty_workspace_score:
  "returned (runQualityLint env st [])
   \<and> qualityScore (report_of (runQualityLint env st [])) = NaN
   \<and> \<not> score_in_range (qualityScore (report_of (runQualityLint env st [])))
   \<and> lintedPackages (report_of (runQualityLint env st [])) = 0
   \<and> map_option qualityScore (fst (fst (main empty_fs now env empty_store))) = Some NaN
   \<and> snd (fst (main empty_fs now env empty_store)) = 0"
  by (simp add: main_empty discover_empty_fs empty_run_score empty_run_fields)

text \<open>
  C8. The previous score is read by the constructor, before \<open>finalize\<close> overwrites the
  report file, and is 0 when there is no report file. After a first run over an empty
  workspace, though, the second run does not find the first run's score: the first score
  is NaN, the report file holds \<open>null\<close> for it, and the second run's previous score
  is 0, whatever packages the second run is given.
\<close>

theorem previous_score_after_empty_run:
  "map_option previousScore (fst (fst (main empty_fs now1 env1 empty_store))) = Some (Fin 0)
   \<and> map_option qualityScore (fst (fst (main empty_fs now1 env1 empty_store))) = Some NaN
   \<and> map_option previousScore
        (fst (fst (main empty_fs now2 env2 (snd (main empty_fs now1 env1 empty_store)))))
       = Some (Fin 0)
   \<and> map_option previousScore
        (fst (fst (main empty_fs now2 env2 (snd (main empty_fs now1 env1 empty_store)))))
       \<noteq> map_option qualityScore (fst (fst (main empty_fs now1 env1 empty_store)))
   \<and> previousScore (newQualityMetrics (startedAt env2) (store_of (runQualityLint env1 st [])))
       = Fin 0
   \<and> (case runQualityLint env2 (store_of (runQualityLint env1 st [])) ps2 of
         Inl e \<Rightarrow> True
       | Inr (r, s) \<Rightarrow> previousScore r = Fin 0)"
proof -
  let ?st1 = "snd (getLintablePackages empty_fs now1 empty_store)"
  let ?st2 = "store_of (runQualityLint env1 ?st1 [])"
  have m1: "main empty_fs now1 env1 empty_store
      = ((Some (report_of (runQualityLint env1 ?st1 [])),
          if js_less (qualityScore (report_of (runQualityLint env1 ?st1 []))) (Fin 70) then 1 else 0),
         ?st2)"
    by (simp add: main_empty discover_empty_fs)
  have c2: "cacheFile ?st2 = Some (now1, CachedPackages [])"
    by (simp add: empty_run_fields discover_empty_fs)
  have m2: "fst (fst (main empty_fs now2 env2 ?st2))
      = Some (report_of (runQualityLint env2 (snd (getLintablePackages empty_fs now2 ?st2)) []))"
    by (simp add: main_empty rediscover_empty_fs [OF c2])
  have r2: "reportFile (snd (getLintablePackages empty_fs now2 ?st2))
      = Some (Report (report_of (runQualityLint env1 ?st1 [])))"
    by (simp add: rediscover_empty_fs [OF c2] empty_run_fields)
  have p1: "previousScore (report_of (runQualityLint env1 ?st1 [])) = Fin 0"
    by (simp add: empty_run_fields loadPreviousScore_def discover_empty_fs)
  have p2: "previousScore (report_of (runQualityLint env2 (snd (getLintablePackages empty_fs now2 ?st2)) []))
      = Fin 0"
    by (simp add: empty_run_fields loadPreviousScore_def r2 empty_run_score)
  have l: "loadPreviousScore (store_of (runQualityLint env1 st [])) = Fin 0"
    by (simp add: loadPreviousScore_def empty_run_fields empty_run_score)
  then have p3: "previousScore (newQualityMetrics (startedAt env2) (store_of (runQualityLint env1 st [])))
       = Fin 0"
    by (simp add: newQualityMetrics_def)
  have p4: "(case runQualityLint env2 (store_of (runQualityLint env1 st [])) ps2 of
         Inl e \<Rightarrow> True
       | Inr (r, s) \<Rightarrow> previousScore r = Fin 0)"
  proof (cases "categorizePackages ps2")
    case (Inl e)
    then have "ps2 \<noteq> []" by (auto simp: categorizePackages_Nil)
    then show ?thesis using Inl by (simp add: runQualityLint_def Let_def)
  next
    case (Inr c)
    have "previousScore (report_of (runQualityLint env2 (store_of (runQualityLint env1 st [])) ps2))
        = Fin 0"
      by (simp add: run_fields(3) [OF Inr] l)
    then show ?thesis
      using run_returned [OF Inr, of env2 "store_of (runQualityLint env1 st [])"]
      by (auto simp: returned_def split: sum.splits)
  qed
  show ?thesis
    unfolding m1 m2 fst_conv snd_conv
    using p1 p2 p3 p4 by (simp add: empty_run_score)
qed

section \<open>Properties of discovery and its cache\<close>

lemma example_freshScan: "freshScan example_fs = example_scan"
  by (simp add: freshScan_def example_fs_def example_tree_def example_manifests_def example_scan_def
      PACKAGES_DIR_def path_join_def existsIn_def Let_def)

lemma scanAndCache_sel:
  "fst (scanAndCache fs now st) = freshScan fs"
  "snd (scanAndCache fs now st) = st\<lparr>cacheFile := Some (now, CachedPackages (freshScan fs))\<rparr>"
  by (simp_all add: scanAndCache_def Let_def)

lemma discovery_fresh_cache:
  "cacheFile st = Some (mtime, CachedPackages ps) \<Longrightarrow> int now - int mtime < 3600000
     \<Longrightarrow> getLintablePackages fs now st = (ps, st)"
  by (simp add: getLintablePackages_def CACHE_TTL_def Let_def)

lemma discovery_stale_cache:
  "cacheFile st = Some (mtime, content) \<Longrightarrow> \<not> int now - int mtime < 3600000
     \<Longrightarrow> getLintablePackages fs now st = scanAndCache fs now st"
  by (simp add: getLintablePackages_def CACHE_TTL_def Let_def)

lemma discovery_corrupt_cache:
  "cacheFile st = Some (mtime, CorruptCache)
     \<Longrightarrow> getLintablePackages fs now st = scanAndCache fs now st"
  by (simp add: getLintablePackages_def Let_def)

lemma discovery_no_cache:
  "cacheFile st = None \<Longrightarrow> getLintablePackages fs now st = scanAndCache fs now st"
  by (simp add: getLintablePackages_def)

lemma discovery_after_write:
  "int now' - int now < 3600000
     \<Longrightarrow> getLintablePackages fs' now' (snd (scanAndCache fs now st))
           = (freshScan fs, snd (scanAndCache fs now st))"
  by (rule discovery_fresh_cache [where mtime = now]) (simp_all add: scanAndCache_sel)

lemma discovery_again:
  "getLintablePackages fs' now (snd (getLintablePackages fs now st)) = getLintablePackages fs now st"
proof (cases "cacheFile st")
  case None
  then show ?thesis
    using discovery_after_write [of now now fs' fs st]
    by (simp add: discovery_no_cache scanAndCache_def Let_def)
next
  case (Some c)
  obtain mtime content where c: "c = (mtime, content)" by (cases c)
  show ?thesis
  proof (cases "int now - int mtime < 3600000")
    case fresh: True
    show ?thesis
    proof (cases content)
      case CorruptCache
      then show ?thesis
        using Some c discovery_after_write [of now now fs' fs st]
        by (simp add: discovery_corrupt_cache scanAndCache_def Let_def)
    next
      case (CachedPackages ps)
      then show ?thesis
        using Some c fresh by (simp add: discovery_fresh_cache)
    qed
  next
    case False
    then show ?thesis
      using Some c discovery_after_write [of now now fs' fs st]
      by (simp add: discovery_stale_cache scanAndCache_def Let_def)
  qed
qed

text \<open>
  C9. When the cache file is younger than one hour and its content parses, discovery
  returns the cached list whatever the file system holds, and writes nothing. When the
  content does not parse, or there is no cache file, the result is that of a fresh scan,
  which is written to the cache. A discovery that follows a cache write within the hour,
  in particular at once, returns the list that was written, even on another file
  system; a second discovery at the same instant returns what the first did.
\<close>

theorem discovery_cache:
  "(\<forall>mtime ps. cacheFile st = Some (mtime, CachedPackages ps) \<and> int now - int mtime < 3600000
       \<longrightarrow> getLintablePackages fs now st = (ps, st))
   \<and> (\<forall>mtime. cacheFile st = Some (mtime, CorruptCache)
       \<longrightarrow> getLintablePackages fs now st
             = (freshScan fs, st\<lparr>cacheFile := Some (now, CachedPackages (freshScan fs))\<rparr>))
   \<and> (cacheFile st = None
       \<longrightarrow> getLintablePackages fs now st
             = (freshScan fs, st\<lparr>cacheFile := Some (now, CachedPackages (freshScan fs))\<rparr>))
   \<and> fst (scanAndCache fs now st) = freshScan fs
   \<and> cacheFile (snd (scanAndCache fs now st)) = Some (now, CachedPackages (freshScan fs))
   \<and> getLintablePackages fs' now (snd (scanAndCache fs now st))
       = (freshScan fs, snd (scanAndCache fs now st))
   \<and> (\<forall>now'. int now' - int now < 3600000
       \<longrightarrow> getLintablePackages fs' now' (snd (scanAndCache fs now st))
             = (freshScan fs, snd (scanAndCache fs now st)))
   \<and> getLintablePackages fs' now (snd (getLintablePackages fs now st))
       = getLintablePackages fs now st"
proof -
  have "getLintablePackages fs' now (snd (scanAndCache fs now st))
       = (freshScan fs, snd (scanAndCache fs now st))"
    by (rule discovery_after_write) simp
  then show ?thesis
    using discovery_again [of fs' now fs st]
    by (auto simp: discovery_fresh_cache discovery_corrupt_cache discovery_no_cache
        discovery_after_write scanAndCache_sel)
qed

text \<open>
  A cache written 1000 ms ago is returned on an empty file system; a corrupt one and a
  missing one give the scan of the example tree; and after that scan a discovery 5 ms
  later on the empty file system still returns the list that was written.
\<close>

theorem discovery_cache_witness:
  "getLintablePackages empty_fs 2000 (cached_store 1000 (CachedPackages example_scan))
     = (example_scan, cached_store 1000 (CachedPackages example_scan))
   \<and> getLintablePackages example_fs 2000 (cached_store 1000 CorruptCache)
     = (example_scan, cached_store 2000 (CachedPackages example_scan))
   \<and> getLintablePackages example_fs 2000 empty_store
     = (example_scan, cached_store 2000 (CachedPackages example_scan))
   \<and> getLintablePackages empty_fs 2005 (snd (scanAndCache example_fs 2000 empty_store))
     = (example_scan, cached_store 2000 (CachedPackages example_scan))"
  using discovery_cache [of "cached_store 1000 (CachedPackages example_scan)" 2000 empty_fs empty_fs]
    discovery_cache [of "cached_store 1000 CorruptCache" 2000 example_fs empty_fs]
    discovery_cache [of empty_store 2000 example_fs empty_fs]
  by (simp add: cached_store_def empty_store_def example_freshScan scanAndCache_sel)

section \<open>Properties of the gate\<close>

lemma addCheck_checks:
  "checks (addCheck r n p msg sc)
     = checks r @ [\<lparr>check_name = n, check_passed = p, message = msg, check_score = sc\<rparr>]"
  by (simp add: addCheck_def Let_def)

lemma addCheck_recommendations:
  "recommendations (addCheck r n p msg sc)
     = (if p then recommendations r else recommendations r @ [''Fix: '' @ n @ '' - '' @ msg])"
  by (simp add: addCheck_def Let_def)

lemma checkLintQuality_names:
  "map check_name (checks (checkLintQuality env r)) = map check_name (checks r) @ lintNames env"
  by (simp add: checkLintQuality_def lintNames_def lintOutcome_def lintQualityFailed_def
      addCheck_checks Let_def split: outcome.splits)

lemma checkTypeScript_names:
  "map check_name (checks (checkTypeScript env r)) = map check_name (checks r) @ [''TypeScript'']"
  by (simp add: checkTypeScript_def addCheck_checks split: outcome.splits)

lemma checkSecurity_names:
  "map check_name (checks (checkSecurity env r)) = map check_name (checks r) @ [''Security Scan'']"
  by (simp add: checkSecurity_def addCheck_checks Let_def split: outcome.splits)

lemma checkFormatting_names:
  "map check_name (checks (checkFormatting env r)) = map check_name (checks r) @ [''Formatting'']"
  by (simp add: checkFormatting_def addCheck_checks split: outcome.splits)

lemma checkTodoComments_names:
  "map check_name (checks (checkTodoComments env r)) = map check_name (checks r) @ [''TODO Comments'']"
  by (simp add: checkTodoComments_def addCheck_checks split: outcome.splits)

lemma checkDependencies_names:
  "map check_name (checks (checkDependencies env r)) = map check_name (checks r) @ [''Dependencies'']"
  by (simp add: checkDependencies_def addCheck_checks Let_def split: outcome.splits)

lemma checkBuild_names:
  "map check_name (checks (checkBuild env r)) = map check_name (checks r) @ [''Build'']"
  by (simp add: checkBuild_def addCheck_checks split: outcome.splits)

lemma runChecks_names:
  "map check_name (checks (runChecks env))
     = lintNames env @ [''TypeScript'', ''Security Scan'', ''Formatting'', ''TODO Comments'',
         ''Dependencies''] @ (if includeBuild env then [''Build''] else [])"
  by (simp add: runChecks_def Let_def checkLintQuality_names checkTypeScript_names
      checkSecurity_names checkFormatting_names checkTodoComments_names checkDependencies_names
      checkBuild_names newQualityGate_def)

lemma calculateScore_checks: "checks (calculateScore r) = checks r"
  by (simp add: calculateScore_def Let_def)

lemma calculateScore_score:
  "score (calculateScore r) = roundedPercentage (passedCount r) (totalCount r)"
  by (simp add: calculateScore_def Let_def passedCount_def totalCount_def)

lemma calculateScore_passed:
  "passed (calculateScore r) = js_ge (score (calculateScore r)) (Fin 85)"
  by (simp add: calculateScore_def Let_def)

text \<open>
  The score in doubles on the list lengths a gate run produces, six to nine checks: for
  every number of passed checks it is the exact percentage rounded to the nearest
  integer.
\<close>

lemma gate_score_6:
  "roundedPercentage 0 6 = Fin (of_int (spec_gateScore 0 6))
   \<and> roundedPercentage 1 6 = Fin (of_int (spec_gateScore 1 6))
   \<and> roundedPercentage 2 6 = Fin (of_int (spec_gateScore 2 6))
   \<and> roundedPercentage 3 6 = Fin (of_int (spec_gateScore 3 6))
   \<and> roundedPercentage 4 6 = Fin (of_int (spec_gateScore 4 6))
   \<and> roundedPercentage 5 6 = Fin (of_int (spec_gateScore 5 6))
   \<and> roundedPercentage 6 6 = Fin (of_int (spec_gateScore 6 6))"
  by (simp add: roundedPercentage_def js_nat_def spec_gateScore_def round_half_up_def
      to_double_eval floor_half)

lemma gate_score_7:
  "roundedPercentage 0 7 = Fin (of_int (spec_gateScore 0 7))
   \<and> roundedPercentage 1 7 = Fin (of_int (spec_gateScore 1 7))
   \<and> roundedPercentage 2 7 = Fin (of_int (spec_gateScore 2 7))
   \<and> roundedPercentage 3 7 = Fin (of_int (spec_gateScore 3 7))
   \<and> roundedPercentage 4 7 = Fin (of_int (spec_gateScore 4 7))
   \<and> roundedPercentage 5 7 = Fin (of_int (spec_gateScore 5 7))
   \<and> roundedPercentage 6 7 = Fin (of_int (spec_gateScore 6 7))
   \<and> roundedPercentage 7 7 = Fin (of_int (spec_gateScore 7 7))"
  by (simp add: roundedPercentage_def js_nat_def spec_gateScore_def round_half_up_def
      to_double_eval floor_half)

lemma gate_score_8:
  "roundedPercentage 0 8 = Fin (of_int (spec_gateScore 0 8))
   \<and> roundedPercentage 1 8 = Fin (of_int (spec_gateScore 1 8))
   \<and> roundedPercentage 2 8 = Fin (of_int (spec_gateScore 2 8))
   \<and> roundedPercentage 3 8 = Fin (of_int (spec_gateScore 3 8))
   \<and> roundedPercentage 4 8 = Fin (of_int (spec_gateScore 4 8))
   \<and> roundedPercentage 5 8 = Fin (of_int (spec_gateScore 5 8))
   \<and> roundedPercentage 6 8 = Fin (of_int (spec_gateScore 6 8))
   \<and> roundedPercentage 7 8 = Fin (of_int (spec_gateScore 7 8))
   \<and> roundedPercentage 8 8 = Fin (of_int (spec_gateScore 8 8))"
  by (simp add: roundedPercentage_def js_nat_def spec_gateScore_def round_half_up_def
      to_double_eval floor_half)

lemma gate_score_9:
  "roundedPercentage 0 9 = Fin (of_int (spec_gateScore 0 9))
   \<and> roundedPercentage 1 9 = Fin (of_int (spec_gateScore 1 9))
   \<and> roundedPercentage 2 9 = Fin (of_int (spec_gateScore 2 9))
   \<and> roundedPercentage 3 9 = Fin (of_int (spec_gateScore 3 9))
   \<and> roundedPercentage 4 9 = Fin (of_int (spec_gateScore 4 9))
   \<and> roundedPercentage 5 9 = Fin (of_int (spec_gateScore 5 9))
   \<and> roundedPercentage 6 9 = Fin (of_int (spec_gateScore 6 9))
   \<and> roundedPercentage 7 9 = Fin (of_int (spec_gateScore 7 9))
   \<and> roundedPercentage 8 9 = Fin (of_int (spec_gateScore 8 9))
   \<and> roundedPercentage 9 9 = Fin (of_int (spec_gateScore 9 9))"
  by (simp add: roundedPercentage_def js_nat_def spec_gateScore_def round_half_up_def
      to_double_eval floor_half)

lemma gate_score_exact:
  assumes "6 \<le> t" "t \<le> 9" "p \<le> t"
  shows "roundedPercentage p t = Fin (of_int (spec_gateScore p t))"
proof -
  consider "t = 6" | "t = 7" | "t = 8" | "t = 9" using assms by linarith
  then show ?thesis
  proof cases
    case 1
    then have "p = 0 \<or> p = 1 \<or> p = 2 \<or> p = 3 \<or> p = 4 \<or> p = 5 \<or> p = 6"
      using assms(3) by presburger
    then show ?thesis unfolding 1 by (elim disjE) (simp_all only: gate_score_6)
  next
    case 2
    then have "p = 0 \<or> p = 1 \<or> p = 2 \<or> p = 3 \<or> p = 4 \<or> p = 5 \<or> p = 6 \<or> p = 7"
      using assms(3) by presburger
    then show ?thesis unfolding 2 by (elim disjE) (simp_all only: gate_score_7)
  next
    case 3
    then have "p = 0 \<or> p = 1 \<or> p = 2 \<or> p = 3 \<or> p = 4 \<or> p = 5 \<or> p = 6 \<or> p = 7
        \<or> p = 8"
      using assms(3) by presburger
    then show ?thesis unfolding 3 by (elim disjE) (simp_all only: gate_score_8)
  next
    case 4
    then have "p = 0 \<or> p = 1 \<or> p = 2 \<or> p = 3 \<or> p = 4 \<or> p = 5 \<or> p = 6 \<or> p = 7
        \<or> p = 8 \<or> p = 9"
      using assms(3) by presburger
    then show ?thesis unfolding 4 by (elim disjE) (simp_all only: gate_score_9)
  qed
qed

lemma runChecks_nonempty: "checks (runChecks env) \<noteq> []"
proof
  assume "checks (runChecks env) = []"
  then have "map check_name (checks (runChecks env)) = []" by simp
  then show False unfolding runChecks_names by simp
qed

lemma runAllChecks_counts:
  "passedCount (runAllChecks env) = passedCount (runChecks env)"
  "totalCount (runAllChecks env) = totalCount (runChecks env)"
  by (simp_all add: runAllChecks_def passedCount_def totalCount_def calculateScore_checks)

lemma runChecks_total:
  "totalCount (runChecks env) = length (lintNames env) + 5 + (if includeBuild env then 1 else 0)"
proof -
  have "totalCount (runChecks env) = length (map check_name (checks (runChecks env)))"
    by (simp add: totalCount_def)
  then show ?thesis unfolding runChecks_names by simp
qed

lemma lintNames_length: "length (lintNames env) = 1 \<or> length (lintNames env) = 3"
  by (simp add: lintNames_def split: outcome.splits)

lemma runChecks_total_range:
  "6 \<le> totalCount (runChecks env)" "totalCount (runChecks env) \<le> 9"
  using lintNames_length [of env] by (auto simp: runChecks_total)

lemma passedCount_le: "passedCount r \<le> totalCount r"
  by (simp add: passedCount_def totalCount_def)

lemma runAllChecks_score:
  "score (runAllChecks env)
     = Fin (of_int (spec_gateScore (passedCount (runChecks env)) (totalCount (runChecks env))))"
  unfolding runAllChecks_def calculateScore_score
  by (rule gate_score_exact [OF runChecks_total_range passedCount_le])

lemma runAllChecks_passed:
  "passed (runAllChecks env)
     = (85 \<le> spec_gateScore (passedCount (runChecks env)) (totalCount (runChecks env)))"
proof -
  have "passed (runAllChecks env) = js_ge (score (runAllChecks env)) (Fin 85)"
    unfolding runAllChecks_def by (rule calculateScore_passed)
  then show ?thesis unfolding runAllChecks_score by (simp add: js_ge_def not_less)
qed

text \<open>Exactly 85 percent and exactly 84 percent, on a list of any length.\<close>

lemma double_17_20: "Math_round (js_mul (to_double (17 / 20)) (Fin 100)) = Fin 85"
  by (simp add: to_double_eval round_half_up_def floor_rat_numeral)

lemma double_21_25: "Math_round (js_mul (to_double (21 / 25)) (Fin 100)) = Fin 84"
  by (simp add: to_double_eval round_half_up_def floor_rat_numeral)

lemma quotient_percent:
  assumes "0 < t" "100 * p = k * t"
  shows "(of_nat p / of_nat t :: rat) = of_nat k / 100"
proof -
  have "(100 * of_nat p :: rat) = of_nat (100 * p)" by simp
  also have "\<dots> = of_nat k * of_nat t" unfolding assms(2) by simp
  finally show ?thesis using assms(1) by (simp add: field_simps)
qed

lemma percentage_85:
  assumes "0 < t" "100 * p = 85 * t"
  shows "roundedPercentage p t = Fin 85"
proof -
  have q: "(of_nat p / of_nat t :: rat) = 17 / 20" using quotient_percent [OF assms] by simp
  have "js_div (js_nat p) (js_nat t) = to_double (of_nat p / of_nat t)"
    using assms(1) by (simp add: js_nat_def)
  then have "js_div (js_nat p) (js_nat t) = to_double (17 / 20)" by (simp only: q)
  then show ?thesis unfolding roundedPercentage_def by (simp only: double_17_20)
qed

lemma percentage_84:
  assumes "0 < t" "100 * p = 84 * t"
  shows "roundedPercentage p t = Fin 84"
proof -
  have q: "(of_nat p / of_nat t :: rat) = 21 / 25" using quotient_percent [OF assms] by simp
  have "js_div (js_nat p) (js_nat t) = to_double (of_nat p / of_nat t)"
    using assms(1) by (simp add: js_nat_def)
  then have "js_div (js_nat p) (js_nat t) = to_double (21 / 25)" by (simp only: q)
  then show ?thesis unfolding roundedPercentage_def by (simp only: double_21_25)
qed

text \<open>
  On longer lists the doubles can round differently from the exact percentage:
  23 passed checks of 40 are 57.5 percent, which rounds to 58, while
  \<open>23 / 40 * 100\<close> in doubles is just below 57.5 and rounds to 57. No gate run has so
  many checks.
\<close>

lemma percentage_23_of_40:
  "roundedPercentage 23 40 = Fin 57 \<and> spec_gateScore 23 40 = 58"
  by (simp add: roundedPercentage_def js_nat_def spec_gateScore_def round_half_up_def
      to_double_eval floor_rat_numeral)

text \<open>
  C3. After the gate has run its checks the score is \<open>round(100 * passedChecks /
  totalChecks)\<close> over the checks on the list, and the verdict is passed exactly when
  that score is at least 85. The list holds the lint checks (three, or one when the lint
  report cannot be had), the five other checks and, exactly when \<open>--include-build\<close> is
  on the command line, the build check: six to nine checks, on which the doubles of
  \<open>Math.round((passedChecks / totalChecks) * 100)\<close> give the exactly rounded
  percentage. On a list of any length the verdict of \<open>calculateScore\<close> is whether its
  score is at least 85, and a list with exactly 85 percent of its checks passing gets the
  score 85 and is accepted, one with exactly 84 percent gets 84 and is rejected.
\<close>

theorem gate_score_and_verdict:
  "score (runAllChecks env)
     = Fin (of_int (spec_gateScore (passedCount (runAllChecks env)) (totalCount (runAllChecks env))))
   \<and> passed (runAllChecks env)
     = (85 \<le> spec_gateScore (passedCount (runAllChecks env)) (totalCount (runAllChecks env)))
   \<and> totalCount (runAllChecks env)
     = length (lintNames env) + 5 + (if ''--include-build'' \<in> set (argv env) then 1 else 0)
   \<and> map check_name (checks (runAllChecks env))
     = lintNames env @ [''TypeScript'', ''Security Scan'', ''Formatting'', ''TODO Comments'',
         ''Dependencies''] @ (if ''--include-build'' \<in> set (argv env) then [''Build''] else [])
   \<and> (''Build'' \<in> set (map check_name (checks (runAllChecks env))))
     = (''--include-build'' \<in> set (argv env))
   \<and> (\<forall>r. score (calculateScore r) = roundedPercentage (passedCount r) (totalCount r)
          \<and> passed (calculateScore r) = js_ge (score (calculateScore r)) (Fin 85))
   \<and> (\<forall>r. checks r \<noteq> [] \<and> 100 * passedCount r = 85 * totalCount r
         \<longrightarrow> score (calculateScore r) = Fin 85 \<and> passed (calculateScore r))
   \<and> (\<forall>r. checks r \<noteq> [] \<and> 100 * passedCount r = 84 * totalCount r
         \<longrightarrow> score (calculateScore r) = Fin 84 \<and> \<not> passed (calculateScore r))"
proof -
  have a: "score (runAllChecks env)
     = Fin (of_int (spec_gateScore (passedCount (runAllChecks env)) (totalCount (runAllChecks env))))"
    unfolding runAllChecks_counts by (rule runAllChecks_score)
  have b: "passed (runAllChecks env)
     = (85 \<le> spec_gateScore (passedCount (runAllChecks env)) (totalCount (runAllChecks env)))"
    unfolding runAllChecks_counts by (rule runAllChecks_passed)
  have t: "totalCount (runAllChecks env)
     = length (lintNames env) + 5 + (if ''--include-build'' \<in> set (argv env) then 1 else 0)"
    by (simp add: runAllChecks_counts runChecks_total includeBuild_def)
  have c: "map check_name (checks (runAllChecks env))
     = lintNames env @ [''TypeScript'', ''Security Scan'', ''Formatting'', ''TODO Comments'',
         ''Dependencies''] @ (if ''--include-build'' \<in> set (argv env) then [''Build''] else [])"
    by (simp add: runAllChecks_def calculateScore_checks runChecks_names includeBuild_def)
  have d: "(''Build'' \<in> set (map check_name (checks (runAllChecks env))))
     = (''--include-build'' \<in> set (argv env))"
    unfolding c by (simp add: lintNames_def split: outcome.splits)
  have e: "score (calculateScore r) = Fin 85 \<and> passed (calculateScore r)"
    if "checks r \<noteq> []" and "100 * passedCount r = 85 * totalCount r" for r
  proof -
    have "0 < totalCount r" using that(1) by (simp add: totalCount_def)
    then have "score (calculateScore r) = Fin 85"
      unfolding calculateScore_score using that(2) by (rule percentage_85)
    then show ?thesis by (simp add: calculateScore_passed js_ge_def)
  qed
  have f: "score (calculateScore r) = Fin 84 \<and> \<not> passed (calculateScore r)"
    if "checks r \<noteq> []" and "100 * passedCount r = 84 * totalCount r" for r
  proof -
    have "0 < totalCount r" using that(1) by (simp add: totalCount_def)
    then have "score (calculateScore r) = Fin 84"
      unfolding calculateScore_score using that(2) by (rule percentage_84)
    then show ?thesis by (simp add: calculateScore_passed js_ge_def)
  qed
  show ?thesis
    using a b t c d e f calculateScore_score calculateScore_passed by blast
qed

lemma results_with_counts:
  "passedCount (results_with p f) = p" "totalCount (results_with p f) = p + f"
  "(checks (results_with p f) \<noteq> []) = (0 < p + f)"
  by (auto simp: results_with_def passedCount_def totalCount_def passing_check_def
      failing_check_def newQualityGate_def)

text \<open>
  Seventeen checks of twenty passing (85 percent) pass the gate with score 85;
  twenty-one of twenty-five (84 percent) fail it with score 84.
\<close>

theorem gate_score_and_verdict_witness:
  "passed (calculateScore (results_with 17 3))
   \<and> score (calculateScore (results_with 17 3)) = Fin 85
   \<and> \<not> passed (calculateScore (results_with 21 4))
   \<and> score (calculateScore (results_with 21 4)) = Fin 84
   \<and> ''Build'' \<notin> set (map check_name (checks (runAllChecks clean_gate_env)))"
proof -
  have h: "''--include-build'' \<notin> set (argv clean_gate_env)"
    by (simp add: clean_gate_env_def)
  note t = gate_score_and_verdict [of clean_gate_env]
  have p85: "checks (results_with 17 3) \<noteq> []
      \<and> 100 * passedCount (results_with 17 3) = 85 * totalCount (results_with 17 3)"
    by (simp add: results_with_counts)
  have p84: "checks (results_with 21 4) \<noteq> []
      \<and> 100 * passedCount (results_with 21 4) = 84 * totalCount (results_with 21 4)"
    by (simp add: results_with_counts)
  have "score (calculateScore (results_with 17 3)) = Fin 85
      \<and> passed (calculateScore (results_with 17 3))"
    using t p85 by blast
  moreover have "score (calculateScore (results_with 21 4)) = Fin 84
      \<and> \<not> passed (calculateScore (results_with 21 4))"
    using t p84 by blast
  moreover have "''Build'' \<notin> set (map check_name (checks (runAllChecks clean_gate_env)))"
    using t h by blast
  ultimately show ?thesis by blast
qed

section \<open>Properties of the checkers\<close>

lemma checkLintQuality_passed:
  "map check_passed (checks (checkLintQuality env r))
     = map check_passed (checks r) @
       (case lintOutcome env of
          Throws msg \<Rightarrow> [False]
        | Returns report \<Rightarrow>
            [js_ge (to_number (report_qualityScore report)) (Fin 80),
             js_le (to_number (report_errors report)) (Fin 0),
             js_le (to_number (report_warnings report)) (Fin 10)])"
  by (simp add: checkLintQuality_def lintOutcome_def lintQualityFailed_def addCheck_checks
      Let_def minQualityScore_def maxErrors_def maxWarnings_def split: outcome.splits)

lemma checkTypeScript_passed:
  "map check_passed (checks (checkTypeScript env r))
     = map check_passed (checks r) @ [\<not> throws (typecheck env)]"
  by (simp add: checkTypeScript_def addCheck_checks split: outcome.splits)

lemma checkSecurity_passed:
  "map check_passed (checks (checkSecurity env r))
     = map check_passed (checks r) @
       [case findSources env of
          Throws msg \<Rightarrow> False
        | Returns out \<Rightarrow>
            countSecurityIssues env 0 (filter (\<lambda>f. f \<noteq> []) (split_lines out)) = 0]"
  by (simp add: checkSecurity_def addCheck_checks Let_def split: outcome.splits)

lemma checkFormatting_passed:
  "map check_passed (checks (checkFormatting env r))
     = map check_passed (checks r) @ [\<not> throws (formatCheck env)]"
  by (simp add: checkFormatting_def addCheck_checks split: outcome.splits)

lemma checkTodoComments_passed:
  "map check_passed (checks (checkTodoComments env r))
     = map check_passed (checks r) @
       [case countTodos env of Throws msg \<Rightarrow> True | Returns n \<Rightarrow> js_less n (Fin 50)]"
  by (simp add: checkTodoComments_def addCheck_checks split: outcome.splits)

lemma checkDependencies_passed:
  "map check_passed (checks (checkDependencies env r))
     = map check_passed (checks r) @ [\<not> throws (audit env)]"
  by (simp add: checkDependencies_def addCheck_checks Let_def split: outcome.splits)

lemma checkBuild_passed:
  "map check_passed (checks (checkBuild env r))
     = map check_passed (checks r) @ [\<not> throws (build env)]"
  by (simp add: checkBuild_def addCheck_checks split: outcome.splits)

lemma runChecks_passed:
  "map check_passed (checks (runChecks env))
     = (case lintOutcome env of
          Throws msg \<Rightarrow> [False]
        | Returns report \<Rightarrow>
            [js_ge (to_number (report_qualityScore report)) (Fin 80),
             js_le (to_number (report_errors report)) (Fin 0),
             js_le (to_number (report_warnings report)) (Fin 10)])
       @ [\<not> throws (typecheck env),
          (case findSources env of
             Throws msg \<Rightarrow> False
           | Returns out \<Rightarrow>
               countSecurityIssues env 0 (filter (\<lambda>f. f \<noteq> []) (split_lines out)) = 0),
          \<not> throws (formatCheck env),
          (case countTodos env of Throws msg \<Rightarrow> True | Returns n \<Rightarrow> js_less n (Fin 50)),
          \<not> throws (audit env)]
       @ (if includeBuild env then [\<not> throws (build env)] else [])"
  by (simp add: runChecks_def Let_def checkLintQuality_passed checkTypeScript_passed
      checkSecurity_passed checkFormatting_passed checkTodoComments_passed
      checkDependencies_passed checkBuild_passed newQualityGate_def)

lemma passedCount_map:
  "passedCount r = length (filter (\<lambda>b. b) (map check_passed (checks r)))"
  by (simp add: passedCount_def filter_map comp_def)

lemma clean_gate_env_sel:
  "argv clean_gate_env = [''node'', ''scripts/quality-gate.mjs'']"
  "lintOutcome clean_gate_env
     = Returns \<lparr>report_qualityScore = Some 95, report_errors = Some 0, report_warnings = Some 3\<rparr>"
  "typecheck clean_gate_env = Returns ()"
  "findSources clean_gate_env = Returns ''packages/a.ts''"
  "formatCheck clean_gate_env = Returns ()"
  "countTodos clean_gate_env = Returns (Fin 12)"
  "audit clean_gate_env = Returns ()"
  by (simp_all add: clean_gate_env_def lintOutcome_def)

lemma todo_throwing_env_sel:
  "includeBuild todo_throwing_env = False"
  "lintOutcome todo_throwing_env
     = Returns \<lparr>report_qualityScore = Some 95, report_errors = Some 0, report_warnings = Some 3\<rparr>"
  "typecheck todo_throwing_env = Returns ()"
  "findSources todo_throwing_env = Returns ''packages/a.ts''"
  "formatCheck todo_throwing_env = Returns ()"
  "countTodos todo_throwing_env = Throws ''spawnSync /bin/sh ENOENT''"
  "audit todo_throwing_env = Returns ()"
  by (simp_all add: todo_throwing_env_def clean_gate_env_def lintOutcome_def includeBuild_def)

lemma todo_throwing_env_security:
  "countSecurityIssues todo_throwing_env 0 [''packages/a.ts''] = 0"
  by (simp add: todo_throwing_env_def clean_gate_env_def)

lemma source_list: "filter (\<lambda>f. f \<noteq> []) (split_lines ''packages/a.ts'') = [''packages/a.ts'']"
  by simp

lemma todo_throwing_passed:
  "map check_passed (checks (runChecks todo_throwing_env))
     = [True, True, True, True, True, True, True, True]"
  unfolding runChecks_passed todo_throwing_env_sel outcome.case source_list
    todo_throwing_env_security
  by (simp add: js_ge_def js_le_def)

text \<open>
  C7, as the claim states it, fails for the TODO-comment checker: when its command
  throws, the check it records has passed = true and a fixed message without the
  exception's detail, and the gate run passes with all eight checks counted as passed.
\<close>

theorem todo_checker_exception_passes:
  "countTodos todo_throwing_env = Throws ''spawnSync /bin/sh ENOENT''
   \<and> checks (checkTodoComments todo_throwing_env newQualityGate)
       = [gate_check_of ''TODO Comments'' True ''Unable to check TODO comments'']
   \<and> \<not> sublist ''spawnSync /bin/sh ENOENT'' ''Unable to check TODO comments''
   \<and> map check_passed (checks (runAllChecks todo_throwing_env))
       = [True, True, True, True, True, True, True, True]
   \<and> passed (runAllChecks todo_throwing_env)"
proof -
  have a: "checks (checkTodoComments todo_throwing_env newQualityGate)
       = [gate_check_of ''TODO Comments'' True ''Unable to check TODO comments'']"
    by (simp add: checkTodoComments_def todo_throwing_env_sel addCheck_checks gate_check_of_def
        newQualityGate_def)
  have b: "\<not> sublist ''spawnSync /bin/sh ENOENT'' ''Unable to check TODO comments''"
    unfolding str_includes_sublist [symmetric] by simp
  have c: "map check_passed (checks (runAllChecks todo_throwing_env))
       = [True, True, True, True, True, True, True, True]"
    by (simp add: runAllChecks_def calculateScore_checks todo_throwing_passed)
  have "length (map check_passed (checks (runChecks todo_throwing_env))) = 8"
    unfolding todo_throwing_passed by simp
  then have "totalCount (runChecks todo_throwing_env) = 8"
    by (simp add: totalCount_def)
  moreover have "passedCount (runChecks todo_throwing_env) = 8"
    by (simp add: passedCount_map todo_throwing_passed)
  moreover have "spec_gateScore 8 8 = 100"
    by (simp add: spec_gateScore_def round_half_up_def floor_eq_iff)
  ultimately have d: "passed (runAllChecks todo_throwing_env)"
    by (simp add: runAllChecks_passed)
  show ?thesis
    using a b c d by (simp add: todo_throwing_env_sel)
qed

lemma countSecurityIssues_unreadable:
  "readSource env f = None
     \<Longrightarrow> countSecurityIssues env n (f # rest) = countSecurityIssues env n rest"
  by simp

lemma countSecurityIssues_readable:
  "countSecurityIssues env n files
     = countSecurityIssues env n (filter (\<lambda>f. readSource env f \<noteq> None) files)"
  by (induction files arbitrary: n) (auto split: option.splits)

lemma checkSecurity_returns:
  "findSources env = Returns out \<Longrightarrow>
   checks (checkSecurity env r)
     = checks r @
       [gate_check_of ''Security Scan''
          (countSecurityIssues env 0
             (filter (\<lambda>f. readSource env f \<noteq> None) (filter (\<lambda>f. f \<noteq> []) (split_lines out))) = 0)
          (if countSecurityIssues env 0
                (filter (\<lambda>f. readSource env f \<noteq> None) (filter (\<lambda>f. f \<noteq> []) (split_lines out))) = 0
           then ''No security issues detected''
           else numToString env (js_nat (countSecurityIssues env 0
                  (filter (\<lambda>f. readSource env f \<noteq> None) (filter (\<lambda>f. f \<noteq> []) (split_lines out)))))
                @ '' potential security issues found'')]"
  unfolding countSecurityIssues_readable [symmetric]
  by (simp add: checkSecurity_def addCheck_checks gate_check_of_def Let_def)

text \<open>
  C7, amended. Every checker catches the exception of its command and records exactly
  one check instead, so that the run always comes to its verdict with every checker's
  checks on the list. The recorded check has passed = false for lint quality (the lint
  run, or reading and parsing its report, throws), TypeScript, security (the command
  that lists the source files throws), formatting and the dependency audit, and
  passed = true for the TODO comments. Its message carries the exception's message for
  lint quality and for the file listing of security; the other four record a fixed text.
  An exception while the security checker reads one of the listed files is caught inside
  the scan loop and leads to no check of its own: the file is skipped, the one check of
  the scan is decided by the files that can be read, and it passes when none of the
  listed files can be read.
\<close>

theorem checker_exceptions_caught:
  "(lintOutcome env = Throws msg
      \<longrightarrow> checks (checkLintQuality env r)
            = checks r @ [gate_check_of ''Lint Quality'' False (''Failed to check lint quality: '' @ msg)])
   \<and> (typecheck env = Throws msg
      \<longrightarrow> checks (checkTypeScript env r)
            = checks r @ [gate_check_of ''TypeScript'' False ''TypeScript compilation errors detected''])
   \<and> (findSources env = Throws msg
      \<longrightarrow> checks (checkSecurity env r)
            = checks r @ [gate_check_of ''Security Scan'' False (''Security check failed: '' @ msg)])
   \<and> (readSource env f = None
      \<longrightarrow> countSecurityIssues env n (f # rest) = countSecurityIssues env n rest)
   \<and> (findSources env = Returns out
      \<longrightarrow> checks (checkSecurity env r)
            = checks r @
              [gate_check_of ''Security Scan''
                 (countSecurityIssues env 0
                    (filter (\<lambda>f. readSource env f \<noteq> None)
                       (filter (\<lambda>f. f \<noteq> []) (split_lines out))) = 0)
                 (if countSecurityIssues env 0
                       (filter (\<lambda>f. readSource env f \<noteq> None)
                          (filter (\<lambda>f. f \<noteq> []) (split_lines out))) = 0
                  then ''No security issues detected''
                  else numToString env (js_nat (countSecurityIssues env 0
                         (filter (\<lambda>f. readSource env f \<noteq> None)
                            (filter (\<lambda>f. f \<noteq> []) (split_lines out)))))
                       @ '' potential security issues found'')])
   \<and> (findSources env = Returns out
        \<and> (\<forall>f \<in> set (split_lines out). readSource env f = None)
      \<longrightarrow> checks (checkSecurity env r)
            = checks r @ [gate_check_of ''Security Scan'' True ''No security issues detected''])
   \<and> (formatCheck env = Throws msg
      \<longrightarrow> checks (checkFormatting env r)
            = checks r @ [gate_check_of ''Formatting'' False ''Code formatting issues detected''])
   \<and> (countTodos env = Throws msg
      \<longrightarrow> checks (checkTodoComments env r)
            = checks r @ [gate_check_of ''TODO Comments'' True ''Unable to check TODO comments''])
   \<and> (audit env = Throws msg
      \<longrightarrow> checks (checkDependencies env r)
            = checks r @ [gate_check_of ''Dependencies'' False
                           (if sublist ''audit'' msg then ''Dependency vulnerabilities detected''
                            else ''Dependency check failed'')])
   \<and> (build env = Throws msg
      \<longrightarrow> checks (checkBuild env r)
            = checks r @ [gate_check_of ''Build'' False ''Build process failed or timed out''])
   \<and> map check_name (checks (runAllChecks env))
       = lintNames env @ [''TypeScript'', ''Security Scan'', ''Formatting'', ''TODO Comments'',
           ''Dependencies''] @ (if includeBuild env then [''Build''] else [])"
proof -
  have "lintOutcome env = Throws msg
      \<Longrightarrow> checks (checkLintQuality env r)
            = checks r @ [gate_check_of ''Lint Quality'' False (''Failed to check lint quality: '' @ msg)]"
    by (auto simp: checkLintQuality_def lintOutcome_def lintQualityFailed_def addCheck_checks
        gate_check_of_def split: outcome.splits if_splits)
  moreover have "map check_name (checks (runAllChecks env))
       = lintNames env @ [''TypeScript'', ''Security Scan'', ''Formatting'', ''TODO Comments'',
           ''Dependencies''] @ (if includeBuild env then [''Build''] else [])"
    by (simp add: runAllChecks_def calculateScore_checks runChecks_names)
  moreover have "findSources env = Returns out
        \<and> (\<forall>f \<in> set (split_lines out). readSource env f = None)
      \<Longrightarrow> checks (checkSecurity env r)
            = checks r @ [gate_check_of ''Security Scan'' True ''No security issues detected'']"
  proof -
    assume a: "findSources env = Returns out
        \<and> (\<forall>f \<in> set (split_lines out). readSource env f = None)"
    then have "filter (\<lambda>f. readSource env f \<noteq> None) (filter (\<lambda>f. f \<noteq> []) (split_lines out)) = []"
      by (auto simp: filter_empty_conv)
    then show ?thesis using a by (simp add: checkSecurity_returns)
  qed
  moreover have "findSources env = Throws msg
      \<Longrightarrow> checks (checkSecurity env r)
            = checks r @ [gate_check_of ''Security Scan'' False (''Security check failed: '' @ msg)]"
    by (simp add: checkSecurity_def addCheck_checks gate_check_of_def)
  ultimately show ?thesis
    using checkSecurity_returns [of env out r]
    by (simp add: checkTypeScript_def checkFormatting_def checkTodoComments_def
        checkDependencies_def checkBuild_def addCheck_checks gate_check_of_def Let_def
        str_includes_sublist)
qed

lemma throwing_gate_env_sel:
  "lintOutcome (throwing_gate_env msg) = Throws msg"
  "typecheck (throwing_gate_env msg) = Throws msg"
  "findSources (throwing_gate_env msg) = Throws msg"
  "formatCheck (throwing_gate_env msg) = Throws msg"
  "countTodos (throwing_gate_env msg) = Throws msg"
  "audit (throwing_gate_env msg) = Throws msg"
  by (simp_all add: throwing_gate_env_def lintOutcome_def)

text \<open>
  With its command throwing \<open>exit 1\<close>, each checker, the build checker too, appends
  its one check to the empty list; and with no source file readable, the security scan
  passes.
\<close>

theorem checker_exceptions_caught_witness:
  "checks (checkLintQuality (throwing_gate_env ''exit 1'') newQualityGate)
     = [gate_check_of ''Lint Quality'' False ''Failed to check lint quality: exit 1'']
   \<and> checks (checkTypeScript (throwing_gate_env ''exit 1'') newQualityGate)
     = [gate_check_of ''TypeScript'' False ''TypeScript compilation errors detected'']
   \<and> checks (checkSecurity (throwing_gate_env ''exit 1'') newQualityGate)
     = [gate_check_of ''Security Scan'' False ''Security check failed: exit 1'']
   \<and> checks (checkFormatting (throwing_gate_env ''exit 1'') newQualityGate)
     = [gate_check_of ''Formatting'' False ''Code formatting issues detected'']
   \<and> checks (checkTodoComments (throwing_gate_env ''exit 1'') newQualityGate)
     = [gate_check_of ''TODO Comments'' True ''Unable to check TODO comments'']
   \<and> checks (checkDependencies (throwing_gate_env ''exit 1'') newQualityGate)
     = [gate_check_of ''Dependencies'' False ''Dependency check failed'']
   \<and> checks (checkBuild (clean_gate_env\<lparr>build := Throws ''exit 1''\<rparr>) newQualityGate)
     = [gate_check_of ''Build'' False ''Build process failed or timed out'']
   \<and> findSources unreadable_gate_env = Returns ''packages/a.ts''
   \<and> readSource unreadable_gate_env ''packages/a.ts'' = None
   \<and> checks (checkSecurity unreadable_gate_env newQualityGate)
     = [gate_check_of ''Security Scan'' True ''No security issues detected'']"
proof -
  have u: "findSources unreadable_gate_env = Returns ''packages/a.ts''"
    "readSource unreadable_gate_env = (\<lambda>f. None)"
    by (simp_all add: unreadable_gate_env_def clean_gate_env_def)
  have v: "checks (checkSecurity unreadable_gate_env newQualityGate)
     = [gate_check_of ''Security Scan'' True ''No security issues detected'']"
    using checker_exceptions_caught [of unreadable_gate_env _ newQualityGate _ _ _
        "''packages/a.ts''"] u
    by (simp add: newQualityGate_def)
  have n: "checks newQualityGate = []" by (simp add: newQualityGate_def)
  have s: "\<not> sublist ''audit'' ''exit 1''"
    unfolding str_includes_sublist [symmetric] by simp
  have b: "build (clean_gate_env\<lparr>build := Throws ''exit 1''\<rparr>) = Throws ''exit 1''" by simp
  have w: "checks (checkLintQuality (throwing_gate_env ''exit 1'') newQualityGate)
     = [gate_check_of ''Lint Quality'' False ''Failed to check lint quality: exit 1'']
   \<and> checks (checkTypeScript (throwing_gate_env ''exit 1'') newQualityGate)
     = [gate_check_of ''TypeScript'' False ''TypeScript compilation errors detected'']
   \<and> checks (checkSecurity (throwing_gate_env ''exit 1'') newQualityGate)
     = [gate_check_of ''Security Scan'' False ''Security check failed: exit 1'']
   \<and> checks (checkFormatting (throwing_gate_env ''exit 1'') newQualityGate)
     = [gate_check_of ''Formatting'' False ''Code formatting issues detected'']
   \<and> checks (checkTodoComments (throwing_gate_env ''exit 1'') newQualityGate)
     = [gate_check_of ''TODO Comments'' True ''Unable to check TODO comments'']
   \<and> checks (checkDependencies (throwing_gate_env ''exit 1'') newQualityGate)
     = [gate_check_of ''Dependencies'' False ''Dependency check failed'']"
    using checker_exceptions_caught [of "throwing_gate_env ''exit 1''" "''exit 1''" newQualityGate]
      s
    unfolding throwing_gate_env_sel n
    by simp
  have x: "checks (checkBuild (clean_gate_env\<lparr>build := Throws ''exit 1''\<rparr>) newQualityGate)
     = [gate_check_of ''Build'' False ''Build process failed or timed out'']"
    using checker_exceptions_caught [of "clean_gate_env\<lparr>build := Throws ''exit 1''\<rparr>" "''exit 1''"
        newQualityGate]
    unfolding b n
    by simp
  show ?thesis using w x u v by simp
qed


end
